(* ===== verification/Go_Prelude.thy ===== *)
theory Go_Prelude
  imports Main "HOL-Library.Word" "HOL-Library.While_Combinator"
begin

text \<open>
  The shared vocabulary of the development: the widths of Go's unsigned integers, Go errors as
  values, the functions of the packages \<open>strings\<close> and \<open>strconv\<close> that the sources call, and the
  list lemmas that the component theories use.

  A Go string is a sequence of bytes, so it is a \<^typ>\<open>string\<close> with one \<^typ>\<open>char\<close> per byte.
\<close>

section \<open>Integers and errors\<close>

type_synonym u8 = "8 word"
type_synonym u16 = "16 word"
type_synonym u32 = "32 word"

text \<open>
  The kind of a failed system call, as far as the code looks at it: \<open>os.IsNotExist\<close> is
  \<^term>\<open>e = ENOENT\<close>, and every other errno is \<open>EOTHER\<close>.
\<close>

datatype errno = ENOENT | EOTHER

datatype num_error = ErrSyntax | ErrRange

text \<open>
  Go errors. \<open>EMsg\<close> is an error made by the program itself, \<open>EWrap\<close> is \<open>fmt.Errorf\<close> around
  another error, \<open>EVpp\<close> and \<open>EOvs\<close> come from the VPP binary API and from ovsdb, \<open>EKube\<close> from the
  Kubernetes API, \<open>EFs\<close> from the file system, \<open>ENum\<close> from \<open>strconv\<close>, \<open>EJson\<close> from
  \<open>encoding/json\<close>. \<open>EPanic\<close> is a run-time panic (a slice bound out of range), which ends the call
  the way an error returned from every caller does.
\<close>

datatype go_error =
    EMsg string
  | EWrap string go_error
  | EVpp int
  | EOvs string
  | EKube string
  | EFs errno
  | ENum num_error
  | EJson
  | EPanic

type_synonym 'a result = "go_error + 'a"

section \<open>Package strings\<close>

definition hasPrefix :: "string \<Rightarrow> string \<Rightarrow> bool" where
  "hasPrefix s p \<longleftrightarrow> take (length p) s = p"

definition hasSuffix :: "string \<Rightarrow> string \<Rightarrow> bool" where
  "hasSuffix s p \<longleftrightarrow> length p \<le> length s \<and> drop (length s - length p) s = p"

text \<open>\<open>strings.Contains(s, sub)\<close>.\<close>

fun containsStr :: "string \<Rightarrow> string \<Rightarrow> bool" where
  "containsStr [] sub = (sub = [])"
| "containsStr (c # s) sub = (hasPrefix (c # s) sub \<or> containsStr s sub)"

text \<open>\<open>strings.Index(s, sub)\<close> for a one-byte \<open>sub\<close>; \<^term>\<open>None\<close> is -1.\<close>

fun indexByte :: "string \<Rightarrow> char \<Rightarrow> nat option" where
  "indexByte [] c = None"
| "indexByte (x # s) c = (if x = c then Some 0 else map_option Suc (indexByte s c))"

text \<open>\<open>strings.Split(s, sep)\<close> for a one-byte separator.\<close>

fun splitOn :: "char \<Rightarrow> string \<Rightarrow> string list" where
  "splitOn c [] = [[]]"
| "splitOn c (x # s) =
     (if x = c then [] # splitOn c s
      else (case splitOn c s of [] \<Rightarrow> [[x]] | y # ys \<Rightarrow> (x # y) # ys))"

text \<open>\<open>strings.Join(xs, sep)\<close>.\<close>

fun joinWith :: "'a list \<Rightarrow> 'a list list \<Rightarrow> 'a list" where
  "joinWith sep [] = []"
| "joinWith sep [x] = x"
| "joinWith sep (x # y # ys) = x @ sep @ joinWith sep (y # ys)"

text \<open>
  \<open>strings.TrimLeft(s, cutset)\<close> and \<open>strings.TrimRight(s, cutset)\<close> for a cutset of ASCII bytes.
\<close>

definition trimLeft :: "string \<Rightarrow> string \<Rightarrow> string" where
  "trimLeft s cs = dropWhile (\<lambda>c. c \<in> set cs) s"

definition trimRight :: "string \<Rightarrow> string \<Rightarrow> string" where
  "trimRight s cs = rev (dropWhile (\<lambda>c. c \<in> set cs) (rev s))"

text \<open>
  \<open>strings.TrimSpace\<close> removes the runes of \<open>unicode.IsSpace\<close> at both ends: six ASCII bytes, and
  the UTF-8 encodings of U+0085, U+00A0, U+1680, U+2000 to U+200A, U+2028, U+2029, U+202F, U+205F and
  U+3000. No encoding is a proper prefix or a proper suffix of another one, so trimming a rune is
  removing one of these byte strings.
\<close>

definition space_encodings :: "string list" where
  "space_encodings =
     [[CHR 0x09], [CHR 0x0A], [CHR 0x0B], [CHR 0x0C], [CHR 0x0D], [CHR 0x20],
      [CHR 0xC2, CHR 0x85], [CHR 0xC2, CHR 0xA0], [CHR 0xE1, CHR 0x9A, CHR 0x80],
      [CHR 0xE2, CHR 0x80, CHR 0x80], [CHR 0xE2, CHR 0x80, CHR 0x81], [CHR 0xE2, CHR 0x80, CHR 0x82],
      [CHR 0xE2, CHR 0x80, CHR 0x83], [CHR 0xE2, CHR 0x80, CHR 0x84], [CHR 0xE2, CHR 0x80, CHR 0x85],
      [CHR 0xE2, CHR 0x80, CHR 0x86], [CHR 0xE2, CHR 0x80, CHR 0x87], [CHR 0xE2, CHR 0x80, CHR 0x88],
      [CHR 0xE2, CHR 0x80, CHR 0x89], [CHR 0xE2, CHR 0x80, CHR 0x8A], [CHR 0xE2, CHR 0x80, CHR 0xA8],
      [CHR 0xE2, CHR 0x80, CHR 0xA9], [CHR 0xE2, CHR 0x80, CHR 0xAF], [CHR 0xE2, CHR 0x81, CHR 0x9F],
      [CHR 0xE3, CHR 0x80, CHR 0x80]]"

text \<open>The number of bytes of the encoding from \<open>encs\<close> that starts \<open>s\<close>; 0 when there is none.\<close>

definition enc_len :: "string list \<Rightarrow> string \<Rightarrow> nat" where
  "enc_len encs s = (case find (hasPrefix s) encs of None \<Rightarrow> 0 | Some e \<Rightarrow> length e)"

function strip_encs :: "string list \<Rightarrow> string \<Rightarrow> string" where
  "strip_encs encs s =
     (if 0 < enc_len encs s then strip_encs encs (drop (enc_len encs s) s) else s)"
  by pat_completeness auto

lemma hasPrefix_length: "hasPrefix s p \<Longrightarrow> length p \<le> length s"
  unfolding hasPrefix_def by (metis length_take min.cobounded1)

lemma enc_len_le: "enc_len encs s \<le> length s"
  by (auto simp: enc_len_def find_Some_iff split: option.splits intro: hasPrefix_length)

lemma enc_len_drop: "0 < enc_len encs s \<Longrightarrow> length s - enc_len encs s < length s"
  using enc_len_le [of encs s] by linarith

termination strip_encs
  by (relation "measure (\<lambda>(encs, s). length s)") (auto intro: enc_len_drop)

definition trimSpace :: "string \<Rightarrow> string" where
  "trimSpace s = rev (strip_encs (map rev space_encodings) (rev (strip_encs space_encodings s)))"

text \<open>
  \<open>strings.EqualFold(s, t)\<close> is used with the constants \<open>memif\<close>, \<open>vpp\<close> and \<open>bridge\<close> only. None of
  them has a \<open>k\<close> or an \<open>s\<close>, the two ASCII letters whose fold orbit leaves ASCII, so folding the
  ASCII letters decides it.
\<close>

definition ascii_lower :: "char \<Rightarrow> char" where
  "ascii_lower c =
     (let n = of_char c :: nat in if 65 \<le> n \<and> n \<le> 90 then char_of (n + 32) else c)"

definition equalFold :: "string \<Rightarrow> string \<Rightarrow> bool" where
  "equalFold s t \<longleftrightarrow> map ascii_lower s = map ascii_lower t"

text \<open>
  \<open>strings.ToLower(s)\<close>, up to comparison with an ASCII constant: the only runes outside ASCII whose
  lower case is ASCII are U+0130 (to \<open>i\<close>) and U+212A (to \<open>k\<close>). Every other rune outside ASCII stays
  outside ASCII, so its bytes are kept.
\<close>

fun toLower :: "string \<Rightarrow> string" where
  "toLower [] = []"
| "toLower (a # s) =
     (case s of
        b # t \<Rightarrow>
          if a = CHR 0xC4 \<and> b = CHR 0xB0 then CHR ''i'' # toLower t
          else (case t of
                  c # u \<Rightarrow>
                    if a = CHR 0xE2 \<and> b = CHR 0x84 \<and> c = CHR 0xAA then CHR ''k'' # toLower u
                    else ascii_lower a # toLower s
                | [] \<Rightarrow> ascii_lower a # toLower s)
      | [] \<Rightarrow> [ascii_lower a])"

section \<open>Package strconv\<close>

definition digit_val :: "char \<Rightarrow> int option" where
  "digit_val c = (let n = of_char c :: int in if 48 \<le> n \<and> n \<le> 57 then Some (n - 48) else None)"

text \<open>
  The loop of \<open>strconv.ParseUint(s, 10, bits)\<close> with maximal value \<open>mx\<close>: a byte that is no digit is
  a syntax error, and the loop returns a range error as soon as the value exceeds \<open>mx\<close>.
\<close>

fun parse_digits :: "int \<Rightarrow> int \<Rightarrow> string \<Rightarrow> num_error + int" where
  "parse_digits mx acc [] = Inr acc"
| "parse_digits mx acc (c # s) =
     (case digit_val c of
        None \<Rightarrow> Inl ErrSyntax
      | Some d \<Rightarrow> if acc * 10 + d > mx then Inl ErrRange else parse_digits mx (acc * 10 + d) s)"

definition parseUint :: "int \<Rightarrow> string \<Rightarrow> num_error + int" where
  "parseUint mx s = (if s = [] then Inl ErrSyntax else parse_digits mx 0 s)"

text \<open>\<open>strconv.ParseInt(s, 10, 64)\<close>: a sign, then the digits within the range of the sign.\<close>

definition parseInt :: "string \<Rightarrow> num_error + int" where
  "parseInt s =
     (case s of
        [] \<Rightarrow> Inl ErrSyntax
      | c # t \<Rightarrow>
          if c = CHR ''-'' then map_sum id uminus (parseUint (2 ^ 63) t)
          else if c = CHR ''+'' then parseUint (2 ^ 63 - 1) t
          else parseUint (2 ^ 63 - 1) s)"

definition parseUint32 :: "string \<Rightarrow> num_error + int" where
  "parseUint32 s = parseUint (2 ^ 32 - 1) s"

text \<open>The decimal numeral of a number, as \<open>fmt\<close> prints it under the verb \<open>%d\<close>.\<close>

definition digit_char :: "nat \<Rightarrow> char" where
  "digit_char d = char_of (48 + d)"

fun show_nat :: "nat \<Rightarrow> string" where
  "show_nat n = (if n < 10 then [digit_char n] else show_nat (n div 10) @ [digit_char (n mod 10)])"

definition show_int :: "int \<Rightarrow> string" where
  "show_int n = (if n < 0 then CHR ''-'' # show_nat (nat (- n)) else show_nat (nat n))"

declare show_nat.simps [simp del] strip_encs.simps [simp del]

section \<open>Lemmas on prefixes and separators\<close>

lemma hasPrefix_append [simp]: "hasPrefix (p @ s) p"
  by (simp add: hasPrefix_def)

lemma hasPrefix_iff: "hasPrefix s p \<longleftrightarrow> (\<exists>t. s = p @ t)"
  unfolding hasPrefix_def by (metis append_eq_conv_conj append_take_drop_id)

lemma hasPrefix_Nil [simp]: "hasPrefix s []"
  by (simp add: hasPrefix_def)

lemma hasPrefix_Nil_left [simp]: "hasPrefix [] p \<longleftrightarrow> p = []"
  by (auto simp: hasPrefix_def)

lemma hasPrefix_Cons [simp]: "hasPrefix (a # s) (b # p) \<longleftrightarrow> a = b \<and> hasPrefix s p"
  by (auto simp: hasPrefix_def)

lemma hasSuffix_append [simp]: "hasSuffix (s @ p) p"
  by (simp add: hasSuffix_def)

lemma splitOn_not_Nil [simp]: "splitOn c s \<noteq> []"
  by (induction s) (auto split: list.splits)

lemma splitOn_no_sep: "p \<in> set (splitOn c s) \<Longrightarrow> c \<notin> set p"
  by (induction s arbitrary: p) (auto split: if_splits list.splits)

lemma splitOn_single: "c \<notin> set s \<Longrightarrow> splitOn c s = [s]"
  by (induction s) auto

lemma splitOn_append_sep: "splitOn c (a @ c # b) = splitOn c a @ splitOn c b"
  by (induction a) (auto split: list.splits simp: append_eq_Cons_conv)

lemma splitOn_joinWith:
  "xs \<noteq> [] \<Longrightarrow> \<forall>x\<in>set xs. c \<notin> set x \<Longrightarrow> splitOn c (joinWith [c] xs) = xs"
  by (induction "[c]" xs rule: joinWith.induct) (auto simp: splitOn_single splitOn_append_sep)

lemma joinWith_Cons: "xs \<noteq> [] \<Longrightarrow> joinWith sep (x # xs) = x @ sep @ joinWith sep xs"
  by (cases xs) auto

lemma joinWith_splitOn [simp]: "joinWith [c] (splitOn c s) = s"
  by (induction s) (auto simp: joinWith_Cons split: list.splits, case_tac x22, auto)

lemma joinWith_snoc: "xs \<noteq> [] \<Longrightarrow> joinWith sep (xs @ [x]) = joinWith sep xs @ sep @ x"
  by (induction sep xs rule: joinWith.induct) auto

lemma indexByte_None_iff [simp]: "indexByte s c = None \<longleftrightarrow> c \<notin> set s"
  by (induction s) auto

lemma indexByte_append: "c \<notin> set a \<Longrightarrow> indexByte (a @ c # b) c = Some (length a)"
  by (induction a) auto

lemma indexByte_Some: "indexByte s c = Some i \<Longrightarrow> s = take i s @ c # drop (Suc i) s \<and> c \<notin> set (take i s)"
  by (induction s arbitrary: i) (auto split: if_splits)

section \<open>Lemmas on white space\<close>

text \<open>The printable ASCII bytes other than the space: none occurs at either end of a space rune.\<close>

definition graphic :: "char \<Rightarrow> bool" where
  "graphic c \<longleftrightarrow> 33 \<le> (of_char c :: nat) \<and> (of_char c :: nat) \<le> 126"

definition space_free_ends :: "string list \<Rightarrow> bool" where
  "space_free_ends encs \<longleftrightarrow> list_all (\<lambda>e. e \<noteq> [] \<and> \<not> graphic (hd e)) encs"

lemma space_encodings_ends:
  "space_free_ends space_encodings" "space_free_ends (map rev space_encodings)"
  by code_simp+

lemma enc_len_graphic:
  assumes "space_free_ends encs" and "graphic c"
  shows "enc_len encs (c # s) = 0"
proof -
  have "\<not> hasPrefix (c # s) e" if "e \<in> set encs" for e
    using assms that by (cases e) (auto simp: space_free_ends_def list_all_iff)
  then have "find (hasPrefix (c # s)) encs = None" by (simp add: find_None_iff)
  then show ?thesis by (simp add: enc_len_def)
qed

lemmas graphic_no_space = enc_len_graphic [OF space_encodings_ends(1)]
lemmas graphic_no_rev_space = enc_len_graphic [OF space_encodings_ends(2)]

lemma trimSpace_graphic:
  assumes "s \<noteq> []" and "graphic (hd s)" and "graphic (last s)"
  shows "trimSpace s = s"
proof -
  from assms obtain c t where s: "s = c # t" and c: "graphic c" by (cases s) auto
  from assms obtain d u where r: "rev s = d # u" and d: "graphic d"
    by (cases "rev s") (auto simp: last_rev hd_rev [symmetric])
  have "strip_encs space_encodings s = s"
    using c by (subst strip_encs.simps) (simp add: s graphic_no_space)
  moreover have "strip_encs (map rev space_encodings) (rev s) = rev s"
    using d by (subst strip_encs.simps) (simp add: r graphic_no_rev_space)
  ultimately show ?thesis by (simp add: trimSpace_def)
qed

lemma strip_encs_Nil [simp]: "strip_encs space_encodings [] = []" "strip_encs (map rev space_encodings) [] = []"
  by (subst strip_encs.simps, simp add: enc_len_def space_encodings_def)+

lemma trimSpace_Nil [simp]: "trimSpace [] = []"
  by (simp add: trimSpace_def)

section \<open>Lemmas on decimal numerals\<close>

lemma of_char_digit_char: "d < 10 \<Longrightarrow> (of_char (digit_char d) :: nat) = 48 + d"
  by (simp add: digit_char_def)

lemma digit_val_digit_char [simp]: "d < 10 \<Longrightarrow> digit_val (digit_char d) = Some (int d)"
  using of_nat_of_char [where ?'a = int, of "digit_char d"]
  by (simp add: digit_val_def of_char_digit_char)

lemma show_nat_not_Nil [simp]: "show_nat n \<noteq> []"
  by (subst show_nat.simps) simp

lemma set_show_nat: "set (show_nat n) \<subseteq> digit_char ` {..<10}"
proof (induction n rule: show_nat.induct)
  case (1 n)
  then show ?case by (subst show_nat.simps) auto
qed

lemma parse_digits_append:
  "parse_digits mx acc (s @ t) =
     (case parse_digits mx acc s of Inl e \<Rightarrow> Inl e | Inr a \<Rightarrow> parse_digits mx a t)"
  by (induction s arbitrary: acc) (auto split: option.splits)

lemma parse_digits_show_nat: "int n \<le> mx \<Longrightarrow> parse_digits mx 0 (show_nat n) = Inr (int n)"
proof (induction n rule: show_nat.induct)
  case (1 n)
  show ?case
  proof (cases "n < 10")
    case True
    with "1.prems" show ?thesis by (subst show_nat.simps) simp
  next
    case False
    have "int (n div 10) \<le> mx" using "1.prems" by linarith
    with "1.IH" False have "parse_digits mx 0 (show_nat (n div 10)) = Inr (int (n div 10))" by simp
    moreover have "int (n div 10) * 10 + int (n mod 10) = int n" by presburger
    ultimately show ?thesis
      using False "1.prems" by (subst show_nat.simps) (simp add: parse_digits_append)
  qed
qed

lemma parseUint_show_nat: "int n \<le> mx \<Longrightarrow> parseUint mx (show_nat n) = Inr (int n)"
  by (simp add: parseUint_def parse_digits_show_nat)

lemma parseUint32_show_nat: "n < 2 ^ 32 \<Longrightarrow> parseUint32 (show_nat n) = Inr (int n)"
  by (simp add: parseUint32_def parseUint_show_nat)

lemma hd_show_nat: "hd (show_nat n) \<noteq> CHR ''-''" "hd (show_nat n) \<noteq> CHR ''+''"
proof -
  have "hd (show_nat n) \<in> digit_char ` {..<10}"
    using set_show_nat [of n] hd_in_set [OF show_nat_not_Nil] by blast
  then obtain d where "d < 10" "hd (show_nat n) = digit_char d" by auto
  then have "(of_char (hd (show_nat n)) :: nat) \<ge> 48" by (simp add: of_char_digit_char)
  then show "hd (show_nat n) \<noteq> CHR ''-''" "hd (show_nat n) \<noteq> CHR ''+''" by auto
qed

lemma parseInt_show_int:
  assumes "- (2 ^ 63) \<le> n" and "n < 2 ^ 63"
  shows "parseInt (show_int n) = Inr n"
proof (cases "n < 0")
  case True
  then show ?thesis using assms by (simp add: parseInt_def show_int_def parseUint_show_nat)
next
  case False
  have "parseInt (show_nat (nat n)) = parseUint (2 ^ 63 - 1) (show_nat (nat n))"
    using hd_show_nat [of "nat n"] by (cases "show_nat (nat n)") (simp_all add: parseInt_def)
  then show ?thesis using False assms by (simp add: show_int_def parseUint_show_nat)
qed

lemma digit_val_bound: "digit_val c = Some d \<Longrightarrow> 0 \<le> d \<and> d \<le> 9"
  by (auto simp: digit_val_def Let_def split: if_splits)

lemma parse_digits_bound: "0 \<le> acc \<Longrightarrow> acc \<le> mx \<Longrightarrow> parse_digits mx acc s = Inr n \<Longrightarrow> 0 \<le> n \<and> n \<le> mx"
proof (induction s arbitrary: acc)
  case (Cons c s)
  from Cons.prems obtain d where "acc * 10 + d \<le> mx" "parse_digits mx (acc * 10 + d) s = Inr n"
    "digit_val c = Some d" by (auto split: option.splits if_splits simp: not_less)
  then show ?case using Cons.IH [of "acc * 10 + d"] Cons.prems(1) digit_val_bound by force
qed simp

lemma parseUint32_bound: "parseUint32 s = Inr n \<Longrightarrow> 0 \<le> n \<and> n < 2 ^ 32"
  using parse_digits_bound [of 0 "2 ^ 32 - 1" s n] by (auto simp: parseUint32_def parseUint_def split: if_splits)

text \<open>A run with a known result, for the concrete examples.\<close>

lemma length_filter_le_filter: "(\<And>x. P x \<Longrightarrow> Q x) \<Longrightarrow> length (filter P xs) \<le> length (filter Q xs)"
  by (induction xs) (auto simp: le_Suc_eq)

lemma run_surj: "fst p = a \<Longrightarrow> p = (a, snd p)"
  by (cases p) simp

end
