(* ===== verification/Go_Path.thy ===== *)
theory Go_Path
  imports Go_Prelude
begin

text \<open>
  The package \<open>path/filepath\<close> on Unix (\<open>path.Join\<close> of the daemon is the same function there):
  \<open>Clean\<close>, \<open>Join\<close> of two elements, \<open>Dir\<close>. The lemmas show that \<open>Clean\<close> is idempotent and that a
  joined path decomposes into the cleaned directory and the file name; the socket-file code of the
  plugin and of the restore daemon depends on that.
\<close>

section \<open>Definitions\<close>

abbreviation slash :: char where
  "slash \<equiv> CHR ''/''"

definition rooted :: "string \<Rightarrow> bool" where
  "rooted p \<longleftrightarrow> p \<noteq> [] \<and> hd p = slash"

text \<open>One element of the path, with the elements kept so far on a stack.\<close>

definition clean_step :: "bool \<Rightarrow> string list \<Rightarrow> string \<Rightarrow> string list" where
  "clean_step r stk c =
     (if c = [] \<or> c = ''.'' then stk
      else if c = ''..'' then
        (case stk of
           [] \<Rightarrow> if r then [] else [''..'']
         | x # xs \<Rightarrow> if x = ''..'' then ''..'' # stk else xs)
      else c # stk)"

definition clean_comps :: "bool \<Rightarrow> string list \<Rightarrow> string list" where
  "clean_comps r cs = rev (foldl (clean_step r) [] cs)"

definition render :: "bool \<Rightarrow> string list \<Rightarrow> string" where
  "render r xs = (if r then slash # joinWith [slash] xs
                  else if xs = [] then ''.'' else joinWith [slash] xs)"

text \<open>The elements that \<open>Clean\<close> keeps.\<close>

definition path_elems :: "string \<Rightarrow> string list" where
  "path_elems p = clean_comps (rooted p) (splitOn slash p)"

definition pathClean :: "string \<Rightarrow> string" where
  "pathClean p = (if p = [] then ''.'' else render (rooted p) (path_elems p))"

definition pathJoin :: "string \<Rightarrow> string \<Rightarrow> string" where
  "pathJoin a b =
     (if a = [] then (if b = [] then [] else pathClean b) else pathClean (a @ slash # b))"

text \<open>Everything up to the last slash, that one included.\<close>

definition up_to_slash :: "string \<Rightarrow> string" where
  "up_to_slash p = rev (dropWhile (\<lambda>c. c \<noteq> slash) (rev p))"

definition pathDir :: "string \<Rightarrow> string" where
  "pathDir p = pathClean (up_to_slash p)"

text \<open>The name of a directory entry: not empty, no slash, neither \<open>.\<close> nor \<open>..\<close>.\<close>

definition plain_name :: "string \<Rightarrow> bool" where
  "plain_name n \<longleftrightarrow> n \<noteq> [] \<and> slash \<notin> set n \<and> n \<noteq> ''.'' \<and> n \<noteq> ''..''"

text \<open>What the stack of \<open>Clean\<close> looks like: plain names above a block of \<open>..\<close>, empty when rooted.\<close>

fun stack_ok :: "bool \<Rightarrow> string list \<Rightarrow> bool" where
  "stack_ok r [] = True"
| "stack_ok r (x # xs) =
     (if x = ''..'' then \<not> r \<and> (\<forall>y\<in>set xs. y = ''..'') else plain_name x \<and> stack_ok r xs)"

section \<open>Normal forms\<close>

lemma stack_ok_dotdots: "\<forall>y\<in>set xs. y = ''..'' \<Longrightarrow> \<not> r \<Longrightarrow> stack_ok r xs"
  by (induction xs) auto

lemma stack_ok_tl: "stack_ok r (x # xs) \<Longrightarrow> stack_ok r xs"
  by (auto split: if_splits intro: stack_ok_dotdots)

lemma stack_ok_append: "stack_ok r (xs @ ys) \<Longrightarrow> stack_ok r ys"
  by (induction xs) (auto simp del: stack_ok.simps(2) dest: stack_ok_tl)

lemma clean_step_ok: "stack_ok r stk \<Longrightarrow> slash \<notin> set c \<Longrightarrow> stack_ok r (clean_step r stk c)"
  by (auto simp: clean_step_def plain_name_def split: list.splits if_splits dest: stack_ok_tl)

lemma foldl_clean_ok:
  "stack_ok r stk \<Longrightarrow> \<forall>c\<in>set cs. slash \<notin> set c \<Longrightarrow> stack_ok r (foldl (clean_step r) stk cs)"
  by (induction cs arbitrary: stk) (auto intro: clean_step_ok)

lemma clean_step_push: "stack_ok r (x # xs) \<Longrightarrow> clean_step r xs x = x # xs"
  by (auto simp: clean_step_def plain_name_def split: list.splits if_splits)

lemma foldl_clean_id: "stack_ok r (rev xs @ stk) \<Longrightarrow> foldl (clean_step r) stk xs = rev xs @ stk"
proof (induction xs arbitrary: stk)
  case (Cons x xs)
  have "stack_ok r (x # stk)"
    using Cons.prems stack_ok_append [of r "rev xs" "x # stk"] by simp
  then show ?case using Cons by (simp add: clean_step_push)
qed simp

definition elems_ok :: "bool \<Rightarrow> string list \<Rightarrow> bool" where
  "elems_ok r xs \<longleftrightarrow> stack_ok r (rev xs)"

lemma clean_comps_id: "elems_ok r xs \<Longrightarrow> clean_comps r xs = xs"
  using foldl_clean_id [of r xs "[]"] by (simp add: elems_ok_def clean_comps_def)

lemma path_elems_ok: "elems_ok (rooted p) (path_elems p)"
proof -
  have "\<forall>c\<in>set (splitOn slash p). slash \<notin> set c"
    using splitOn_no_sep by blast
  then have "stack_ok (rooted p) (foldl (clean_step (rooted p)) [] (splitOn slash p))"
    by (rule foldl_clean_ok [OF stack_ok.simps(1) [THEN iffD2, OF TrueI]])
  then show ?thesis by (simp add: elems_ok_def path_elems_def clean_comps_def)
qed

definition good_elem :: "string \<Rightarrow> bool" where
  "good_elem x \<longleftrightarrow> x \<noteq> [] \<and> slash \<notin> set x \<and> x \<noteq> ''.''"

lemma good_elem_dotdot: "good_elem ''..''"
  by (simp add: good_elem_def)

lemma good_elem_plain: "plain_name x \<Longrightarrow> good_elem x"
  by (simp add: good_elem_def plain_name_def)

lemma stack_ok_good: "stack_ok r xs \<Longrightarrow> x \<in> set xs \<Longrightarrow> good_elem x"
proof (induction xs)
  case (Cons y ys)
  show ?case
  proof (cases "y = ''..''")
    case True
    with Cons.prems have "x = ''..''" by (auto simp del: insert_iff)
    then show ?thesis by (simp add: good_elem_dotdot)
  next
    case False
    with Cons show ?thesis by (auto intro: good_elem_plain)
  qed
qed simp

lemma elems_ok_no_slash: "elems_ok r xs \<Longrightarrow> x \<in> set xs \<Longrightarrow> x \<noteq> [] \<and> slash \<notin> set x \<and> x \<noteq> ''.''"
  using stack_ok_good [of r "rev xs" x] by (simp add: elems_ok_def good_elem_def)

lemma clean_comps_skip [simp]: "clean_comps r ([] # cs) = clean_comps r cs"
  by (simp add: clean_comps_def clean_step_def)

lemma clean_comps_snoc_empty [simp]: "clean_comps r (cs @ [[]]) = clean_comps r cs"
  by (simp add: clean_comps_def clean_step_def)

lemma clean_comps_snoc: "plain_name n \<Longrightarrow> clean_comps r (cs @ [n]) = clean_comps r cs @ [n]"
  by (auto simp: clean_comps_def clean_step_def plain_name_def)

lemma splitOn_render:
  assumes "elems_ok r xs" and "xs \<noteq> []"
  shows "splitOn slash (joinWith [slash] xs) = xs"
  using assms by (intro splitOn_joinWith) (auto dest: elems_ok_no_slash)

lemma joinWith_hd:
  "xs \<noteq> [] \<Longrightarrow> hd xs \<noteq> [] \<Longrightarrow> joinWith sep xs \<noteq> [] \<and> hd (joinWith sep xs) = hd (hd xs)"
  by (cases "(sep, xs)" rule: joinWith.cases) auto

lemma render_not_Nil [simp]:
  assumes "elems_ok r xs"
  shows "render r xs \<noteq> []"
  using assms joinWith_hd [of xs "[slash]"] elems_ok_no_slash [OF assms, of "hd xs"]
  by (auto simp: render_def)

lemma rooted_render:
  assumes "elems_ok r xs"
  shows "rooted (render r xs) = r"
proof (cases "r \<or> xs = []")
  case True
  then show ?thesis by (auto simp: render_def rooted_def)
next
  case False
  then have x: "hd xs \<noteq> []" "slash \<notin> set (hd xs)"
    using elems_ok_no_slash [OF assms, of "hd xs"] by auto
  then have "hd (hd xs) \<noteq> slash" by (metis hd_in_set)
  with False joinWith_hd [of xs "[slash]"] x show ?thesis by (auto simp: render_def rooted_def)
qed

lemma path_elems_render:
  assumes "elems_ok r xs"
  shows "path_elems (render r xs) = xs"
proof -
  have "clean_comps r (splitOn slash (render r xs)) = xs"
  proof (cases "xs = []")
    case True
    then show ?thesis by (auto simp: render_def clean_comps_def clean_step_def)
  next
    case False
    then show ?thesis
      using assms by (auto simp: render_def splitOn_render clean_comps_id)
  qed
  then show ?thesis using assms by (simp add: path_elems_def rooted_render)
qed

lemma pathClean_render: "elems_ok r xs \<Longrightarrow> pathClean (render r xs) = render r xs"
  by (simp add: pathClean_def rooted_render path_elems_render)

lemma pathClean_alt: "pathClean p = render (rooted p) (path_elems p)"
  by (simp add: pathClean_def render_def rooted_def path_elems_def clean_comps_def clean_step_def)

lemma pathClean_idem [simp]: "pathClean (pathClean p) = pathClean p"
  by (simp add: pathClean_alt [of p] pathClean_render path_elems_ok)

lemma render_inject:
  "elems_ok r xs \<Longrightarrow> elems_ok r' ys \<Longrightarrow> render r xs = render r' ys \<longleftrightarrow> r = r' \<and> xs = ys"
  by (rule iffI, frule arg_cong [where f = rooted], drule arg_cong [where f = path_elems])
    (simp_all add: rooted_render path_elems_render)

section \<open>Joining a directory and a file name\<close>

lemma rooted_append: "d \<noteq> [] \<Longrightarrow> rooted (d @ e) = rooted d"
  by (simp add: rooted_def)

lemma pathJoin_render:
  assumes "d \<noteq> []" and "plain_name n"
  shows "pathJoin d n = render (rooted d) (path_elems d @ [n])"
proof -
  have "slash \<notin> set n" using assms(2) by (simp add: plain_name_def)
  then show ?thesis using assms
    by (simp add: pathJoin_def pathClean_alt rooted_append path_elems_def splitOn_append_sep
        splitOn_single clean_comps_snoc)
qed

lemma elems_ok_snoc: "elems_ok r xs \<Longrightarrow> plain_name n \<Longrightarrow> elems_ok r (xs @ [n])"
  by (auto simp: elems_ok_def plain_name_def)

lemma pathJoin_clean_dir:
  assumes "d \<noteq> []" and "plain_name n"
  shows "pathJoin (pathClean d) n = pathJoin d n"
proof -
  have "rooted (pathClean d) = rooted d" "path_elems (pathClean d) = path_elems d"
    by (simp_all add: pathClean_alt rooted_render path_elems_render path_elems_ok)
  moreover have "pathClean d \<noteq> []" by (simp add: pathClean_alt path_elems_ok)
  ultimately show ?thesis using assms by (simp add: pathJoin_render)
qed

lemma pathJoin_clean: "d \<noteq> [] \<Longrightarrow> pathClean (pathJoin d n) = pathJoin d n"
  by (simp add: pathJoin_def)

lemma pathJoin_inject:
  assumes "d \<noteq> []" "e \<noteq> []" "plain_name n" "plain_name m"
  shows "pathJoin d n = pathJoin e m \<longleftrightarrow> pathClean d = pathClean e \<and> n = m"
  using assms
  by (auto simp: pathJoin_render render_inject elems_ok_snoc path_elems_ok pathClean_alt)

lemma up_to_slash_append: "slash \<notin> set n \<Longrightarrow> up_to_slash (p @ slash # n) = p @ [slash]"
proof -
  assume n: "slash \<notin> set n"
  have "dropWhile (\<lambda>c. c \<noteq> slash) (rev n @ slash # rev p) = slash # rev p"
    using n by (subst dropWhile_append2) auto
  then show ?thesis by (simp add: up_to_slash_def)
qed

lemma up_to_slash_none: "slash \<notin> set n \<Longrightarrow> up_to_slash n = []"
  by (auto simp: up_to_slash_def)

lemma pathClean_trailing_slash: "p \<noteq> [] \<Longrightarrow> pathClean (p @ [slash]) = pathClean p"
  by (simp add: pathClean_alt rooted_append path_elems_def splitOn_append_sep)

theorem pathDir_pathJoin:
  assumes "d \<noteq> []" and "plain_name n"
  shows "pathDir (pathJoin d n) = pathClean d"
proof -
  let ?r = "rooted d" and ?xs = "path_elems d"
  have n: "slash \<notin> set n" using assms(2) by (simp add: plain_name_def)
  have ok: "elems_ok ?r ?xs" by (rule path_elems_ok)
  have J: "pathJoin d n = render ?r (?xs @ [n])" using assms by (rule pathJoin_render)
  show ?thesis
  proof (cases "?xs = []")
    case True
    then have "pathDir (pathJoin d n) = pathClean (if ?r then [slash] else [])"
      using n J up_to_slash_append [of n "[]"]
      by (auto simp: pathDir_def render_def up_to_slash_none)
    also have "\<dots> = render ?r []" 
      by (simp add: pathClean_def path_elems_def render_def rooted_def clean_comps_def clean_step_def)
    finally show ?thesis using True by (simp add: pathClean_alt)
  next
    case False
    then have "render ?r (?xs @ [n]) = render ?r ?xs @ slash # n"
      by (simp add: render_def joinWith_snoc)
    then have "pathDir (pathJoin d n) = pathClean (render ?r ?xs @ [slash])"
      using n J by (simp add: pathDir_def up_to_slash_append)
    also have "\<dots> = pathClean (render ?r ?xs)"
      using ok by (simp add: pathClean_trailing_slash)
    finally show ?thesis using ok by (simp add: pathClean_render pathClean_alt [of d])
  qed
qed

end
