(* ===== verification/Go_FS.thy ===== *)
theory Go_FS
  imports Go_Path "HOL-Library.Char_ord" "HOL-Library.List_Lexorder"
begin

text \<open>
  The file system as package \<open>os\<close> shows it. A file system is a list of paths with their nodes, and
  an oracle \<open>deny\<close> for the failures that do not depend on what exists (permissions, I/O errors, a
  path through a regular file): a call on a denied path returns an error for which \<open>os.IsNotExist\<close>
  is false. Paths are looked up in their cleaned form; there are no symbolic links. The root and the
  working directory always exist. Times are in tenths of a second.
\<close>

section \<open>State\<close>

text \<open>The unit of the clock: \<open>time.Second\<close> is ten of them.\<close>

definition time_Second :: nat where
  "time_Second = 10"

datatype node = DirNode | FileNode (content: string) (mtime: nat)

datatype fsop = OpStat | OpRemove | OpMkdir | OpWrite | OpRead | OpReadDir | OpOpen | OpInfo
  | OpRename | OpChown | OpMount | OpUnmount

record fs =
  nodes :: "(string \<times> node) list"
  deny :: "fsop \<Rightarrow> string \<Rightarrow> bool"

definition fs_node :: "fs \<Rightarrow> string \<Rightarrow> node option" where
  "fs_node f p = (if p = [] then None else map_of (nodes f) (pathClean p))"

definition fs_del :: "fs \<Rightarrow> string \<Rightarrow> fs" where
  "fs_del f p = f\<lparr>nodes := filter (\<lambda>x. fst x \<noteq> pathClean p) (nodes f)\<rparr>"

definition fs_put :: "fs \<Rightarrow> string \<Rightarrow> node \<Rightarrow> fs" where
  "fs_put f p n = f\<lparr>nodes := (pathClean p, n) # nodes (fs_del f p)\<rparr>"

definition base_dir :: "string \<Rightarrow> bool" where
  "base_dir p \<longleftrightarrow> pathClean p = ''/'' \<or> pathClean p = ''.''"

definition is_dir :: "fs \<Rightarrow> string \<Rightarrow> bool" where
  "is_dir f p \<longleftrightarrow> p \<noteq> [] \<and> (base_dir p \<or> fs_node f p = Some DirNode)"

text \<open>The last element of a path.\<close>

definition pathBase :: "string \<Rightarrow> string" where
  "pathBase p = (if path_elems p = [] then [] else last (path_elems p))"

text \<open>The names in a directory, in the order \<open>os.ReadDir\<close> gives them.\<close>

definition fs_names :: "fs \<Rightarrow> string \<Rightarrow> string list" where
  "fs_names f d =
     sort (map (pathBase \<circ> fst)
       (filter (\<lambda>x. pathDir (fst x) = pathClean d \<and> fst x \<noteq> pathClean d) (nodes f)))"

section \<open>Calls\<close>

definition os_Stat :: "fs \<Rightarrow> string \<Rightarrow> errno + node" where
  "os_Stat f p =
     (if deny f OpStat p then Inl EOTHER
      else if p \<noteq> [] \<and> base_dir p then Inr DirNode
      else case fs_node f p of None \<Rightarrow> Inl ENOENT | Some n \<Rightarrow> Inr n)"

definition os_Remove :: "string \<Rightarrow> fs \<Rightarrow> errno option \<times> fs" where
  "os_Remove p f =
     (if deny f OpRemove p then (Some EOTHER, f)
      else case fs_node f p of
        None \<Rightarrow> (Some ENOENT, f)
      | Some DirNode \<Rightarrow> if fs_names f p = [] then (None, fs_del f p) else (Some EOTHER, f)
      | Some (FileNode _ _) \<Rightarrow> (None, fs_del f p))"

text \<open>\<open>os.MkdirAll\<close> creates the missing directories from the top; a regular file on the way stops it.\<close>

fun mkdir_each :: "string list \<Rightarrow> fs \<Rightarrow> errno option \<times> fs" where
  "mkdir_each [] f = (None, f)"
| "mkdir_each (p # ps) f =
     (case fs_node f p of
        Some DirNode \<Rightarrow> mkdir_each ps f
      | Some (FileNode _ _) \<Rightarrow> (Some EOTHER, f)
      | None \<Rightarrow> if deny f OpMkdir p then (Some EOTHER, f) else mkdir_each ps (fs_put f p DirNode))"

definition ancestors :: "string \<Rightarrow> string list" where
  "ancestors p = map (\<lambda>k. render (rooted p) (take (Suc k) (path_elems p))) [0..<length (path_elems p)]"

definition os_MkdirAll :: "string \<Rightarrow> fs \<Rightarrow> errno option \<times> fs" where
  "os_MkdirAll p f = (if p = [] then (Some ENOENT, f) else mkdir_each (ancestors p) f)"

definition os_WriteFile :: "nat \<Rightarrow> string \<Rightarrow> string \<Rightarrow> fs \<Rightarrow> errno option \<times> fs" where
  "os_WriteFile now p bytes f =
     (if deny f OpWrite p then (Some EOTHER, f)
      else if p = [] \<or> \<not> is_dir f (pathDir p) then (Some ENOENT, f)
      else if is_dir f p then (Some EOTHER, f)
      else (None, fs_put f p (FileNode bytes now)))"

definition os_ReadFile :: "fs \<Rightarrow> string \<Rightarrow> errno + string" where
  "os_ReadFile f p =
     (if deny f OpRead p then Inl EOTHER
      else case fs_node f p of
        None \<Rightarrow> Inl ENOENT
      | Some DirNode \<Rightarrow> Inl EOTHER
      | Some (FileNode bytes _) \<Rightarrow> Inr bytes)"

definition os_ReadDir :: "fs \<Rightarrow> string \<Rightarrow> errno + string list" where
  "os_ReadDir f d =
     (if deny f OpReadDir d then Inl EOTHER
      else if is_dir f d then Inr (fs_names f d)
      else if fs_node f d = None then Inl ENOENT else Inl EOTHER)"

text \<open>
  \<open>os.RemoveAll\<close> goes on after an entry that cannot be removed: what stays are the denied entries and
  the directories above them. A path whose last element is a dot is refused.
\<close>

definition below :: "string \<Rightarrow> string \<Rightarrow> bool" where
  "below d q \<longleftrightarrow> q = d \<or> hasPrefix q (if d = ''/'' then d else d @ ''/'') \<or>
     (d = ''.'' \<and> \<not> rooted q \<and> q \<noteq> ''..'' \<and> \<not> hasPrefix q ''../'')"

definition os_RemoveAll :: "string \<Rightarrow> fs \<Rightarrow> errno option \<times> fs" where
  "os_RemoveAll p f =
     (if p = [] then (None, f)
      else if p = ''.'' \<or> hasSuffix p ''/.'' then (Some EOTHER, f)
      else
        (let d = pathClean p;
             stuck = (\<lambda>q. \<exists>r\<in>set (map fst (nodes f)). below q r \<and> deny f OpRemove r);
             rest = filter (\<lambda>x. \<not> below d (fst x) \<or> stuck (fst x)) (nodes f)
         in (if \<exists>x\<in>set rest. below d (fst x) then Some EOTHER else None, f\<lparr>nodes := rest\<rparr>)))"

text \<open>\<open>os.Rename\<close> moves a file, replacing one at the target, or a directory with everything below it.\<close>

definition os_Rename :: "string \<Rightarrow> string \<Rightarrow> fs \<Rightarrow> errno option \<times> fs" where
  "os_Rename src dst f =
     (if deny f OpRename src \<or> deny f OpRename dst then (Some EOTHER, f)
      else case fs_node f src of
        None \<Rightarrow> (Some ENOENT, f)
      | Some n \<Rightarrow>
          if dst = [] \<or> \<not> is_dir f (pathDir dst) then (Some ENOENT, f)
          else if is_dir f dst \<or> (n = DirNode \<and> fs_node f dst \<noteq> None) then (Some EOTHER, f)
          else if pathClean src = pathClean dst then (None, f)
          else
            (let s = pathClean src; t = pathClean dst
             in (None, f\<lparr>nodes := map (\<lambda>x. if below s (fst x) then (t @ drop (length s) (fst x), snd x) else x)
                    (nodes (fs_del f t))\<rparr>)))"

text \<open>Ownership is not part of the state: a change of it only succeeds or fails. So does opening a file.\<close>

definition os_Chown :: "string \<Rightarrow> fs \<Rightarrow> errno option" where
  "os_Chown p f = (if deny f OpChown p then Some EOTHER else if fs_node f p = None \<and> (p = [] \<or> \<not> base_dir p) then Some ENOENT else None)"

definition os_Open :: "string \<Rightarrow> fs \<Rightarrow> errno option" where
  "os_Open p f =
     (if deny f OpOpen p then Some EOTHER else if fs_node f p = None \<and> (p = [] \<or> \<not> base_dir p) then Some ENOENT else None)"

section \<open>Lookup after update\<close>

lemma fs_node_clean [simp]: "p \<noteq> [] \<Longrightarrow> fs_node f (pathClean p) = fs_node f p"
  by (simp add: fs_node_def pathClean_alt path_elems_ok)
     (simp add: pathClean_alt [symmetric])

lemma deny_fs_del [simp]: "deny (fs_del f p) = deny f"
  by (simp add: fs_del_def)

lemma deny_fs_put [simp]: "deny (fs_put f p n) = deny f"
  by (simp add: fs_put_def)

lemma map_of_filter_neq:
  "map_of (filter (\<lambda>x. fst x \<noteq> k) xs) = (map_of xs)(k := None)"
  by (induction xs) auto

lemma fs_node_del: "fs_node (fs_del f p) q = (if pathClean q = pathClean p then None else fs_node f q)"
  by (auto simp: fs_node_def fs_del_def map_of_filter_neq)

lemma fs_node_put:
  "fs_node (fs_put f p n) q = (if q \<noteq> [] \<and> pathClean q = pathClean p then Some n else fs_node f q)"
  by (auto simp: fs_node_def fs_put_def fs_del_def map_of_filter_neq)

lemmas fs_lookup = fs_node_del fs_node_put

lemma os_Remove_other:
  "os_Remove p f = (e, f') \<Longrightarrow> pathClean q \<noteq> pathClean p \<Longrightarrow> fs_node f' q = fs_node f q"
  by (auto simp: os_Remove_def fs_lookup split: if_splits option.splits node.splits)

lemma os_Remove_ok: "os_Remove p f = (None, f') \<Longrightarrow> fs_node f' p = None"
  by (auto simp: os_Remove_def fs_lookup split: if_splits option.splits node.splits)

lemma os_Remove_err: "os_Remove p f = (Some e, f') \<Longrightarrow> f' = f"
  by (auto simp: os_Remove_def split: if_splits option.splits node.splits)

lemma os_Remove_shrinks: "os_Remove p f = (e, f') \<Longrightarrow> fs_node f' q \<noteq> None \<Longrightarrow> fs_node f' q = fs_node f q"
  by (auto simp: os_Remove_def fs_lookup split: if_splits option.splits node.splits)

lemma os_Remove_file:
  "fs_node f p = Some (FileNode b t) \<Longrightarrow> \<not> deny f OpRemove p \<Longrightarrow> os_Remove p f = (None, fs_del f p)"
  by (simp add: os_Remove_def)

lemma deny_os_Remove: "os_Remove p f = (e, f') \<Longrightarrow> deny f' = deny f"
  by (auto simp: os_Remove_def split: if_splits option.splits node.splits)

lemma fs_put_new:
  "p \<noteq> [] \<Longrightarrow> fs_node f p = None \<Longrightarrow> fs_node f q \<noteq> None \<Longrightarrow> fs_node (fs_put f p n) q = fs_node f q"
  by (auto simp: fs_node_put) (auto simp: fs_node_def split: if_splits)

lemma mkdir_each_keeps:
  "mkdir_each ps f = (e, f') \<Longrightarrow> \<forall>p\<in>set ps. p \<noteq> [] \<Longrightarrow> fs_node f q \<noteq> None \<Longrightarrow>
   fs_node f' q = fs_node f q"
proof (induction ps f arbitrary: e f' rule: mkdir_each.induct)
  case (2 p ps f)
  show ?case
  proof (cases "fs_node f p")
    case None
    with "2.prems" have "fs_node (fs_put f p DirNode) q = fs_node f q"
      by (intro fs_put_new) auto
    with None 2 show ?thesis by (auto split: if_splits)
  next
    case (Some n)
    with 2 show ?thesis by (cases n) auto
  qed
qed simp

lemma deny_mkdir_each: "mkdir_each ps f = (e, f') \<Longrightarrow> deny f' = deny f"
  by (induction ps f arbitrary: e f' rule: mkdir_each.induct)
     (auto split: option.splits node.splits if_splits)

lemma mkdir_each_dirs:
  "mkdir_each ps f = (None, f') \<Longrightarrow> \<forall>q\<in>set ps. q \<noteq> [] \<Longrightarrow> q \<in> set ps \<Longrightarrow> fs_node f' q = Some DirNode"
proof (induction ps f arbitrary: f' rule: mkdir_each.induct)
  case (2 p ps f)
  have put: "fs_node (fs_put f p DirNode) p = Some DirNode"
    using "2.prems"(2) by (simp add: fs_lookup)
  show ?case
  proof (cases "q \<in> set ps")
    case True
    with 2 show ?thesis by (auto split: option.splits node.splits if_splits)
  next
    case False
    with "2.prems" have q: "q = p" by simp
    obtain g where g: "mkdir_each ps g = (None, f')" "fs_node g p = Some DirNode"
      using "2.prems"(1) put by (auto split: option.splits node.splits if_splits)
    have "\<forall>x\<in>set ps. x \<noteq> []" using "2.prems"(2) by simp
    with mkdir_each_keeps [OF g(1), of p] g(2) q show ?thesis by simp
  qed
qed simp

lemma fs_node_os_WriteFile:
  assumes "os_WriteFile now p b f = (None, f')"
  shows "fs_node f' p = Some (FileNode b now)"
  using assms by (auto simp: os_WriteFile_def fs_lookup split: if_splits)

lemma os_WriteFile_other:
  "os_WriteFile now p b f = (e, f') \<Longrightarrow> pathClean q \<noteq> pathClean p \<Longrightarrow> fs_node f' q = fs_node f q"
  by (auto simp: os_WriteFile_def fs_lookup split: if_splits)

lemma deny_os_WriteFile: "os_WriteFile now p b f = (e, f') \<Longrightarrow> deny f' = deny f"
  by (auto simp: os_WriteFile_def split: if_splits)

lemma deny_os_MkdirAll: "os_MkdirAll p f = (e, f') \<Longrightarrow> deny f' = deny f"
  by (auto simp: os_MkdirAll_def dest: deny_mkdir_each split: if_splits)

lemma elems_ok_take: "elems_ok r xs \<Longrightarrow> elems_ok r (take k xs)"
  unfolding elems_ok_def
  by (metis append_take_drop_id rev_append stack_ok_append)

lemma ancestors_not_Nil: "q \<in> set (ancestors p) \<Longrightarrow> q \<noteq> []"
  by (auto simp: ancestors_def elems_ok_take path_elems_ok)

lemma os_MkdirAll_keeps:
  "os_MkdirAll p f = (e, f') \<Longrightarrow> fs_node f q \<noteq> None \<Longrightarrow> fs_node f' q = fs_node f q"
  using ancestors_not_Nil by (auto simp: os_MkdirAll_def dest!: mkdir_each_keeps split: if_splits)

lemma last_ancestor:
  assumes "path_elems p \<noteq> []"
  shows "pathClean p \<in> set (ancestors p)"
proof -
  let ?n = "length (path_elems p)"
  have "take (Suc (?n - 1)) (path_elems p) = path_elems p" using assms by simp
  then have "pathClean p = render (rooted p) (take (Suc (?n - 1)) (path_elems p))"
    by (simp add: pathClean_alt)
  moreover have "?n - 1 < ?n" using assms by simp
  ultimately show ?thesis by (force simp: ancestors_def)
qed

lemma os_MkdirAll_is_dir:
  assumes "os_MkdirAll p f = (None, f')"
  shows "is_dir f' p"
proof -
  from assms have p: "p \<noteq> []" and m: "mkdir_each (ancestors p) f = (None, f')"
    by (auto simp: os_MkdirAll_def split: if_splits)
  show ?thesis
  proof (cases "path_elems p = []")
    case True
    then show ?thesis using p by (auto simp: is_dir_def base_dir_def pathClean_alt render_def)
  next
    case False
    then have "fs_node f' (pathClean p) = Some DirNode"
      using mkdir_each_dirs [OF m] ancestors_not_Nil last_ancestor by blast
    then show ?thesis using p by (simp add: is_dir_def)
  qed
qed

section \<open>Entries of a directory\<close>

lemma pathBase_pathJoin: "d \<noteq> [] \<Longrightarrow> plain_name n \<Longrightarrow> pathBase (pathJoin d n) = n"
  by (simp add: pathBase_def pathJoin_render path_elems_render elems_ok_snoc path_elems_ok)

lemma pathJoin_not_dir:
  assumes "d \<noteq> []" and "plain_name n"
  shows "pathJoin d n \<noteq> pathClean d" and "\<not> base_dir (pathJoin d n)"
proof -
  have ok: "elems_ok (rooted d) (path_elems d @ [n])" using assms(2) path_elems_ok elems_ok_snoc by blast
  show "pathJoin d n \<noteq> pathClean d"
    using assms ok by (simp add: pathJoin_render pathClean_alt render_inject path_elems_ok)
  have "path_elems (pathJoin d n) \<noteq> []" using assms ok by (simp add: pathJoin_render path_elems_render)
  moreover have "path_elems ''/'' = []" "path_elems ''.'' = []" by code_simp+
  ultimately show "\<not> base_dir (pathJoin d n)"
    using pathJoin_clean [OF assms(1)] unfolding base_dir_def by metis
qed

lemma fs_names_entry:
  assumes "d \<noteq> []" and "plain_name n" and "fs_node f (pathJoin d n) \<noteq> None"
  shows "n \<in> set (fs_names f d)"
proof -
  from assms obtain x where x: "x \<in> set (nodes f)" "fst x = pathJoin d n"
    by (auto simp: fs_node_def pathJoin_clean dest: map_of_SomeD split: if_splits)
  then have "pathDir (fst x) = pathClean d \<and> fst x \<noteq> pathClean d"
    using assms pathDir_pathJoin pathJoin_not_dir by simp
  moreover have "n = pathBase (fst x)" using x(2) pathBase_pathJoin assms by simp
  ultimately show ?thesis using x(1) by (auto simp: fs_names_def)
qed

end
