(* ===== verification/Go_Json.thy ===== *)
theory Go_Json
  imports Go_Prelude
begin

text \<open>
  The package \<open>encoding/json\<close>: JSON values, the text that \<open>Marshal\<close> and \<open>MarshalIndent\<close> write, and
  the syntax that \<open>Unmarshal\<close> accepts. Texts are taken to be valid UTF-8; the limit of 10000 nested
  values is not modelled. The main results are that the parser accepts exactly the token lists of
  values, and that what \<open>Marshal\<close> or \<open>MarshalIndent\<close> writes is read back as the same value.
\<close>

section \<open>Values\<close>

datatype json =
    JNull
  | JBool bool
  | JNum string
  | JStr string
  | JArr "json list"
  | JObj "(string \<times> json) list"

section \<open>Strings\<close>

text \<open>The UTF-8 encoding of a code point.\<close>

definition utf8 :: "int \<Rightarrow> string" where
  "utf8 n =
     (if n < 0x80 then [char_of n]
      else if n < 0x800 then [char_of (0xC0 + n div 64), char_of (0x80 + n mod 64)]
      else if n < 0x10000 then
        [char_of (0xE0 + n div 4096), char_of (0x80 + n div 64 mod 64), char_of (0x80 + n mod 64)]
      else
        [char_of (0xF0 + n div 262144), char_of (0x80 + n div 4096 mod 64),
         char_of (0x80 + n div 64 mod 64), char_of (0x80 + n mod 64)])"

definition hex_val :: "char \<Rightarrow> int option" where
  "hex_val c =
     (let n = of_char c :: int
      in if 48 \<le> n \<and> n \<le> 57 then Some (n - 48)
         else if 97 \<le> n \<and> n \<le> 102 then Some (n - 87)
         else if 65 \<le> n \<and> n \<le> 70 then Some (n - 55)
         else None)"

definition hex4 :: "char \<Rightarrow> char \<Rightarrow> char \<Rightarrow> char \<Rightarrow> int option" where
  "hex4 a b c d =
     (case (hex_val a, hex_val b, hex_val c, hex_val d) of
        (Some w, Some x, Some y, Some z) \<Rightarrow> Some (((w * 16 + x) * 16 + y) * 16 + z)
      | _ \<Rightarrow> None)"

text \<open>The body of a string literal, as plain bytes and \<open>\u\<close> escapes.\<close>

datatype str_unit = Raw char | Esc int

definition simple_escape :: "char \<Rightarrow> char option" where
  "simple_escape c =
     (if c = CHR 0x22 \<or> c = CHR 0x5C \<or> c = CHR ''/'' then Some c
      else if c = CHR ''b'' then Some (CHR 0x08)
      else if c = CHR ''f'' then Some (CHR 0x0C)
      else if c = CHR ''n'' then Some (CHR 0x0A)
      else if c = CHR ''r'' then Some (CHR 0x0D)
      else if c = CHR ''t'' then Some (CHR 0x09)
      else None)"

definition cons_unit :: "str_unit \<Rightarrow> (str_unit list \<times> string) option \<Rightarrow> (str_unit list \<times> string) option" where
  "cons_unit u r = map_option (\<lambda>(us, rest). (u # us, rest)) r"

fun scan_str :: "string \<Rightarrow> (str_unit list \<times> string) option" where
  "scan_str [] = None"
| "scan_str (c # s) =
     (if c = CHR 0x22 then Some ([], s)
      else if c = CHR 0x5C then
        (case s of
           [] \<Rightarrow> None
         | e # t \<Rightarrow>
             if e = CHR ''u'' then
               (case t of
                  h1 # h2 # h3 # h4 # r \<Rightarrow>
                    (case hex4 h1 h2 h3 h4 of None \<Rightarrow> None | Some n \<Rightarrow> cons_unit (Esc n) (scan_str r))
                | _ \<Rightarrow> None)
             else (case simple_escape e of None \<Rightarrow> None | Some x \<Rightarrow> cons_unit (Raw x) (scan_str t)))
      else if (of_char c :: int) < 32 then None
      else cons_unit (Raw c) (scan_str s))"

definition high_surrogate :: "int \<Rightarrow> bool" where
  "high_surrogate n \<longleftrightarrow> 0xD800 \<le> n \<and> n < 0xDC00"

definition low_surrogate :: "int \<Rightarrow> bool" where
  "low_surrogate n \<longleftrightarrow> 0xDC00 \<le> n \<and> n < 0xE000"

text \<open>A surrogate pair is one code point; a lone surrogate becomes U+FFFD.\<close>

fun unit_bytes :: "str_unit list \<Rightarrow> string" where
  "unit_bytes [] = []"
| "unit_bytes (Raw c # us) = c # unit_bytes us"
| "unit_bytes [Esc n] = utf8 (if high_surrogate n \<or> low_surrogate n then 0xFFFD else n)"
| "unit_bytes (Esc n # Raw c # us) =
     utf8 (if high_surrogate n \<or> low_surrogate n then 0xFFFD else n) @ c # unit_bytes us"
| "unit_bytes (Esc n # Esc m # us) =
     (if high_surrogate n \<and> low_surrogate m then
        utf8 (0x10000 + (n - 0xD800) * 1024 + (m - 0xDC00)) @ unit_bytes us
      else utf8 (if high_surrogate n \<or> low_surrogate n then 0xFFFD else n) @ unit_bytes (Esc m # us))"

section \<open>Tokens\<close>

datatype jtok = TLBrace | TRBrace | TLBrack | TRBrack | TColon | TComma
  | TStr string | TNum string | TTrue | TFalse | TNull

definition is_digit :: "char \<Rightarrow> bool" where
  "is_digit c \<longleftrightarrow> digit_val c \<noteq> None"

definition is_ws :: "char \<Rightarrow> bool" where
  "is_ws c \<longleftrightarrow> c = CHR 0x20 \<or> c = CHR 0x09 \<or> c = CHR 0x0A \<or> c = CHR 0x0D"

definition scan_frac :: "string \<Rightarrow> (string \<times> string) option" where
  "scan_frac s =
     (if s \<noteq> [] \<and> hd s = CHR ''.'' then
        (let ds = takeWhile is_digit (tl s)
         in if ds = [] then None else Some (CHR ''.'' # ds, dropWhile is_digit (tl s)))
      else Some ([], s))"

definition scan_exp :: "string \<Rightarrow> (string \<times> string) option" where
  "scan_exp s =
     (if s \<noteq> [] \<and> (hd s = CHR ''e'' \<or> hd s = CHR ''E'') then
        (let t = tl s;
             sg = (if t \<noteq> [] \<and> (hd t = CHR ''+'' \<or> hd t = CHR ''-'') then [hd t] else []);
             u = drop (length sg) t;
             ds = takeWhile is_digit u
         in if ds = [] then None else Some (hd s # sg @ ds, dropWhile is_digit u))
      else Some ([], s))"

text \<open>A number: sign, integer part without leading zeros, fraction, exponent.\<close>

definition scan_num :: "string \<Rightarrow> (string \<times> string) option" where
  "scan_num s =
     (let sg = (if s \<noteq> [] \<and> hd s = CHR ''-'' then ''-'' else []);
          s1 = drop (length sg) s;
          ds = takeWhile is_digit s1
      in if ds = [] then None
         else let ip = (if hd ds = CHR ''0'' then ''0'' else ds)
              in (case scan_frac (drop (length ip) s1) of
                    None \<Rightarrow> None
                  | Some (fp, s2) \<Rightarrow>
                      (case scan_exp s2 of
                         None \<Rightarrow> None
                       | Some (ep, s3) \<Rightarrow> Some (sg @ ip @ fp @ ep, s3))))"

definition lex_word :: "string \<Rightarrow> jtok \<Rightarrow> string \<Rightarrow> (jtok \<times> string) option" where
  "lex_word w t s = (if hasPrefix s w then Some (t, drop (length w) s) else None)"

text \<open>One token from a text that does not start with white space.\<close>

definition lex_tok :: "string \<Rightarrow> (jtok \<times> string) option" where
  "lex_tok s =
     (case s of
        [] \<Rightarrow> None
      | c # r \<Rightarrow>
          if c = CHR ''{'' then Some (TLBrace, r)
          else if c = CHR ''}'' then Some (TRBrace, r)
          else if c = CHR ''['' then Some (TLBrack, r)
          else if c = CHR '']'' then Some (TRBrack, r)
          else if c = CHR '':'' then Some (TColon, r)
          else if c = CHR '','' then Some (TComma, r)
          else if c = CHR 0x22 then map_option (\<lambda>(us, rest). (TStr (unit_bytes us), rest)) (scan_str r)
          else if c = CHR ''t'' then lex_word ''true'' TTrue s
          else if c = CHR ''f'' then lex_word ''false'' TFalse s
          else if c = CHR ''n'' then lex_word ''null'' TNull s
          else map_option (\<lambda>(l, rest). (TNum l, rest)) (scan_num s))"

text \<open>
  The tokens of a text; \<open>None\<close> for a text that has none. A token takes at least one byte, so the test on
  the length always succeeds; it makes the recursion terminate.
\<close>

function json_lex :: "string \<Rightarrow> jtok list option" where
  "json_lex s =
     (case dropWhile is_ws s of
        [] \<Rightarrow> Some []
      | c # r \<Rightarrow>
          (case lex_tok (c # r) of
             None \<Rightarrow> None
           | Some (t, rest) \<Rightarrow>
               if length rest < length s then map_option (Cons t) (json_lex rest) else None))"
  by pat_completeness auto

termination json_lex
  by (relation "measure length") auto

declare json_lex.simps [simp del]

section \<open>The grammar\<close>

text \<open>
  A value at the front of a token list, with the tokens after it. The first argument bounds the
  recursion; one more than the number of tokens is enough.
\<close>

fun jvalue :: "nat \<Rightarrow> jtok list \<Rightarrow> (json \<times> jtok list) option"
  and jelems :: "nat \<Rightarrow> jtok list \<Rightarrow> (json list \<times> jtok list) option"
  and jmembers :: "nat \<Rightarrow> jtok list \<Rightarrow> ((string \<times> json) list \<times> jtok list) option"
where
  "jvalue 0 ts = None"
| "jvalue (Suc n) ts =
     (case ts of
        TNull # r \<Rightarrow> Some (JNull, r)
      | TTrue # r \<Rightarrow> Some (JBool True, r)
      | TFalse # r \<Rightarrow> Some (JBool False, r)
      | TStr s # r \<Rightarrow> Some (JStr s, r)
      | TNum l # r \<Rightarrow> Some (JNum l, r)
      | TLBrack # TRBrack # r \<Rightarrow> Some (JArr [], r)
      | TLBrack # r \<Rightarrow> map_option (\<lambda>(vs, r'). (JArr vs, r')) (jelems n r)
      | TLBrace # TRBrace # r \<Rightarrow> Some (JObj [], r)
      | TLBrace # r \<Rightarrow> map_option (\<lambda>(ms, r'). (JObj ms, r')) (jmembers n r)
      | _ \<Rightarrow> None)"
| "jelems 0 ts = None"
| "jelems (Suc n) ts =
     (case jvalue n ts of
        Some (v, TComma # r) \<Rightarrow> map_option (\<lambda>(vs, r'). (v # vs, r')) (jelems n r)
      | Some (v, TRBrack # r) \<Rightarrow> Some ([v], r)
      | _ \<Rightarrow> None)"
| "jmembers 0 ts = None"
| "jmembers (Suc n) ts =
     (case ts of
        TStr k # TColon # r \<Rightarrow>
          (case jvalue n r of
             Some (v, TComma # r') \<Rightarrow> map_option (\<lambda>(ms, r''). ((k, v) # ms, r'')) (jmembers n r')
           | Some (v, TRBrace # r') \<Rightarrow> Some ([(k, v)], r')
           | _ \<Rightarrow> None)
      | _ \<Rightarrow> None)"

definition json_parse :: "string \<Rightarrow> json option" where
  "json_parse s =
     (case json_lex s of
        None \<Rightarrow> None
      | Some ts \<Rightarrow> (case jvalue (Suc (length ts)) ts of Some (v, []) \<Rightarrow> Some v | _ \<Rightarrow> None))"

section \<open>Printing\<close>

definition hex_char :: "int \<Rightarrow> char" where
  "hex_char d = (if d < 10 then char_of (48 + d) else char_of (87 + d))"

definition html_unsafe :: "char \<Rightarrow> bool" where
  "html_unsafe c \<longleftrightarrow> (of_char c :: int) < 32 \<or> c = CHR ''<'' \<or> c = CHR ''>'' \<or> c = CHR ''&''"

definition esc_char :: "char \<Rightarrow> string" where
  "esc_char c =
     (if c = CHR 0x22 \<or> c = CHR 0x5C then [CHR 0x5C, c]
      else if c = CHR 0x08 then [CHR 0x5C, CHR ''b'']
      else if c = CHR 0x0C then [CHR 0x5C, CHR ''f'']
      else if c = CHR 0x0A then [CHR 0x5C, CHR ''n'']
      else if c = CHR 0x0D then [CHR 0x5C, CHR ''r'']
      else if c = CHR 0x09 then [CHR 0x5C, CHR ''t'']
      else if html_unsafe c then
        [CHR 0x5C, CHR ''u'', CHR ''0'', CHR ''0'', hex_char (of_char c div 16), hex_char (of_char c mod 16)]
      else [c])"

text \<open>The line separators U+2028 and U+2029 are escaped as well.\<close>

fun quote_body :: "string \<Rightarrow> string" where
  "quote_body [] = []"
| "quote_body (a # s) =
     (case s of
        b # c # t \<Rightarrow>
          if a = CHR 0xE2 \<and> b = CHR 0x80 \<and> c = CHR 0xA8 then CHR 0x5C # ''u2028'' @ quote_body t
          else if a = CHR 0xE2 \<and> b = CHR 0x80 \<and> c = CHR 0xA9 then CHR 0x5C # ''u2029'' @ quote_body t
          else esc_char a @ quote_body s
      | _ \<Rightarrow> esc_char a @ quote_body s)"

definition quote :: "string \<Rightarrow> string" where
  "quote s = CHR 0x22 # quote_body s @ [CHR 0x22]"

text \<open>
  The text of a value. \<open>nl d\<close> is what goes before an element at depth \<open>d\<close> and \<open>co\<close> what goes between
  a key and its value.
\<close>

fun jprint :: "(nat \<Rightarrow> string) \<Rightarrow> string \<Rightarrow> nat \<Rightarrow> json \<Rightarrow> string" where
  "jprint nl co d JNull = ''null''"
| "jprint nl co d (JBool b) = (if b then ''true'' else ''false'')"
| "jprint nl co d (JNum l) = l"
| "jprint nl co d (JStr s) = quote s"
| "jprint nl co d (JArr vs) =
     (if vs = [] then ''[]''
      else CHR ''['' # nl (Suc d) @ joinWith (CHR '','' # nl (Suc d)) (map (jprint nl co (Suc d)) vs) @ nl d @ '']'')"
| "jprint nl co d (JObj ms) =
     (if ms = [] then ''{}''
      else CHR ''{'' # nl (Suc d) @
        joinWith (CHR '','' # nl (Suc d)) (map (\<lambda>(k, v). quote k @ co @ jprint nl co (Suc d) v) ms) @ nl d @ ''}'')"

definition Marshal :: "json \<Rightarrow> string" where
  "Marshal v = jprint (\<lambda>_. []) '':'' 0 v"

text \<open>\<open>json.MarshalIndent(v, "", "    ")\<close>.\<close>

definition MarshalIndent :: "json \<Rightarrow> string" where
  "MarshalIndent v = jprint (\<lambda>d. CHR 0x0A # replicate (4 * d) (CHR '' '')) '': '' 0 v"

section \<open>Strings are read back\<close>

lemma hex_val_hex_char [simp]: "0 \<le> d \<Longrightarrow> d < 16 \<Longrightarrow> hex_val (hex_char d) = Some d"
  by (cases "d < 10") (simp_all add: hex_val_def hex_char_def Let_def)

lemma utf8_ascii: "n < 0x80 \<Longrightarrow> utf8 n = [char_of n]"
  by (simp add: utf8_def)

lemma utf8_separators: "utf8 0x2028 = [CHR 0xE2, CHR 0x80, CHR 0xA8]" "utf8 0x2029 = [CHR 0xE2, CHR 0x80, CHR 0xA9]"
  by (simp_all add: utf8_def char_of_eq_iff)

definition no_surrogate :: "str_unit list \<Rightarrow> bool" where
  "no_surrogate us \<longleftrightarrow> (\<forall>u\<in>set us. case u of Raw _ \<Rightarrow> True | Esc n \<Rightarrow> n < 0xD800)"

lemma no_surrogate_simps [simp]:
  "no_surrogate []" "no_surrogate (Raw c # us) = no_surrogate us"
  "no_surrogate (Esc n # us) = (n < 0xD800 \<and> no_surrogate us)"
  by (auto simp: no_surrogate_def)

lemma unit_bytes_Esc: "no_surrogate (Esc n # us) \<Longrightarrow> unit_bytes (Esc n # us) = utf8 n @ unit_bytes us"
  by (cases "Esc n # us" rule: unit_bytes.cases) (auto simp: high_surrogate_def low_surrogate_def)

text \<open>The unit that an escaped byte is read as.\<close>

definition esc_unit :: "char \<Rightarrow> str_unit" where
  "esc_unit c = (if length (esc_char c) = 6 then Esc (of_char c) else Raw c)"

lemma html_unsafe_ascii: "html_unsafe c \<Longrightarrow> (of_char c :: int) < 0x80"
  by (auto simp: html_unsafe_def)

lemma scan_str_esc_char: "scan_str (esc_char c @ t) = cons_unit (esc_unit c) (scan_str t)"
proof (cases "length (esc_char c) = 6")
  case True
  then have h: "html_unsafe c" and e: "esc_char c = [CHR 0x5C, CHR ''u'', CHR ''0'', CHR ''0'',
      hex_char (of_char c div 16), hex_char (of_char c mod 16)]"
    by (auto simp: esc_char_def split: if_splits)
  have n: "(of_char c :: int) < 0x80" using h by (rule html_unsafe_ascii)
  have "hex_val (CHR ''0'') = Some 0" by (simp add: hex_val_def)
  moreover have "0 \<le> (of_char c :: int)" by (metis of_nat_0_le_iff of_nat_of_char)
  then have "0 \<le> (of_char c :: int) div 16" "(of_char c :: int) div 16 < 16" using n by simp_all
  ultimately have "hex4 (CHR ''0'') (CHR ''0'') (hex_char (of_char c div 16)) (hex_char (of_char c mod 16)) = Some (of_char c)"
    using n by (simp add: hex4_def)
  then show ?thesis by (simp add: e esc_unit_def)
next
  case False
  then show ?thesis
    by (auto simp: esc_unit_def esc_char_def simple_escape_def html_unsafe_def split: if_splits)
qed

lemma esc_unit_cons:
  assumes "no_surrogate us"
  shows "no_surrogate (esc_unit c # us)" and "unit_bytes (esc_unit c # us) = c # unit_bytes us"
proof -
  have n: "(of_char c :: int) < 0x80" if "length (esc_char c) = 6"
  proof (rule html_unsafe_ascii)
    show "html_unsafe c" using that by (auto simp: esc_char_def split: if_splits)
  qed
  show *: "no_surrogate (esc_unit c # us)" using assms n by (auto simp: esc_unit_def)
  show "unit_bytes (esc_unit c # us) = c # unit_bytes us"
  proof (cases "length (esc_char c) = 6")
    case True
    then show ?thesis using * n unit_bytes_Esc [where n = "of_char c" and us = us] by (simp add: esc_unit_def utf8_ascii)
  qed (simp add: esc_unit_def)
qed

lemma scan_str_u2028:
  "scan_str (CHR 0x5C # ''u2028'' @ t) = cons_unit (Esc 0x2028) (scan_str t)"
  "scan_str (CHR 0x5C # ''u2029'' @ t) = cons_unit (Esc 0x2029) (scan_str t)"
proof -
  have "hex4 (CHR ''2'') (CHR ''0'') (CHR ''2'') (CHR ''8'') = Some 0x2028"
    "hex4 (CHR ''2'') (CHR ''0'') (CHR ''2'') (CHR ''9'') = Some 0x2029"
    by (simp_all add: hex4_def hex_val_def)
  then show "scan_str (CHR 0x5C # ''u2028'' @ t) = cons_unit (Esc 0x2028) (scan_str t)"
    "scan_str (CHR 0x5C # ''u2029'' @ t) = cons_unit (Esc 0x2029) (scan_str t)"
    by simp_all
qed

lemma cons_unit_Some [simp]: "cons_unit u (Some (us, r)) = Some (u # us, r)"
  by (simp add: cons_unit_def)

lemma quote_body_step:
  obtains "quote_body (a # s) = esc_char a @ quote_body s"
  | t where "a # s = CHR 0xE2 # CHR 0x80 # CHR 0xA8 # t" "quote_body (a # s) = CHR 0x5C # ''u2028'' @ quote_body t"
  | t where "a # s = CHR 0xE2 # CHR 0x80 # CHR 0xA9 # t" "quote_body (a # s) = CHR 0x5C # ''u2029'' @ quote_body t"
proof (cases "\<exists>t. a # s = CHR 0xE2 # CHR 0x80 # CHR 0xA8 # t \<or> a # s = CHR 0xE2 # CHR 0x80 # CHR 0xA9 # t")
  case True
  then show ?thesis using that by auto
next
  case False
  then have "quote_body (a # s) = esc_char a @ quote_body s"
    by (cases "(a # s)" rule: quote_body.cases) (auto split: list.split)
  then show ?thesis by (rule that)
qed

lemma scan_str_quote:
  "\<exists>us. scan_str (quote_body s @ CHR 0x22 # r) = Some (us, r) \<and> unit_bytes us = s \<and> no_surrogate us"
proof (induction "length s" arbitrary: s rule: less_induct)
  case less
  show ?case
  proof (cases s)
    case Nil
    then show ?thesis by (intro exI [of _ "[]"]) simp
  next
    case (Cons a t)
    have step: ?thesis
      if u: "quote_body s = p @ quote_body t'" "length t' < length s"
        and scan: "\<And>x. scan_str (p @ x) = cons_unit v (scan_str x)"
        and bytes: "\<And>us. no_surrogate us \<Longrightarrow> unit_bytes us = t' \<Longrightarrow> no_surrogate (v # us) \<and> unit_bytes (v # us) = s"
      for p t' v
    proof -
      obtain us where us: "scan_str (quote_body t' @ CHR 0x22 # r) = Some (us, r)" "unit_bytes us = t'" "no_surrogate us"
        using less u(2) by blast
      have "scan_str (quote_body s @ CHR 0x22 # r) = Some (v # us, r)" by (simp add: u(1) scan us(1))
      with bytes us show ?thesis by blast
    qed
    show ?thesis
    proof (rule quote_body_step [of a t])
      assume "quote_body (a # t) = esc_char a @ quote_body t"
      then show ?thesis using Cons
        by (intro step [of "esc_char a" t "esc_unit a"]) (simp_all add: scan_str_esc_char esc_unit_cons)
    next
      fix x assume x: "a # t = CHR 0xE2 # CHR 0x80 # CHR 0xA8 # x" "quote_body (a # t) = CHR 0x5C # ''u2028'' @ quote_body x"
      have "no_surrogate (Esc 0x2028 # us) \<and> unit_bytes (Esc 0x2028 # us) = s"
        if "no_surrogate us" "unit_bytes us = x" for us
        using that x(1) Cons unit_bytes_Esc [where n = "0x2028" and us = us] by (simp add: utf8_separators)
      then show ?thesis using x Cons scan_str_u2028(1)
        by (intro step [of "CHR 0x5C # ''u2028''" x "Esc 0x2028"]) simp_all
    next
      fix x assume x: "a # t = CHR 0xE2 # CHR 0x80 # CHR 0xA9 # x" "quote_body (a # t) = CHR 0x5C # ''u2029'' @ quote_body x"
      have "no_surrogate (Esc 0x2029 # us) \<and> unit_bytes (Esc 0x2029 # us) = s"
        if "no_surrogate us" "unit_bytes us = x" for us
        using that x(1) Cons unit_bytes_Esc [where n = "0x2029" and us = us] by (simp add: utf8_separators)
      then show ?thesis using x Cons scan_str_u2028(2)
        by (intro step [of "CHR 0x5C # ''u2029''" x "Esc 0x2029"]) simp_all
    qed
  qed
qed

lemma lex_tok_quote: "lex_tok (quote s @ r) = Some (TStr s, r)"
  using scan_str_quote [of s r] by (auto simp: quote_def lex_tok_def)

section \<open>Numbers are read back\<close>

lemma is_digit_digit_char [simp]: "d < 10 \<Longrightarrow> is_digit (digit_char d)"
  by (simp add: is_digit_def)

lemma is_digit_show_nat: "c \<in> set (show_nat n) \<Longrightarrow> is_digit c"
  using set_show_nat [of n] by auto

text \<open>What may follow a number without becoming part of it.\<close>

definition stop :: "string \<Rightarrow> bool" where
  "stop s \<longleftrightarrow> s = [] \<or> \<not> (is_digit (hd s) \<or> hd s \<in> {CHR ''.'', CHR ''e'', CHR ''E''})"

lemma takeWhile_show_nat: "stop s \<Longrightarrow> takeWhile is_digit (show_nat n @ s) = show_nat n"
  using is_digit_show_nat [of _ n]
  by (cases s) (auto simp: stop_def takeWhile_append)

lemma digit_char_0: "digit_char 0 = CHR ''0''"
  by (simp add: digit_char_def char_of_eq_iff)

lemma show_nat_0: "show_nat 0 = ''0''"
  by (subst show_nat.simps) (simp add: digit_char_0)

lemma digit_char_inject: "d < 10 \<Longrightarrow> e < 10 \<Longrightarrow> digit_char d = digit_char e \<Longrightarrow> d = e"
  by (metis add_left_cancel of_char_digit_char)

lemma hd_show_nat_0: "hd (show_nat n) = CHR ''0'' \<Longrightarrow> n = 0"
proof (induction n rule: show_nat.induct)
  case (1 n)
  note z = digit_char_0 [symmetric]
  show ?case
  proof (cases "n < 10")
    case True
    then have "digit_char n = digit_char 0" using "1.prems" z by (subst (asm) show_nat.simps) simp
    then show ?thesis using True digit_char_inject [of n 0] by simp
  next
    case False
    then have "hd (show_nat (n div 10)) = CHR ''0''"
      using "1.prems" by (subst (asm) show_nat.simps) simp
    then have "n div 10 = 0" using "1.IH" False by simp
    then show ?thesis using False by simp
  qed
qed

lemma scan_frac_stop: "stop s \<Longrightarrow> scan_frac s = Some ([], s)"
  by (auto simp: scan_frac_def stop_def)

lemma scan_exp_stop: "stop s \<Longrightarrow> scan_exp s = Some ([], s)"
  by (auto simp: scan_exp_def stop_def)

lemma scan_num_digits:
  assumes "stop s" and "sg = [] \<or> sg = ''-''"
  shows "scan_num (sg @ show_nat n @ s) = Some (sg @ show_nat n, s)"
proof -
  have sg: "(if sg @ show_nat n @ s \<noteq> [] \<and> hd (sg @ show_nat n @ s) = CHR ''-'' then ''-'' else []) = sg"
    using assms(2) hd_show_nat(1) [of n] by auto
  have hd: "hd (show_nat n) = CHR ''0'' \<longleftrightarrow> n = 0" using hd_show_nat_0 [of n] show_nat_0 by auto
  note tw = takeWhile_show_nat [OF assms(1)]
  show ?thesis
  proof (cases "n = 0")
    case True
    then show ?thesis
      using tw [of 0] unfolding scan_num_def Let_def sg
      by (simp add: show_nat_0 scan_frac_stop [OF assms(1)] scan_exp_stop [OF assms(1)])
  next
    case False
    then show ?thesis
      unfolding scan_num_def Let_def sg
      by (simp add: tw hd scan_frac_stop [OF assms(1)] scan_exp_stop [OF assms(1)])
  qed
qed

lemma scan_num_show_int: "stop s \<Longrightarrow> scan_num (show_int n @ s) = Some (show_int n, s)"
  using scan_num_digits [of s "''-''"] scan_num_digits [of s "[]"] by (simp add: show_int_def)

lemma lex_tok_show_int:
  assumes "stop s"
  shows "lex_tok (show_int n @ s) = Some (TNum (show_int n), s)"
proof -
  obtain c t where ct: "show_int n = c # t" "c = CHR ''-'' \<or> is_digit c"
    using is_digit_show_nat hd_in_set [OF show_nat_not_Nil] show_nat_not_Nil unfolding show_int_def
    by (metis list.collapse)
  have "c \<notin> set (CHR 0x22 # ''{}[]:,tfn'')"
    using ct(2) by (auto simp: is_digit_def digit_val_def)
  then show ?thesis using scan_num_show_int [OF assms, of n] by (simp add: lex_tok_def ct(1))
qed

section \<open>Texts are read back\<close>

lemma scan_str_length: "scan_str s = Some (us, r) \<Longrightarrow> length r < length s"
proof (induction s arbitrary: us rule: scan_str.induct)
  case (2 c s)
  then show ?case
    by (auto simp: cons_unit_def split: if_splits list.splits option.splits) fastforce+
qed simp

lemma scan_frac_length: "scan_frac s = Some (l, r) \<Longrightarrow> length r \<le> length s"
  by (auto simp: scan_frac_def Let_def split: if_splits intro: le_trans [OF length_dropWhile_le])

lemma scan_exp_length: "scan_exp s = Some (l, r) \<Longrightarrow> length r \<le> length s"
  by (auto simp: scan_exp_def Let_def split: if_splits intro!: le_trans [OF length_dropWhile_le])

lemma scan_num_length: "scan_num s = Some (l, r) \<Longrightarrow> length r < length s"
proof -
  assume a: "scan_num s = Some (l, r)"
  define sg where "sg = (if s \<noteq> [] \<and> hd s = CHR ''-'' then ''-'' else [])"
  define ds where "ds = takeWhile is_digit (drop (length sg) s)"
  define ip where "ip = (if hd ds = CHR ''0'' then ''0'' else ds)"
  from a obtain fp s2 ep where ne: "ds \<noteq> []" and f: "scan_frac (drop (length ip) (drop (length sg) s)) = Some (fp, s2)"
    and e: "scan_exp s2 = Some (ep, r)"
    unfolding scan_num_def Let_def sg_def [symmetric] ds_def [symmetric] ip_def [symmetric]
    by (auto split: if_splits option.splits)
  have "ip \<noteq> []" using ne by (auto simp: ip_def)
  moreover have "s \<noteq> []" using ne by (auto simp: ds_def)
  ultimately have "length (drop (length ip) (drop (length sg) s)) < length s" by simp
  then show ?thesis using scan_frac_length [OF f] scan_exp_length [OF e] by linarith
qed

lemma lex_tok_length: "lex_tok s = Some (t, r) \<Longrightarrow> length r < length s"
  by (auto simp: lex_tok_def lex_word_def dest: scan_str_length scan_num_length split: list.splits if_splits)

text \<open>The test on the length in \<open>json_lex\<close> is redundant.\<close>

lemma lex_unfold:
  "json_lex s =
     (case dropWhile is_ws s of
        [] \<Rightarrow> Some []
      | c # r \<Rightarrow>
          (case lex_tok (c # r) of
             None \<Rightarrow> None
           | Some (t, rest) \<Rightarrow> map_option (Cons t) (json_lex rest)))"
proof -
  have "length rest < length s" if "dropWhile is_ws s = c # r" "lex_tok (c # r) = Some (t, rest)" for c r t rest
    using lex_tok_length [OF that(2)] length_dropWhile_le [of is_ws s] that(1) by simp
  then have "(case x of None \<Rightarrow> None
       | Some (t, rest) \<Rightarrow> if length rest < length s then map_option (Cons t) (json_lex rest) else None) =
     (case x of None \<Rightarrow> None | Some (t, rest) \<Rightarrow> map_option (Cons t) (json_lex rest))"
    if "dropWhile is_ws s = c # r" "lex_tok (c # r) = x" for c r x
    using that by (auto split: option.split)
  note same = this
  show ?thesis
  proof (cases "dropWhile is_ws s")
    case Nil
    show ?thesis by (subst json_lex.simps) (simp only: Nil list.case)
  next
    case (Cons c r)
    show ?thesis by (subst json_lex.simps) (simp only: Cons list.case same [OF Cons refl])
  qed
qed

lemma lex_ws: "list_all is_ws w \<Longrightarrow> json_lex (w @ s) = json_lex s"
  by (subst (1 2) lex_unfold) (simp add: dropWhile_append2 list_all_iff)

lemma lex_token:
  assumes "lex_tok (x @ s) = Some (t, s)" and "x \<noteq> []" and "\<not> is_ws (hd x)"
  shows "json_lex (x @ s) = map_option (Cons t) (json_lex s)"
proof -
  obtain c r where x: "x = c # r" using assms(2) by (cases x) auto
  with assms(3) have "dropWhile is_ws (x @ s) = c # (r @ s)" by simp
  then show ?thesis using assms(1) x by (subst lex_unfold) simp
qed

text \<open>The tokens of a value.\<close>

fun toks :: "json \<Rightarrow> jtok list" where
  "toks JNull = [TNull]"
| "toks (JBool b) = [if b then TTrue else TFalse]"
| "toks (JNum l) = [TNum l]"
| "toks (JStr s) = [TStr s]"
| "toks (JArr vs) = TLBrack # joinWith [TComma] (map toks vs) @ [TRBrack]"
| "toks (JObj ms) = TLBrace # joinWith [TComma] (map (\<lambda>(k, v). TStr k # TColon # toks v) ms) @ [TRBrace]"

text \<open>The values that a Go program here marshals: their numbers are integers.\<close>

fun json_ok :: "json \<Rightarrow> bool" where
  "json_ok (JNum l) = (\<exists>n. l = show_int n)"
| "json_ok (JArr vs) = (\<forall>v\<in>set vs. json_ok v)"
| "json_ok (JObj ms) = (\<forall>m\<in>set ms. json_ok (snd m))"
| "json_ok _ = True"

definition lexes :: "string \<Rightarrow> jtok list \<Rightarrow> bool" where
  "lexes x ts \<longleftrightarrow> (\<forall>s. stop s \<longrightarrow> json_lex (x @ s) = map_option (append ts) (json_lex s))"

lemma lexesD: "lexes x ts \<Longrightarrow> stop s \<Longrightarrow> json_lex (x @ s) = map_option (append ts) (json_lex s)"
  by (simp add: lexes_def)

lemma lex_symbol:
  "json_lex (CHR ''{'' # s) = map_option (Cons TLBrace) (json_lex s)"
  "json_lex (CHR ''}'' # s) = map_option (Cons TRBrace) (json_lex s)"
  "json_lex (CHR ''['' # s) = map_option (Cons TLBrack) (json_lex s)"
  "json_lex (CHR '']'' # s) = map_option (Cons TRBrack) (json_lex s)"
  "json_lex (CHR '':'' # s) = map_option (Cons TColon) (json_lex s)"
  "json_lex (CHR '','' # s) = map_option (Cons TComma) (json_lex s)"
  by (subst lex_unfold, simp add: is_ws_def lex_tok_def)+

lemma stop_symbol [simp]:
  "stop []" "stop (CHR ''}'' # s)" "stop (CHR '']'' # s)" "stop (CHR '','' # s)"
  by (simp_all add: stop_def is_digit_def digit_val_def)

lemma stop_ws: "list_all is_ws w \<Longrightarrow> w = [] \<longrightarrow> stop s \<Longrightarrow> stop (w @ s)"
  by (cases w) (auto simp: stop_def is_ws_def is_digit_def digit_val_def)

lemma lexes_quote: "lexes (quote k) [TStr k]"
proof -
  have "json_lex (quote k @ s) = map_option (Cons (TStr k)) (json_lex s)" for s
    by (rule lex_token [OF lex_tok_quote]) (simp_all add: quote_def is_ws_def)
  moreover have "Cons (TStr k) = append [TStr k]" by (rule ext) simp
  ultimately show ?thesis by (simp add: lexes_def)
qed

lemma lexes_word:
  "lexes ''null'' [TNull]" "lexes ''true'' [TTrue]" "lexes ''false'' [TFalse]"
proof -
  have cons: "map_option (append [t]) x = map_option (Cons t) x" for t :: jtok and x by (cases x) auto
  show "lexes ''null'' [TNull]" "lexes ''true'' [TTrue]" "lexes ''false'' [TFalse]"
    unfolding lexes_def cons
    by (intro allI impI lex_token; simp add: lex_tok_def lex_word_def is_ws_def)+
qed

lemma lexes_num: "lexes (show_int n) [TNum (show_int n)]"
proof -
  have cons: "map_option (append [t]) x = map_option (Cons t) x" for t :: jtok and x by (cases x) auto
  have "show_int n \<noteq> []" by (simp add: show_int_def)
  moreover have "\<not> is_ws (hd (show_int n))"
    using is_digit_show_nat [OF hd_in_set [OF show_nat_not_Nil], of "nat n"]
    by (auto simp: show_int_def is_ws_def is_digit_def digit_val_def)
  ultimately show ?thesis unfolding lexes_def cons using lex_tok_show_int lex_token by blast
qed

lemma map_option_append_Nil: "map_option (append []) x = x"
  by (cases x) auto

lemma map_option_append: "map_option (append ts) (map_option (append us) x) = map_option (append (ts @ us)) x"
  by (cases x) auto

lemma map_option_append_Cons: "map_option (append ts) (map_option (Cons t) x) = map_option (append (ts @ [t])) x"
  by (cases x) auto

lemma map_option_Cons_append: "map_option (Cons t) (map_option (append ts) x) = map_option (append (t # ts)) x"
  by (cases x) auto

text \<open>Elements between commas, for arrays and for objects.\<close>

lemma lexes_list:
  assumes "\<forall>v\<in>set vs. lexes (f v) (g v)" and "list_all is_ws w"
  shows "lexes (joinWith (CHR '','' # w) (map f vs)) (joinWith [TComma] (map g vs))"
  using assms(1)
proof (induction vs)
  case Nil
  then show ?case by (simp add: lexes_def map_option_append_Nil)
next
  case (Cons v vs)
  show ?case
  proof (cases "vs = []")
    case True
    then show ?thesis using Cons.prems by simp
  next
    case False
    have IH: "lexes (joinWith (CHR '','' # w) (map f vs)) (joinWith [TComma] (map g vs))" using Cons by simp
    have v: "lexes (f v) (g v)" using Cons.prems by simp
    show ?thesis
      unfolding lexes_def
    proof (intro allI impI)
      fix s assume s: "stop s"
      have "json_lex (joinWith (CHR '','' # w) (map f (v # vs)) @ s) =
          json_lex (f v @ CHR '','' # w @ joinWith (CHR '','' # w) (map f vs) @ s)"
        using False by (simp add: joinWith_Cons)
      also have "\<dots> = map_option (append (g v)) (map_option (Cons TComma)
          (map_option (append (joinWith [TComma] (map g vs))) (json_lex s)))"
        by (simp only: lexesD [OF v stop_symbol(4)] lex_symbol lex_ws [OF assms(2)] lexesD [OF IH s])
      also have "\<dots> = map_option (append (joinWith [TComma] (map g (v # vs)))) (json_lex s)"
        using False by (cases "json_lex s") (simp_all add: joinWith_Cons)
      finally show "json_lex (joinWith (CHR '','' # w) (map f (v # vs)) @ s) = \<dots>" .
    qed
  qed
qed

lemma lexes_brackets:
  assumes body: "lexes x ts" and "list_all is_ws w1" and w2: "list_all is_ws w2"
    and open_: "\<And>s. json_lex (a # s) = map_option (Cons ta) (json_lex s)"
    and close_: "\<And>s. json_lex (b # s) = map_option (Cons tb) (json_lex s)" "\<And>s. stop (b # s)"
  shows "lexes (a # w1 @ x @ w2 @ [b]) (ta # ts @ [tb])"
  unfolding lexes_def
proof (intro allI impI)
  fix s assume "stop s"
  have stop: "stop (w2 @ b # s)" using stop_ws [OF w2] close_(2) by blast
  have "json_lex ((a # w1 @ x @ w2 @ [b]) @ s) = json_lex (a # (w1 @ (x @ (w2 @ b # s))))" by simp
  also have "\<dots> = map_option (Cons ta) (map_option (append ts) (map_option (Cons tb) (json_lex s)))"
    by (simp only: open_ lex_ws [OF assms(2)] lexesD [OF body stop] lex_ws [OF w2] close_(1))
  also have "\<dots> = map_option (append (ta # ts @ [tb])) (json_lex s)"
    by (cases "json_lex s") simp_all
  finally show "json_lex ((a # w1 @ x @ w2 @ [b]) @ s) = \<dots>" .
qed

lemma lexes_member:
  assumes v: "lexes x ts" and w: "list_all is_ws w"
  shows "lexes (quote k @ (CHR '':'' # w) @ x) (TStr k # TColon # ts)"
  unfolding lexes_def
proof (intro allI impI)
  fix s assume s: "stop s"
  have colon: "stop (CHR '':'' # t)" for t by (simp add: stop_def is_digit_def digit_val_def)
  have "json_lex ((quote k @ (CHR '':'' # w) @ x) @ s) = json_lex (quote k @ (CHR '':'' # (w @ (x @ s))))" by simp
  also have "\<dots> = map_option (append [TStr k]) (map_option (Cons TColon) (map_option (append ts) (json_lex s)))"
    by (simp only: lexesD [OF lexes_quote colon] lex_symbol lex_ws [OF w] lexesD [OF v s])
  also have "\<dots> = map_option (append (TStr k # TColon # ts)) (json_lex s)"
    by (cases "json_lex s") simp_all
  finally show "json_lex ((quote k @ (CHR '':'' # w) @ x) @ s) = \<dots>" .
qed

lemma lexes_jprint:
  assumes nl: "\<And>d. list_all is_ws (nl d)" and w: "list_all is_ws w"
  shows "json_ok v \<Longrightarrow> lexes (jprint nl (CHR '':'' # w) d v) (toks v)"
proof (induction v arbitrary: d)
  case (JArr vs)
  have "lexes (joinWith (CHR '','' # nl (Suc d)) (map (jprint nl (CHR '':'' # w) (Suc d)) vs))
      (joinWith [TComma] (map toks vs))"
    using JArr by (intro lexes_list nl) auto
  from lexes_brackets [OF this nl nl lex_symbol(3,4) stop_symbol(3)] show ?case
    using lexes_brackets [of "[]" "[]" "[]" "[]", OF _ _ _ lex_symbol(3,4) stop_symbol(3)]
    by (simp add: lexes_def map_option_append_Nil)
next
  case (JObj ms)
  let ?f = "\<lambda>(k, v). quote k @ (CHR '':'' # w) @ jprint nl (CHR '':'' # w) (Suc d) v"
  have "\<forall>m\<in>set ms. lexes (?f m) ((\<lambda>(k, v). TStr k # TColon # toks v) m)"
    using JObj by (auto intro!: lexes_member [OF _ w, simplified])
  then have "lexes (joinWith (CHR '','' # nl (Suc d)) (map ?f ms))
      (joinWith [TComma] (map (\<lambda>(k, v). TStr k # TColon # toks v) ms))" by (rule lexes_list [OF _ nl])
  from lexes_brackets [OF this nl nl lex_symbol(1,2) stop_symbol(2)] show ?case
    using lexes_brackets [of "[]" "[]" "[]" "[]", OF _ _ _ lex_symbol(1,2) stop_symbol(2)]
    by (simp add: lexes_def map_option_append_Nil)
qed (auto simp: lexes_word lexes_num lexes_quote)

section \<open>Token lists are read back\<close>

lemma toks_hd: "\<exists>t ts. toks v = t # ts \<and> t \<noteq> TRBrack \<and> t \<noteq> TRBrace"
  by (cases v) auto

lemma jelems_toks:
  assumes "\<And>v n r. v \<in> set vs \<Longrightarrow> length (toks v) \<le> n \<Longrightarrow> jvalue n (toks v @ r) = Some (v, r)"
    and "vs \<noteq> []" and "length (joinWith [TComma] (map toks vs)) < n"
  shows "jelems n (joinWith [TComma] (map toks vs) @ TRBrack # r) = Some (vs, r)"
  using assms
proof (induction vs arbitrary: n)
  case (Cons v vs)
  obtain m where n: "n = Suc m" using Cons.prems(3) by (cases n) auto
  show ?case
  proof (cases "vs = []")
    case True
    then show ?thesis using Cons.prems(1) [of v m "TRBrack # r"] Cons.prems(3) n by simp
  next
    case False
    then have "length (toks v) \<le> m" "length (joinWith [TComma] (map toks vs)) < m"
      using Cons.prems(3) n by (auto simp: joinWith_Cons)
    then show ?thesis
      using Cons.prems(1) [of v m] Cons.IH [of m] Cons.prems(1) False n by (simp add: joinWith_Cons)
  qed
qed simp

lemma jmembers_toks:
  assumes "\<And>k v n r. (k, v) \<in> set ms \<Longrightarrow> length (toks v) \<le> n \<Longrightarrow> jvalue n (toks v @ r) = Some (v, r)"
    and "ms \<noteq> []" and "length (joinWith [TComma] (map (\<lambda>(k, v). TStr k # TColon # toks v) ms)) < n"
  shows "jmembers n (joinWith [TComma] (map (\<lambda>(k, v). TStr k # TColon # toks v) ms) @ TRBrace # r) = Some (ms, r)"
  using assms
proof (induction ms arbitrary: n)
  case (Cons a ms)
  obtain k v where a: "a = (k, v)" by fastforce
  obtain m where n: "n = Suc m" using Cons.prems(3) by (cases n) auto
  show ?case
  proof (cases "ms = []")
    case True
    then show ?thesis using Cons.prems(1) [of k v m "TRBrace # r"] Cons.prems(3) n a by simp
  next
    case False
    then have "length (toks v) \<le> m" "length (joinWith [TComma] (map (\<lambda>(k, v). TStr k # TColon # toks v) ms)) < m"
      using Cons.prems(3) n a by (auto simp: joinWith_Cons)
    moreover from this(2) have "jmembers m (joinWith [TComma] (map (\<lambda>(k, v). TStr k # TColon # toks v) ms) @ TRBrace # r) =
        Some (ms, r)" using Cons.prems(1) False by (intro Cons.IH) auto
    ultimately show ?thesis using Cons.prems(1) [of k v m] False n a by (simp add: joinWith_Cons)
  qed
qed simp

lemma jvalue_toks: "length (toks v) \<le> n \<Longrightarrow> jvalue n (toks v @ r) = Some (v, r)"
proof (induction v arbitrary: n r)
  case (JArr vs)
  obtain m where n: "n = Suc m" using JArr.prems by (cases n) auto
  show ?case
  proof (cases "vs = []")
    case False
    then have "\<exists>t ts. joinWith [TComma] (map toks vs) = t # ts \<and> t \<noteq> TRBrack"
      using toks_hd [of "hd vs"] by (cases vs; cases "tl vs") (auto simp: joinWith_Cons)
    then obtain t ts where t: "joinWith [TComma] (map toks vs) = t # ts" "t \<noteq> TRBrack" by blast
    have "jelems m (joinWith [TComma] (map toks vs) @ TRBrack # r) = Some (vs, r)"
      using JArr False n by (intro jelems_toks) auto
    then show ?thesis using t n by (cases t) simp_all
  qed (simp add: n)
next
  case (JObj ms)
  obtain m where n: "n = Suc m" using JObj.prems by (cases n) auto
  show ?case
  proof (cases "ms = []")
    case False
    then obtain k ts where t: "joinWith [TComma] (map (\<lambda>(k, v). TStr k # TColon # toks v) ms) = TStr k # ts"
      by (cases ms; cases "tl ms") (auto simp: joinWith_Cons split: prod.splits)
    have "jmembers m (joinWith [TComma] (map (\<lambda>(k, v). TStr k # TColon # toks v) ms) @ TRBrace # r) = Some (ms, r)"
      using JObj False n by (intro jmembers_toks) (auto simp: snds.simps)
    then show ?thesis using t n by simp
  qed (simp add: n)
next
  case JNull
  then show ?case by (cases n) simp_all
next
  case (JBool b)
  then show ?case by (cases n) simp_all
next
  case (JNum l)
  then show ?case by (cases n) simp_all
next
  case (JStr s)
  then show ?case by (cases n) simp_all
qed

theorem json_parse_jprint:
  assumes "\<And>d. list_all is_ws (nl d)" and "list_all is_ws w" and "json_ok v"
  shows "json_parse (jprint nl (CHR '':'' # w) d v) = Some v"
proof -
  have "json_lex (jprint nl (CHR '':'' # w) d v @ []) = map_option (append (toks v)) (json_lex [])"
    using lexes_jprint [of nl w v d] assms by (intro lexesD) auto
  moreover have "json_lex [] = Some []" by (subst json_lex.simps) simp
  ultimately have "json_lex (jprint nl (CHR '':'' # w) d v) = Some (toks v)" by simp
  then show ?thesis using jvalue_toks [of v "Suc (length (toks v))" "[]"] by (simp add: json_parse_def del: jvalue.simps)
qed

theorem json_parse_Marshal: "json_ok v \<Longrightarrow> json_parse (Marshal v) = Some v"
  unfolding Marshal_def using json_parse_jprint [of "\<lambda>_. []" "[]"] by simp

lemma is_ws_space [simp]: "is_ws (CHR '' '')" "is_ws (CHR 0x0A)"
  by (simp_all add: is_ws_def)

theorem json_parse_MarshalIndent: "json_ok v \<Longrightarrow> json_parse (MarshalIndent v) = Some v"
  unfolding MarshalIndent_def
  using json_parse_jprint [of "\<lambda>d. CHR 0x0A # replicate (4 * d) (CHR '' '')" "'' ''"] by (simp add: list_all_iff)

section \<open>The parser accepts exactly the token lists of values\<close>

lemma joinWith_map_Cons:
  "vs \<noteq> [] \<Longrightarrow> joinWith sep (map f (v # vs)) = f v @ sep @ joinWith sep (map f vs)"
  by (simp add: joinWith_Cons)

lemma jparse_sound:
  "jvalue n ts = Some (v, r) \<Longrightarrow> ts = toks v @ r"
  "jelems n ts = Some (vs, r) \<Longrightarrow> vs \<noteq> [] \<and> ts = joinWith [TComma] (map toks vs) @ TRBrack # r"
  "jmembers n ts = Some (ms, r) \<Longrightarrow>
     ms \<noteq> [] \<and> ts = joinWith [TComma] (map (\<lambda>(k, v). TStr k # TColon # toks v) ms) @ TRBrace # r"
proof (induction n ts and n ts and n ts arbitrary: v r and vs r and ms r rule: jvalue_jelems_jmembers.induct)
  case (2 n ts)
  then show ?case by (auto split: list.splits jtok.splits)
next
  case (4 n ts)
  then obtain v0 t r0 where v: "jvalue n ts = Some (v0, t # r0)" by (auto split: option.splits list.splits)
  then have ts: "ts = toks v0 @ t # r0" using "4.IH"(1) by simp
  show ?case
  proof (cases t)
    case TComma
    with "4.prems" v obtain vs' where vs': "jelems n r0 = Some (vs', r)" "vs = v0 # vs'" by auto
    with "4.IH"(2) [OF v refl refl] TComma ts show ?thesis by (auto simp: joinWith_map_Cons simp del: list.map)
  next
    case TRBrack
    with "4.prems" v ts show ?thesis by auto
  qed (use "4.prems" v in simp_all)
next
  case (6 n ts)
  then obtain k r1 v0 t r0 where ts: "ts = TStr k # TColon # r1" and v: "jvalue n r1 = Some (v0, t # r0)"
    by (auto split: option.splits list.splits jtok.splits)
  then have r1: "r1 = toks v0 @ t # r0" using "6.IH"(1) by simp
  show ?case
  proof (cases t)
    case TComma
    with "6.prems" v ts obtain ms' where ms': "jmembers n r0 = Some (ms', r)" "ms = (k, v0) # ms'" by auto
    with "6.IH"(2) [OF ts refl refl refl v refl refl] TComma ts r1 show ?thesis
      by (auto simp: joinWith_map_Cons simp del: list.map)
  next
    case TRBrace
    with "6.prems" v ts r1 show ?thesis by auto
  qed (use "6.prems" v ts in simp_all)
qed simp_all

text \<open>A text is accepted, and read as \<open>v\<close>, exactly when its tokens are those of \<open>v\<close>.\<close>

theorem json_parse_iff: "json_parse s = Some v \<longleftrightarrow> json_lex s = Some (toks v)"
proof
  assume "json_parse s = Some v"
  then obtain ts where "json_lex s = Some ts" "jvalue (Suc (length ts)) ts = Some (v, [])"
    by (auto simp: json_parse_def simp del: jvalue.simps split: option.splits prod.splits list.splits)
  then show "json_lex s = Some (toks v)" using jparse_sound(1) [of "Suc (length ts)" ts v "[]"] by simp
next
  assume "json_lex s = Some (toks v)"
  then show "json_parse s = Some v"
    using jvalue_toks [of v "Suc (length (toks v))" "[]"] by (simp add: json_parse_def del: jvalue.simps)
qed

end
