(* ===== verification/Go_Unmarshal.thy ===== *)
theory Go_Unmarshal
  imports Go_Json
begin

text \<open>
  The rules by which \<open>json.Unmarshal\<close> stores a value into a Go variable: missing keys keep the old
  value, \<open>null\<close> stores nothing, keys match exactly or else up to case, later keys win, a number must
  fit the type of the field. The fields that \<open>json.Marshal\<close> writes with the option \<open>omitempty\<close> are
  decoded back to what they were.
\<close>

section \<open>Storing a value into a Go variable\<close>

text \<open>
  A decoder takes a value and what the variable holds, and returns what it holds afterwards. Go goes on
  after a value of the wrong type and reports the error at the end; the callers use nothing of the
  variable in that case, so the error alone is kept.
\<close>

type_synonym 'a decoder = "json \<Rightarrow> 'a \<Rightarrow> 'a result"

fun dec_string :: "string decoder" where
  "dec_string (JStr s) old = Inr s"
| "dec_string JNull old = Inr old"
| "dec_string _ old = Inl EJson"

fun dec_bool :: "bool decoder" where
  "dec_bool (JBool b) old = Inr b"
| "dec_bool JNull old = Inr old"
| "dec_bool _ old = Inl EJson"

fun dec_int :: "int decoder" where
  "dec_int (JNum l) old = (case parseInt l of Inl _ \<Rightarrow> Inl EJson | Inr n \<Rightarrow> Inr n)"
| "dec_int JNull old = Inr old"
| "dec_int _ old = Inl EJson"

text \<open>An unsigned integer of the width of the type.\<close>

fun dec_word :: "'w::len word decoder" where
  "dec_word (JNum l) old =
     (case parseUint (2 ^ 64 - 1) l of
        Inl _ \<Rightarrow> Inl EJson
      | Inr n \<Rightarrow> if n < 2 ^ LENGTH('w) then Inr (word_of_int n) else Inl EJson)"
| "dec_word JNull old = Inr old"
| "dec_word _ old = Inl EJson"

fun dec_elems :: "'a decoder \<Rightarrow> 'a \<Rightarrow> json list \<Rightarrow> ('a list) result" where
  "dec_elems dec zero [] = Inr []"
| "dec_elems dec zero (v # vs) =
     (case dec v zero of
        Inl e \<Rightarrow> Inl e
      | Inr x \<Rightarrow> (case dec_elems dec zero vs of Inl e \<Rightarrow> Inl e | Inr xs \<Rightarrow> Inr (x # xs)))"

text \<open>A slice; \<open>zero\<close> is the zero value of its elements.\<close>

fun dec_slice :: "'a decoder \<Rightarrow> 'a \<Rightarrow> 'a list decoder" where
  "dec_slice dec zero (JArr vs) old = dec_elems dec zero vs"
| "dec_slice dec zero JNull old = Inr []"
| "dec_slice dec zero _ old = Inl EJson"

text \<open>A pointer: \<open>null\<close> clears it; another value is stored into what it points to, or into a new variable.\<close>

definition dec_ptr :: "'a decoder \<Rightarrow> 'a \<Rightarrow> 'a option decoder" where
  "dec_ptr dec zero v old =
     (if v = JNull then Inr None
      else case dec v (case old of None \<Rightarrow> zero | Some x \<Rightarrow> x) of Inl e \<Rightarrow> Inl e | Inr x \<Rightarrow> Inr (Some x))"

text \<open>
  The folding of key names: ASCII letters to lower case, and the two runes outside ASCII that fold to
  a letter, U+017F and U+212A.
\<close>

fun foldName :: "string \<Rightarrow> string" where
  "foldName [] = []"
| "foldName (a # s) =
     (case s of
        b # t \<Rightarrow>
          if a = CHR 0xC5 \<and> b = CHR 0xBF then CHR ''s'' # foldName t
          else (case t of
                  c # u \<Rightarrow>
                    if a = CHR 0xE2 \<and> b = CHR 0x84 \<and> c = CHR 0xAA then CHR ''k'' # foldName u
                    else ascii_lower a # foldName s
                | [] \<Rightarrow> ascii_lower a # foldName s)
      | [] \<Rightarrow> [ascii_lower a])"

text \<open>The fields of a struct: the key of each and the decoder that stores into it.\<close>

type_synonym 'a fields = "(string \<times> 'a decoder) list"

definition find_field :: "'a fields \<Rightarrow> string \<Rightarrow> 'a decoder option" where
  "find_field fs k =
     (case map_of fs k of
        Some dec \<Rightarrow> Some dec
      | None \<Rightarrow> map_option snd (find (\<lambda>f. foldName (fst f) = foldName k) fs))"

fun dec_members :: "'a fields \<Rightarrow> (string \<times> json) list \<Rightarrow> 'a \<Rightarrow> 'a result" where
  "dec_members fs [] x = Inr x"
| "dec_members fs ((k, v) # ms) x =
     (case find_field fs k of
        None \<Rightarrow> dec_members fs ms x
      | Some dec \<Rightarrow> (case dec v x of Inl e \<Rightarrow> Inl e | Inr x' \<Rightarrow> dec_members fs ms x'))"

fun dec_struct :: "'a fields \<Rightarrow> 'a decoder" where
  "dec_struct fs (JObj ms) x = dec_members fs ms x"
| "dec_struct fs JNull x = Inr x"
| "dec_struct fs _ x = Inl EJson"

definition field :: "('a \<Rightarrow> 'b) \<Rightarrow> ('b \<Rightarrow> 'a \<Rightarrow> 'a) \<Rightarrow> 'b decoder \<Rightarrow> 'a decoder" where
  "field get put dec v x = (case dec v (get x) of Inl e \<Rightarrow> Inl e | Inr y \<Rightarrow> Inr (put y x))"

text \<open>\<open>json.Unmarshal(text, &x)\<close>: a text that is no JSON stores nothing.\<close>

definition Unmarshal :: "'a decoder \<Rightarrow> string \<Rightarrow> 'a \<Rightarrow> 'a result" where
  "Unmarshal dec s x = (case json_parse s of None \<Rightarrow> Inl EJson | Some v \<Rightarrow> dec v x)"

section \<open>Encoding fields\<close>

text \<open>A field with the option \<open>omitempty\<close> is left out when it holds the zero value.\<close>

definition om_str :: "string \<Rightarrow> string \<Rightarrow> (string \<times> json) list" where
  "om_str k s = (if s = [] then [] else [(k, JStr s)])"

definition om_bool :: "string \<Rightarrow> bool \<Rightarrow> (string \<times> json) list" where
  "om_bool k b = (if b then [(k, JBool b)] else [])"

definition om_int :: "string \<Rightarrow> int \<Rightarrow> (string \<times> json) list" where
  "om_int k n = (if n = 0 then [] else [(k, JNum (show_int n))])"

definition om_word :: "string \<Rightarrow> 'w::len word \<Rightarrow> (string \<times> json) list" where
  "om_word k w = (if w = 0 then [] else [(k, JNum (show_int (uint w)))])"

definition om_ints :: "string \<Rightarrow> int list \<Rightarrow> (string \<times> json) list" where
  "om_ints k ns = (if ns = [] then [] else [(k, JArr (map (\<lambda>n. JNum (show_int n)) ns))])"

definition int64 :: "int \<Rightarrow> bool" where
  "int64 n \<longleftrightarrow> - (2 ^ 63) \<le> n \<and> n < 2 ^ 63"

lemma dec_int_show [simp]: "int64 n \<Longrightarrow> dec_int (JNum (show_int n)) old = Inr n"
  by (simp add: int64_def parseInt_show_int)

lemma dec_word_show:
  fixes w :: "'w::len word"
  assumes "LENGTH('w) \<le> 64"
  shows "dec_word (JNum (show_int (uint w))) old = Inr w"
proof -
  have lt: "uint w < 2 ^ LENGTH('w)" by (rule uint_bounded)
  also have "(2 :: int) ^ LENGTH('w) \<le> 2 ^ 64" using assms by (rule power_increasing) simp
  finally have "uint w \<le> 2 ^ 64 - 1" by simp
  then have "parseUint (2 ^ 64 - 1) (show_int (uint w)) = Inr (uint w)"
    using parseUint_show_nat [of "nat (uint w)" "2 ^ 64 - 1"] by (simp add: show_int_def)
  then show ?thesis using lt by simp
qed

lemma dec_elems_ints: "list_all int64 ns \<Longrightarrow> dec_elems dec_int 0 (map (\<lambda>n. JNum (show_int n)) ns) = Inr ns"
  by (induction ns) (simp_all del: dec_int.simps)

text \<open>
  Decoding what a field with \<open>omitempty\<close> wrote, when the variable held the zero value: the field is
  stored.
\<close>

lemma dec_om_str:
  assumes "find_field fs k = Some (field get put dec_string)" and "s = [] \<Longrightarrow> put s x = x"
  shows "dec_members fs (om_str k s @ ms) x = dec_members fs ms (put s x)"
  using assms by (auto simp: om_str_def field_def)

lemma dec_om_bool:
  assumes "find_field fs k = Some (field get put dec_bool)" and "\<not> b \<Longrightarrow> put b x = x"
  shows "dec_members fs (om_bool k b @ ms) x = dec_members fs ms (put b x)"
  using assms by (auto simp: om_bool_def field_def)

lemma dec_om_int:
  assumes "find_field fs k = Some (field get put dec_int)" and "n = 0 \<Longrightarrow> put n x = x" and "int64 n"
  shows "dec_members fs (om_int k n @ ms) x = dec_members fs ms (put n x)"
  using assms by (auto simp: om_int_def field_def simp del: dec_int.simps)

lemma dec_om_word:
  fixes w :: "'w::len word"
  assumes "find_field fs k = Some (field get put dec_word)" and "w = 0 \<Longrightarrow> put w x = x" and "LENGTH('w) \<le> 64"
  shows "dec_members fs (om_word k w @ ms) x = dec_members fs ms (put w x)"
  using assms dec_word_show [OF assms(3)] by (auto simp: om_word_def field_def simp del: dec_word.simps)

lemma dec_om_ints:
  assumes "find_field fs k = Some (field get put (dec_slice dec_int 0))" and "ns = [] \<Longrightarrow> put ns x = x"
    and "list_all int64 ns"
  shows "dec_members fs (om_ints k ns @ ms) x = dec_members fs ms (put ns x)"
  using assms dec_elems_ints by (auto simp: om_ints_def field_def)

lemmas dec_om = dec_om_str dec_om_bool dec_om_int dec_om_word dec_om_ints

lemma json_ok_om [simp]:
  "\<forall>m\<in>set (om_str k s). json_ok (snd m)" "\<forall>m\<in>set (om_bool k b). json_ok (snd m)"
  "\<forall>m\<in>set (om_int k n). json_ok (snd m)" "\<forall>m\<in>set (om_word k w). json_ok (snd m)"
  "\<forall>m\<in>set (om_ints k ns). json_ok (snd m)"
  by (auto simp: om_str_def om_bool_def om_int_def om_word_def om_ints_def split: if_splits)

end
