(* ===== verification/Conf_Types.thy ===== *)
theory Conf_Types
  imports Go_FS Go_Unmarshal
begin

text \<open>
  The data of \<open>pkg/types/types.go\<close>: the network configuration that the plugin reads from its
  standard input and from a NetworkAttachmentDefinition, and the configuration data that it hands to
  the container. Field names carry a prefix where two structs share a name. The fields of the
  embedded CNI structs are those the sources read. Go's \<open>int\<close> is \<^typ>\<open>int\<close>; its conversion to
  \<open>uint32\<close> is \<^const>\<open>word_of_int\<close>.
\<close>

record MemifConf =
  mc_Role :: string
  mc_Mode :: string
  mc_RxQueues :: u8
  mc_TxQueues :: u8
  mc_RingSize :: u32
  mc_BufferSize :: u16
  mc_Secret :: string
  mc_NoZeroCopy :: bool
  mc_UseDma :: bool
  mc_Socketfile :: string

record VhostConf =
  vc_Mode :: string
  vc_Group :: string
  vc_EnableGso :: bool
  vc_EnablePacked :: bool
  vc_EnableEventIdx :: bool
  vc_IngressPolicingRate :: int
  vc_IngressPolicingBurst :: int
  vc_Socketfile :: string

record BridgeConf =
  BridgeName :: string
  BridgeId :: int
  VlanId :: int
  Trunks :: "int list"
  VlanMode :: string

record UserSpaceConf =
  Engine :: string
  IfType :: string
  NetType :: string
  MTU :: int
  MAC :: string
  uc_MemifConf :: MemifConf
  uc_VhostConf :: VhostConf
  uc_BridgeConf :: BridgeConf

text \<open>
  The \<open>args.cni\<close> map of the configuration. The source keeps each value as raw JSON text for a later
  decoding; here it is kept as the value of that text.
\<close>

type_synonym PluginArgs = "(string \<times> json) list"

record NetConf =
  IPAMType :: string
  KubeConfig :: string
  SharedDir :: string
  LogFile :: string
  LogLevel :: string
  nc_Args :: "PluginArgs option"
  nc_Name :: string
  HostConf :: UserSpaceConf
  ContainerConf :: UserSpaceConf

text \<open>
  A CNI result: the addresses that IPAM assigned (address bytes, number of leading ones of the mask,
  gateway bytes), and the interfaces as pairs of name and sandbox.
\<close>

record IPConfig =
  ip_IP :: "u8 list"
  ip_MaskOnes :: nat
  ip_Gateway :: "u8 list"

record Result =
  IPs :: "IPConfig list"
  Interfaces :: "(string \<times> string) list"

record ConfigurationData =
  cd_ContainerId :: string
  cd_IfName :: string
  cd_Name :: string
  cd_Config :: UserSpaceConf
  cd_IPResult :: Result

text \<open>The arguments of a CNI call (\<open>skel.CmdArgs\<close>).\<close>

record CmdArgs =
  ContainerID :: string
  Netns :: string
  ca_IfName :: string
  ca_Args :: string
  StdinData :: string

definition DefaultSwIfIndex :: u32 where
  "DefaultSwIfIndex = 4294967295"

text \<open>The zero values of Go for these structs.\<close>

definition zero_MemifConf :: MemifConf where
  "zero_MemifConf = \<lparr>mc_Role = [], mc_Mode = [], mc_RxQueues = 0, mc_TxQueues = 0, mc_RingSize = 0,
     mc_BufferSize = 0, mc_Secret = [], mc_NoZeroCopy = False, mc_UseDma = False, mc_Socketfile = []\<rparr>"

definition zero_VhostConf :: VhostConf where
  "zero_VhostConf = \<lparr>vc_Mode = [], vc_Group = [], vc_EnableGso = False, vc_EnablePacked = False,
     vc_EnableEventIdx = False, vc_IngressPolicingRate = 0, vc_IngressPolicingBurst = 0,
     vc_Socketfile = []\<rparr>"

definition zero_BridgeConf :: BridgeConf where
  "zero_BridgeConf = \<lparr>BridgeName = [], BridgeId = 0, VlanId = 0, Trunks = [], VlanMode = []\<rparr>"

definition zero_UserSpaceConf :: UserSpaceConf where
  "zero_UserSpaceConf = \<lparr>Engine = [], IfType = [], NetType = [], MTU = 0, MAC = [],
     uc_MemifConf = zero_MemifConf, uc_VhostConf = zero_VhostConf, uc_BridgeConf = zero_BridgeConf\<rparr>"

definition zero_Result :: Result where
  "zero_Result = \<lparr>IPs = [], Interfaces = []\<rparr>"

definition zero_NetConf :: NetConf where
  "zero_NetConf = \<lparr>IPAMType = [], KubeConfig = [], SharedDir = [], LogFile = [], LogLevel = [],
     nc_Args = None, nc_Name = [], HostConf = zero_UserSpaceConf, ContainerConf = zero_UserSpaceConf\<rparr>"

lemmas zero_defs = zero_MemifConf_def zero_VhostConf_def zero_BridgeConf_def zero_UserSpaceConf_def
  zero_Result_def zero_NetConf_def

text \<open>
  \<open>id[:12]\<close>: a slice expression on a string, which panics when the string is shorter.
\<close>

definition slice12 :: "string \<Rightarrow> string option" where
  "slice12 s = (if 12 \<le> length s then Some (take 12 s) else None)"

text \<open>Updates of the host's half of a configuration.\<close>

definition set_memif :: "NetConf \<Rightarrow> MemifConf \<Rightarrow> NetConf" where
  "set_memif conf m = conf\<lparr>HostConf := (HostConf conf)\<lparr>uc_MemifConf := m\<rparr>\<rparr>"

definition set_vhost :: "NetConf \<Rightarrow> VhostConf \<Rightarrow> NetConf" where
  "set_vhost conf v = conf\<lparr>HostConf := (HostConf conf)\<lparr>uc_VhostConf := v\<rparr>\<rparr>"

abbreviation host_memif :: "NetConf \<Rightarrow> MemifConf" where
  "host_memif conf \<equiv> uc_MemifConf (HostConf conf)"

abbreviation host_vhost :: "NetConf \<Rightarrow> VhostConf" where
  "host_vhost conf \<equiv> uc_VhostConf (HostConf conf)"

end
