(* ===== verification/Conf_Json.thy ===== *)
theory Conf_Json
  imports Conf_Types
begin

text \<open>
  The JSON form of the structs of \<open>pkg/types/types.go\<close>, from their struct tags: what \<open>json.Marshal\<close>
  writes and what \<open>json.Unmarshal\<close> reads. The CNI library (its \<open>NetConf\<close>, which is embedded, and its
  \<open>Result\<close>, which has its own encoding) is a parameter. The configuration data that the plugin writes
  for a container is read back as it was written.
\<close>

section \<open>The CNI library\<close>

text \<open>
  The JSON fields of the embedded \<open>types.NetConf\<close>, as they store into the outer struct, and the
  encoding and decoding of \<open>types100.Result\<close>.
\<close>

record cni_lib =
  lib_netconf_fields :: "NetConf fields"
  lib_enc_result :: "Result \<Rightarrow> json"
  lib_dec_result :: "Result decoder"

section \<open>Decoding\<close>

definition memif_fields :: "MemifConf fields" where
  "memif_fields = [
     (''role'', field mc_Role (\<lambda>y. mc_Role_update (\<lambda>_. y)) dec_string),
     (''mode'', field mc_Mode (\<lambda>y. mc_Mode_update (\<lambda>_. y)) dec_string),
     (''rxQueues'', field mc_RxQueues (\<lambda>y. mc_RxQueues_update (\<lambda>_. y)) dec_word),
     (''txQueues'', field mc_TxQueues (\<lambda>y. mc_TxQueues_update (\<lambda>_. y)) dec_word),
     (''ringSize'', field mc_RingSize (\<lambda>y. mc_RingSize_update (\<lambda>_. y)) dec_word),
     (''bufferSize'', field mc_BufferSize (\<lambda>y. mc_BufferSize_update (\<lambda>_. y)) dec_word),
     (''secret'', field mc_Secret (\<lambda>y. mc_Secret_update (\<lambda>_. y)) dec_string),
     (''noZeroCopy'', field mc_NoZeroCopy (\<lambda>y. mc_NoZeroCopy_update (\<lambda>_. y)) dec_bool),
     (''useDma'', field mc_UseDma (\<lambda>y. mc_UseDma_update (\<lambda>_. y)) dec_bool),
     (''socketfile'', field mc_Socketfile (\<lambda>y. mc_Socketfile_update (\<lambda>_. y)) dec_string)]"

definition vhost_fields :: "VhostConf fields" where
  "vhost_fields = [
     (''mode'', field vc_Mode (\<lambda>y. vc_Mode_update (\<lambda>_. y)) dec_string),
     (''group'', field vc_Group (\<lambda>y. vc_Group_update (\<lambda>_. y)) dec_string),
     (''enableGso'', field vc_EnableGso (\<lambda>y. vc_EnableGso_update (\<lambda>_. y)) dec_bool),
     (''enablePacked'', field vc_EnablePacked (\<lambda>y. vc_EnablePacked_update (\<lambda>_. y)) dec_bool),
     (''enableEventIdx'', field vc_EnableEventIdx (\<lambda>y. vc_EnableEventIdx_update (\<lambda>_. y)) dec_bool),
     (''ingressPolicingRate'', field vc_IngressPolicingRate (\<lambda>y. vc_IngressPolicingRate_update (\<lambda>_. y)) dec_int),
     (''ingressPolicingBurst'', field vc_IngressPolicingBurst (\<lambda>y. vc_IngressPolicingBurst_update (\<lambda>_. y)) dec_int),
     (''socketfile'', field vc_Socketfile (\<lambda>y. vc_Socketfile_update (\<lambda>_. y)) dec_string)]"

definition bridge_fields :: "BridgeConf fields" where
  "bridge_fields = [
     (''bridgeName'', field BridgeName (\<lambda>y. BridgeName_update (\<lambda>_. y)) dec_string),
     (''bridgeId'', field BridgeId (\<lambda>y. BridgeId_update (\<lambda>_. y)) dec_int),
     (''vlanId'', field VlanId (\<lambda>y. VlanId_update (\<lambda>_. y)) dec_int),
     (''trunks'', field Trunks (\<lambda>y. Trunks_update (\<lambda>_. y)) (dec_slice dec_int 0)),
     (''vlanMode'', field VlanMode (\<lambda>y. VlanMode_update (\<lambda>_. y)) dec_string)]"

definition userspace_fields :: "UserSpaceConf fields" where
  "userspace_fields = [
     (''engine'', field Engine (\<lambda>y. Engine_update (\<lambda>_. y)) dec_string),
     (''iftype'', field IfType (\<lambda>y. IfType_update (\<lambda>_. y)) dec_string),
     (''netType'', field NetType (\<lambda>y. NetType_update (\<lambda>_. y)) dec_string),
     (''mtu'', field MTU (\<lambda>y. MTU_update (\<lambda>_. y)) dec_int),
     (''mac'', field MAC (\<lambda>y. MAC_update (\<lambda>_. y)) dec_string),
     (''memif'', field uc_MemifConf (\<lambda>y. uc_MemifConf_update (\<lambda>_. y)) (dec_struct memif_fields)),
     (''vhost'', field uc_VhostConf (\<lambda>y. uc_VhostConf_update (\<lambda>_. y)) (dec_struct vhost_fields)),
     (''bridge'', field uc_BridgeConf (\<lambda>y. uc_BridgeConf_update (\<lambda>_. y)) (dec_struct bridge_fields))]"

text \<open>The map \<open>args.cni\<close>; a repeated key keeps its last value.\<close>

fun dec_cni_args :: "PluginArgs decoder" where
  "dec_cni_args (JObj ms) old = Inr (foldl (\<lambda>m (k, v). (k, v) # filter (\<lambda>x. fst x \<noteq> k) m) old ms)"
| "dec_cni_args JNull old = Inr []"
| "dec_cni_args _ old = Inl EJson"

definition args_fields :: "PluginArgs fields" where
  "args_fields = [(''cni'', dec_cni_args)]"

definition netconf_fields :: "cni_lib \<Rightarrow> NetConf fields" where
  "netconf_fields L = [
     (''kubeconfig'', field KubeConfig (\<lambda>y. KubeConfig_update (\<lambda>_. y)) dec_string),
     (''sharedDir'', field SharedDir (\<lambda>y. SharedDir_update (\<lambda>_. y)) dec_string),
     (''logFile'', field LogFile (\<lambda>y. LogFile_update (\<lambda>_. y)) dec_string),
     (''logLevel'', field LogLevel (\<lambda>y. LogLevel_update (\<lambda>_. y)) dec_string),
     (''args'', field nc_Args (\<lambda>y. nc_Args_update (\<lambda>_. y)) (dec_ptr (dec_struct args_fields) [])),
     (''name'', field nc_Name (\<lambda>y. nc_Name_update (\<lambda>_. y)) dec_string),
     (''host'', field HostConf (\<lambda>y. HostConf_update (\<lambda>_. y)) (dec_struct userspace_fields)),
     (''container'', field ContainerConf (\<lambda>y. ContainerConf_update (\<lambda>_. y)) (dec_struct userspace_fields))] @ lib_netconf_fields L"

definition configdata_fields :: "cni_lib \<Rightarrow> ConfigurationData fields" where
  "configdata_fields L = [
     (''containerId'', field cd_ContainerId (\<lambda>y. cd_ContainerId_update (\<lambda>_. y)) dec_string),
     (''ifName'', field cd_IfName (\<lambda>y. cd_IfName_update (\<lambda>_. y)) dec_string),
     (''name'', field cd_Name (\<lambda>y. cd_Name_update (\<lambda>_. y)) dec_string),
     (''config'', field cd_Config (\<lambda>y. cd_Config_update (\<lambda>_. y)) (dec_struct userspace_fields)),
     (''ipResult'', field cd_IPResult (\<lambda>y. cd_IPResult_update (\<lambda>_. y)) (lib_dec_result L))]"

definition zero_ConfigurationData :: ConfigurationData where
  "zero_ConfigurationData = \<lparr>cd_ContainerId = [], cd_IfName = [], cd_Name = [], cd_Config = zero_UserSpaceConf,
     cd_IPResult = zero_Result\<rparr>"

definition Unmarshal_NetConf :: "cni_lib \<Rightarrow> string \<Rightarrow> NetConf result" where
  "Unmarshal_NetConf L s = Unmarshal (dec_struct (netconf_fields L)) s zero_NetConf"

definition Unmarshal_ConfigData :: "cni_lib \<Rightarrow> string \<Rightarrow> (ConfigurationData list) result" where
  "Unmarshal_ConfigData L s =
     Unmarshal (dec_slice (dec_struct (configdata_fields L)) zero_ConfigurationData) s []"

text \<open>The same into a slice of pointers.\<close>

definition Unmarshal_ConfigData_ptrs :: "cni_lib \<Rightarrow> string \<Rightarrow> (ConfigurationData option list) result" where
  "Unmarshal_ConfigData_ptrs L s =
     Unmarshal (dec_slice (dec_ptr (dec_struct (configdata_fields L)) zero_ConfigurationData) None) s []"

section \<open>Encoding\<close>

definition enc_MemifConf :: "MemifConf \<Rightarrow> json" where
  "enc_MemifConf c = JObj (om_str ''role'' (mc_Role c) @
     om_str ''mode'' (mc_Mode c) @
     om_word ''rxQueues'' (mc_RxQueues c) @
     om_word ''txQueues'' (mc_TxQueues c) @
     om_word ''ringSize'' (mc_RingSize c) @
     om_word ''bufferSize'' (mc_BufferSize c) @
     om_str ''secret'' (mc_Secret c) @
     om_bool ''noZeroCopy'' (mc_NoZeroCopy c) @
     om_bool ''useDma'' (mc_UseDma c) @
     om_str ''socketfile'' (mc_Socketfile c))"

definition enc_VhostConf :: "VhostConf \<Rightarrow> json" where
  "enc_VhostConf c = JObj (om_str ''mode'' (vc_Mode c) @
     om_str ''group'' (vc_Group c) @
     om_bool ''enableGso'' (vc_EnableGso c) @
     om_bool ''enablePacked'' (vc_EnablePacked c) @
     om_bool ''enableEventIdx'' (vc_EnableEventIdx c) @
     om_int ''ingressPolicingRate'' (vc_IngressPolicingRate c) @
     om_int ''ingressPolicingBurst'' (vc_IngressPolicingBurst c) @
     om_str ''socketfile'' (vc_Socketfile c))"

definition enc_BridgeConf :: "BridgeConf \<Rightarrow> json" where
  "enc_BridgeConf c = JObj (om_str ''bridgeName'' (BridgeName c) @
     om_int ''bridgeId'' (BridgeId c) @
     om_int ''vlanId'' (VlanId c) @
     om_ints ''trunks'' (Trunks c) @
     om_str ''vlanMode'' (VlanMode c))"

text \<open>A struct is never empty, so the nested structs are always written.\<close>

definition enc_UserSpaceConf :: "UserSpaceConf \<Rightarrow> json" where
  "enc_UserSpaceConf c = JObj (om_str ''engine'' (Engine c) @ om_str ''iftype'' (IfType c) @ om_str ''netType'' (NetType c) @ om_int ''mtu'' (MTU c) @ om_str ''mac'' (MAC c) @
     [(''memif'', enc_MemifConf (uc_MemifConf c)), (''vhost'', enc_VhostConf (uc_VhostConf c)),
      (''bridge'', enc_BridgeConf (uc_BridgeConf c))])"

definition enc_ConfigurationData :: "cni_lib \<Rightarrow> ConfigurationData \<Rightarrow> json" where
  "enc_ConfigurationData L d = JObj [(''containerId'', JStr (cd_ContainerId d)), (''ifName'', JStr (cd_IfName d)),
     (''name'', JStr (cd_Name d)), (''config'', enc_UserSpaceConf (cd_Config d)),
     (''ipResult'', lib_enc_result L (cd_IPResult d))]"

section \<open>What is written is read back\<close>

text \<open>Go's \<open>int\<close> has 64 bits.\<close>

definition conf_ok :: "UserSpaceConf \<Rightarrow> bool" where
  "conf_ok c \<longleftrightarrow> int64 (MTU c) \<and> int64 (vc_IngressPolicingRate (uc_VhostConf c)) \<and>
     int64 (vc_IngressPolicingBurst (uc_VhostConf c)) \<and> int64 (BridgeId (uc_BridgeConf c)) \<and>
     int64 (VlanId (uc_BridgeConf c)) \<and> list_all int64 (Trunks (uc_BridgeConf c))"

lemma memif_find:
  "find_field memif_fields ''role'' = Some (field mc_Role (\<lambda>y. mc_Role_update (\<lambda>_. y)) dec_string)"
  "find_field memif_fields ''mode'' = Some (field mc_Mode (\<lambda>y. mc_Mode_update (\<lambda>_. y)) dec_string)"
  "find_field memif_fields ''rxQueues'' = Some (field mc_RxQueues (\<lambda>y. mc_RxQueues_update (\<lambda>_. y)) dec_word)"
  "find_field memif_fields ''txQueues'' = Some (field mc_TxQueues (\<lambda>y. mc_TxQueues_update (\<lambda>_. y)) dec_word)"
  "find_field memif_fields ''ringSize'' = Some (field mc_RingSize (\<lambda>y. mc_RingSize_update (\<lambda>_. y)) dec_word)"
  "find_field memif_fields ''bufferSize'' = Some (field mc_BufferSize (\<lambda>y. mc_BufferSize_update (\<lambda>_. y)) dec_word)"
  "find_field memif_fields ''secret'' = Some (field mc_Secret (\<lambda>y. mc_Secret_update (\<lambda>_. y)) dec_string)"
  "find_field memif_fields ''noZeroCopy'' = Some (field mc_NoZeroCopy (\<lambda>y. mc_NoZeroCopy_update (\<lambda>_. y)) dec_bool)"
  "find_field memif_fields ''useDma'' = Some (field mc_UseDma (\<lambda>y. mc_UseDma_update (\<lambda>_. y)) dec_bool)"
  "find_field memif_fields ''socketfile'' = Some (field mc_Socketfile (\<lambda>y. mc_Socketfile_update (\<lambda>_. y)) dec_string)"
  by (simp_all add: find_field_def memif_fields_def)

lemmas memif_steps =
  dec_om_str [OF memif_find(1)]
  dec_om_str [OF memif_find(2)]
  dec_om_word [OF memif_find(3)]
  dec_om_word [OF memif_find(4)]
  dec_om_word [OF memif_find(5)]
  dec_om_word [OF memif_find(6)]
  dec_om_str [OF memif_find(7)]
  dec_om_bool [OF memif_find(8)]
  dec_om_bool [OF memif_find(9)]
  dec_om_str [OF memif_find(10)]
  dec_om_str [OF memif_find(10), where ms = "[]", simplified]

lemma vhost_find:
  "find_field vhost_fields ''mode'' = Some (field vc_Mode (\<lambda>y. vc_Mode_update (\<lambda>_. y)) dec_string)"
  "find_field vhost_fields ''group'' = Some (field vc_Group (\<lambda>y. vc_Group_update (\<lambda>_. y)) dec_string)"
  "find_field vhost_fields ''enableGso'' = Some (field vc_EnableGso (\<lambda>y. vc_EnableGso_update (\<lambda>_. y)) dec_bool)"
  "find_field vhost_fields ''enablePacked'' = Some (field vc_EnablePacked (\<lambda>y. vc_EnablePacked_update (\<lambda>_. y)) dec_bool)"
  "find_field vhost_fields ''enableEventIdx'' = Some (field vc_EnableEventIdx (\<lambda>y. vc_EnableEventIdx_update (\<lambda>_. y)) dec_bool)"
  "find_field vhost_fields ''ingressPolicingRate'' = Some (field vc_IngressPolicingRate (\<lambda>y. vc_IngressPolicingRate_update (\<lambda>_. y)) dec_int)"
  "find_field vhost_fields ''ingressPolicingBurst'' = Some (field vc_IngressPolicingBurst (\<lambda>y. vc_IngressPolicingBurst_update (\<lambda>_. y)) dec_int)"
  "find_field vhost_fields ''socketfile'' = Some (field vc_Socketfile (\<lambda>y. vc_Socketfile_update (\<lambda>_. y)) dec_string)"
  by (simp_all add: find_field_def vhost_fields_def)

lemmas vhost_steps =
  dec_om_str [OF vhost_find(1)]
  dec_om_str [OF vhost_find(2)]
  dec_om_bool [OF vhost_find(3)]
  dec_om_bool [OF vhost_find(4)]
  dec_om_bool [OF vhost_find(5)]
  dec_om_int [OF vhost_find(6)]
  dec_om_int [OF vhost_find(7)]
  dec_om_str [OF vhost_find(8)]
  dec_om_str [OF vhost_find(8), where ms = "[]", simplified]

lemma bridge_find:
  "find_field bridge_fields ''bridgeName'' = Some (field BridgeName (\<lambda>y. BridgeName_update (\<lambda>_. y)) dec_string)"
  "find_field bridge_fields ''bridgeId'' = Some (field BridgeId (\<lambda>y. BridgeId_update (\<lambda>_. y)) dec_int)"
  "find_field bridge_fields ''vlanId'' = Some (field VlanId (\<lambda>y. VlanId_update (\<lambda>_. y)) dec_int)"
  "find_field bridge_fields ''trunks'' = Some (field Trunks (\<lambda>y. Trunks_update (\<lambda>_. y)) (dec_slice dec_int 0))"
  "find_field bridge_fields ''vlanMode'' = Some (field VlanMode (\<lambda>y. VlanMode_update (\<lambda>_. y)) dec_string)"
  by (simp_all add: find_field_def bridge_fields_def)

lemmas bridge_steps =
  dec_om_str [OF bridge_find(1)]
  dec_om_int [OF bridge_find(2)]
  dec_om_int [OF bridge_find(3)]
  dec_om_ints [OF bridge_find(4)]
  dec_om_str [OF bridge_find(5)]
  dec_om_str [OF bridge_find(5), where ms = "[]", simplified]

lemma userspace_find:
  "find_field userspace_fields ''engine'' = Some (field Engine (\<lambda>y. Engine_update (\<lambda>_. y)) dec_string)"
  "find_field userspace_fields ''iftype'' = Some (field IfType (\<lambda>y. IfType_update (\<lambda>_. y)) dec_string)"
  "find_field userspace_fields ''netType'' = Some (field NetType (\<lambda>y. NetType_update (\<lambda>_. y)) dec_string)"
  "find_field userspace_fields ''mtu'' = Some (field MTU (\<lambda>y. MTU_update (\<lambda>_. y)) dec_int)"
  "find_field userspace_fields ''mac'' = Some (field MAC (\<lambda>y. MAC_update (\<lambda>_. y)) dec_string)"
  "find_field userspace_fields ''memif'' = Some (field uc_MemifConf (\<lambda>y. uc_MemifConf_update (\<lambda>_. y)) (dec_struct memif_fields))"
  "find_field userspace_fields ''vhost'' = Some (field uc_VhostConf (\<lambda>y. uc_VhostConf_update (\<lambda>_. y)) (dec_struct vhost_fields))"
  "find_field userspace_fields ''bridge'' = Some (field uc_BridgeConf (\<lambda>y. uc_BridgeConf_update (\<lambda>_. y)) (dec_struct bridge_fields))"
  by (simp_all add: find_field_def userspace_fields_def)

lemmas userspace_steps =
  dec_om_str [OF userspace_find(1)]
  dec_om_str [OF userspace_find(2)]
  dec_om_str [OF userspace_find(3)]
  dec_om_int [OF userspace_find(4)]
  dec_om_str [OF userspace_find(5)]

lemma dec_enc_MemifConf: "dec_struct memif_fields (enc_MemifConf c) zero_MemifConf = Inr c"
  by (cases c) (simp add: enc_MemifConf_def zero_MemifConf_def memif_steps)

lemma dec_enc_VhostConf:
  assumes "int64 (vc_IngressPolicingRate c)" and "int64 (vc_IngressPolicingBurst c)"
  shows "dec_struct vhost_fields (enc_VhostConf c) zero_VhostConf = Inr c"
  using assms by (cases c) (simp add: enc_VhostConf_def zero_VhostConf_def vhost_steps)

lemma dec_enc_BridgeConf:
  assumes "int64 (BridgeId c)" and "int64 (VlanId c)" and "list_all int64 (Trunks c)"
  shows "dec_struct bridge_fields (enc_BridgeConf c) zero_BridgeConf = Inr c"
  using assms by (cases c) (simp add: enc_BridgeConf_def zero_BridgeConf_def bridge_steps)

lemma dec_enc_UserSpaceConf:
  assumes "conf_ok c"
  shows "dec_struct userspace_fields (enc_UserSpaceConf c) zero_UserSpaceConf = Inr c"
  using assms
  by (cases c) (simp add: conf_ok_def enc_UserSpaceConf_def zero_UserSpaceConf_def userspace_steps userspace_find
      field_def dec_enc_MemifConf dec_enc_VhostConf dec_enc_BridgeConf)

lemma json_ok_enc [simp]:
  "json_ok (enc_MemifConf m)" "json_ok (enc_VhostConf v)" "json_ok (enc_BridgeConf b)"
  by (simp_all add: enc_MemifConf_def enc_VhostConf_def enc_BridgeConf_def ball_Un)

lemma json_ok_enc_UserSpaceConf [simp]: "json_ok (enc_UserSpaceConf c)"
  by (simp add: enc_UserSpaceConf_def ball_Un)

lemma json_ok_enc_ConfigurationData:
  "json_ok (lib_enc_result L (cd_IPResult d)) \<Longrightarrow> json_ok (enc_ConfigurationData L d)"
  by (simp add: enc_ConfigurationData_def)

lemma dec_enc_ConfigurationData:
  assumes "conf_ok (cd_Config d)" and "lib_dec_result L (lib_enc_result L (cd_IPResult d)) zero_Result = Inr (cd_IPResult d)"
  shows "dec_struct (configdata_fields L) (enc_ConfigurationData L d) zero_ConfigurationData = Inr d"
  using assms dec_enc_UserSpaceConf [OF assms(1)]
  by (cases d) (simp add: enc_ConfigurationData_def zero_ConfigurationData_def configdata_fields_def find_field_def field_def)

end
