(* ===== verification/K8sclient.thy ===== *)
theory K8sclient
  imports Conf_Json
begin

text \<open>
  The Kubernetes client of \<open>pkg/k8sclient/k8sclient.go\<close> and the readers of \<open>pkg/daemon/k8s.go\<close>. The
  API server and the client library are a parameter: a record of requests over a state type \<open>'k\<close>. A
  request returns an object next to its error, as the client library does; on an error that object
  is whatever the library returns.
\<close>

section \<open>Pods\<close>

text \<open>The parts of \<open>v1.Pod\<close> that the sources read.\<close>

record Volume =
  vol_Name :: string
  vol_HostPath :: "string option"
  vol_EmptyDir :: bool

record Container =
  VolumeMounts :: "(string \<times> string) list"

record Pod =
  pod_Name :: string
  pod_Namespace :: string
  pod_UID :: string
  pod_Annotations :: "string \<rightharpoonup> string"
  pod_Volumes :: "Volume list"
  pod_Containers :: "Container list"

text \<open>A lookup in a Go map of strings.\<close>

definition annotation :: "Pod \<Rightarrow> string \<Rightarrow> string" where
  "annotation pod k = (case pod_Annotations pod k of None \<Rightarrow> [] | Some s \<Rightarrow> s)"

section \<open>The API\<close>

text \<open>The pod that the CNI arguments name: namespace and name.\<close>

record k8sArgs =
  K8S_POD_NAME :: string
  K8S_POD_NAMESPACE :: string

record 'k kube_api =
  kube_get_pod :: "string \<Rightarrow> string \<Rightarrow> 'k \<Rightarrow> (Pod \<times> go_error option) \<times> 'k"
  kube_update_status :: "Pod \<Rightarrow> 'k \<Rightarrow> (Pod \<times> go_error option) \<times> 'k"
  kube_is_conflict :: "go_error \<Rightarrow> bool"
  kube_retry_steps :: nat
  kube_list_pods :: "string \<Rightarrow> 'k \<Rightarrow> (Pod list) result \<times> 'k"
  kube_get_nad :: "string \<Rightarrow> string \<Rightarrow> 'k \<Rightarrow> json result \<times> 'k"
  kube_load_args :: "string \<Rightarrow> k8sArgs result"
  kube_config_ok :: "string \<Rightarrow> go_error option"
  kube_in_cluster :: "bool"
  kube_in_cluster_err :: "go_error option"

section \<open>Reading a pod\<close>

text \<open>
  \<open>getK8sClient\<close>: \<open>Inr True\<close> when there is a client, \<open>Inr False\<close> when there is no configuration
  for one.
\<close>

definition getK8sClient :: "'k kube_api \<Rightarrow> bool \<Rightarrow> string \<Rightarrow> bool result" where
  "getK8sClient K client kubeConfig =
     (if client then Inr True
      else if kubeConfig \<noteq> [] then
        (case kube_config_ok K kubeConfig of
           Some e \<Rightarrow> Inl (EWrap ''getK8sClient: failed to get context for the kubeConfig'' e)
         | None \<Rightarrow> Inr True)
      else if kube_in_cluster K then
        (case kube_in_cluster_err K of
           Some e \<Rightarrow> Inl (EWrap ''createK8sClient: failed to get context for in-cluster kube config'' e)
         | None \<Rightarrow> Inr True)
      else Inr False)"

definition getK8sArgs :: "'k kube_api \<Rightarrow> CmdArgs option \<Rightarrow> k8sArgs result" where
  "getK8sArgs K args =
     (case args of
        None \<Rightarrow> Inl (EMsg ''getK8sArgs: failed to get k8s args for CmdArgs'')
      | Some a \<Rightarrow> kube_load_args K (ca_Args a))"

text \<open>The pod, and whether there is a client.\<close>

definition GetPod ::
  "'k kube_api \<Rightarrow> CmdArgs option \<Rightarrow> bool \<Rightarrow> string \<Rightarrow> 'k \<Rightarrow> (Pod option \<times> bool \<times> go_error option) \<times> 'k" where
  "GetPod K args client kubeConfig s =
     (case getK8sArgs K args of
        Inl e \<Rightarrow> ((None, client, Some e), s)
      | Inr a \<Rightarrow>
          (case getK8sClient K client kubeConfig of
             Inl e \<Rightarrow> ((None, False, Some e), s)
           | Inr False \<Rightarrow> ((None, False, Some (EMsg ''GetPod: No kubeClient'')), s)
           | Inr True \<Rightarrow>
               (case kube_get_pod K (K8S_POD_NAMESPACE a) (K8S_POD_NAME a) s of
                  ((pod, Some e), s') \<Rightarrow> ((None, True, Some e), s')
                | ((pod, None), s') \<Rightarrow> ((Some pod, True, None), s'))))"

section \<open>Writing the annotations of a pod\<close>

text \<open>
  The closure that \<open>retry.RetryOnConflict\<close> runs: after a failed attempt it reads the pod again. The
  state of the closure is the pod and the error of the last attempt.
\<close>

definition update_attempt ::
  "'k kube_api \<Rightarrow> Pod \<times> go_error option \<Rightarrow> 'k \<Rightarrow> (Pod \<times> go_error option) \<times> 'k" where
  "update_attempt K pe s =
     (case pe of (pod, err) \<Rightarrow>
        case (if err \<noteq> None then kube_get_pod K (pod_Namespace pod) (pod_Name pod) s
              else ((pod, None), s)) of
          ((pod1, Some e), s1) \<Rightarrow> ((pod1, Some e), s1)
        | ((pod1, None), s1) \<Rightarrow> kube_update_status K pod1 s1)"

text \<open>\<open>retry.RetryOnConflict\<close> with \<open>n\<close> attempts left; a conflict is retried.\<close>

fun retry_on_conflict ::
  "'k kube_api \<Rightarrow> nat \<Rightarrow> Pod \<times> go_error option \<Rightarrow> 'k \<Rightarrow> (Pod \<times> go_error option) \<times> 'k" where
  "retry_on_conflict K 0 pe s = (pe, s)"
| "retry_on_conflict K (Suc n) pe s =
     (case update_attempt K pe s of
        ((pod, None), s') \<Rightarrow> ((pod, None), s')
      | ((pod, Some e), s') \<Rightarrow>
          if kube_is_conflict K e then retry_on_conflict K n (pod, Some e) s' else ((pod, Some e), s'))"

definition k8s_WritePodAnnotation ::
  "'k kube_api \<Rightarrow> bool \<Rightarrow> Pod option \<Rightarrow> 'k \<Rightarrow> (Pod option \<times> go_error option) \<times> 'k" where
  "k8s_WritePodAnnotation K client pod s =
     (if \<not> client then ((pod, Some (EMsg ''WritePodAnnotation: No kubeClient'')), s)
      else case pod of
        None \<Rightarrow> ((None, Some (EMsg ''WritePodAnnotation: No pod'')), s)
      | Some p \<Rightarrow>
          (case retry_on_conflict K (kube_retry_steps K) (p, None) s of
             ((p', None), s') \<Rightarrow> ((Some p', None), s')
           | ((p', Some e), s') \<Rightarrow> ((None, Some (EWrap ''status update failed for pod'' e)), s')))"

section \<open>The readers of the daemon\<close>

definition ListNodePods :: "'k kube_api \<Rightarrow> string \<Rightarrow> 'k \<Rightarrow> (Pod list) result \<times> 'k" where
  "ListNodePods K nodeName s = kube_list_pods K nodeName s"

text \<open>
  \<open>unstructured.NestedString(obj, "spec", "config")\<close>: the string, whether it was found, or an error
  when a value on the way has another type.
\<close>

definition nestedString :: "json \<Rightarrow> (string \<times> bool) result" where
  "nestedString obj =
     (case obj of
        JObj ms \<Rightarrow>
          (case map_of ms ''spec'' of
             None \<Rightarrow> Inr ([], False)
           | Some (JObj spec) \<Rightarrow>
               (case map_of spec ''config'' of
                  None \<Rightarrow> Inr ([], False)
                | Some (JStr s) \<Rightarrow> Inr (s, True)
                | Some _ \<Rightarrow> Inl (EKube ''accessor error''))
           | Some _ \<Rightarrow> Inl (EKube ''accessor error''))
      | _ \<Rightarrow> Inl (EKube ''accessor error''))"

definition GetNADConfig :: "'k kube_api \<Rightarrow> string \<Rightarrow> string \<Rightarrow> 'k \<Rightarrow> string result \<times> 'k" where
  "GetNADConfig K namespace name s =
     (case kube_get_nad K namespace name s of
        (Inl e, s') \<Rightarrow> (Inl e, s')
      | (Inr obj, s') \<Rightarrow>
          (case nestedString obj of
             Inl e \<Rightarrow> (Inl e, s')
           | Inr (cfg, found) \<Rightarrow>
               if \<not> found \<or> cfg = [] then
                 (Inl (EMsg (''NAD '' @ namespace @ ''/'' @ name @ '' has no spec.config'')), s')
               else (Inr cfg, s')))"

section \<open>Properties\<close>

text \<open>
  What a server without an annotation answers: reading it gives no pod with the annotation, and an
  update with a pod that lacks the annotation does not put it there. Nothing is said of the object that
  a failed request returns.
\<close>

definition never_annotates :: "'k kube_api \<Rightarrow> string \<Rightarrow> ('k \<Rightarrow> bool) \<Rightarrow> bool" where
  "never_annotates K key lacks \<longleftrightarrow>
     (\<forall>ns n s. lacks s \<longrightarrow> (case kube_get_pod K ns n s of
        ((r, err), s') \<Rightarrow> lacks s' \<and> (err = None \<longrightarrow> pod_Annotations r key = None))) \<and>
     (\<forall>p s. lacks s \<longrightarrow> pod_Annotations p key = None \<longrightarrow> (case kube_update_status K p s of
        ((r, err), s') \<Rightarrow> lacks s' \<and> (err = None \<longrightarrow> pod_Annotations r key = None)))"

lemma never_annotatesD:
  assumes "never_annotates K key lacks" and "lacks s"
  shows "kube_get_pod K ns n s = ((r, err), s') \<Longrightarrow> lacks s' \<and> (err = None \<longrightarrow> pod_Annotations r key = None)"
    and "pod_Annotations p key = None \<Longrightarrow> kube_update_status K p s = ((r, err), s') \<Longrightarrow>
      lacks s' \<and> (err = None \<longrightarrow> pod_Annotations r key = None)"
  using assms(1) [unfolded never_annotates_def, THEN conjunct1, rule_format, OF assms(2), of ns n]
    assms(1) [unfolded never_annotates_def, THEN conjunct2, rule_format, OF assms(2), of p] by simp_all

text \<open>An attempt after a failed one submits the pod that it has read.\<close>

lemma update_attempt_lacks:
  assumes K: "never_annotates K key lacks" and "lacks s" and "e \<noteq> None" and run: "update_attempt K (q, e) s = ((r, err), s')"
  shows "lacks s' \<and> (err = None \<longrightarrow> pod_Annotations r key = None)"
proof -
  obtain p1 e1 s1 where get: "kube_get_pod K (pod_Namespace q) (pod_Name q) s = ((p1, e1), s1)" by (metis surj_pair)
  have g: "lacks s1" "e1 = None \<longrightarrow> pod_Annotations p1 key = None"
    using never_annotatesD(1) [OF K \<open>lacks s\<close> get] by simp_all
  show ?thesis
  proof (cases e1)
    case (Some x)
    then show ?thesis using run get g \<open>e \<noteq> None\<close> by (auto simp: update_attempt_def)
  next
    case None
    then have "kube_update_status K p1 s1 = ((r, err), s')" using run get \<open>e \<noteq> None\<close> by (auto simp: update_attempt_def)
    then show ?thesis using never_annotatesD(2) [OF K g(1)] g(2) None by simp
  qed
qed

lemma retry_lacks:
  assumes K: "never_annotates K key lacks"
  shows "lacks s \<Longrightarrow> e \<noteq> None \<Longrightarrow> retry_on_conflict K n (q, e) s = ((r, err), s') \<Longrightarrow>
    lacks s' \<and> (err = None \<longrightarrow> pod_Annotations r key = None)"
proof (induction n arbitrary: q e s)
  case (Suc n)
  obtain r1 e1 s1 where a: "update_attempt K (q, e) s = ((r1, e1), s1)" by (metis surj_pair)
  note l = update_attempt_lacks [OF K Suc.prems(1,2) a]
  show ?case
  proof (cases "e1 = None \<or> \<not> kube_is_conflict K (the e1)")
    case True
    then show ?thesis using Suc.prems(3) a l by (auto split: option.splits)
  next
    case False
    then have "retry_on_conflict K n (r1, e1) s1 = ((r, err), s')" using Suc.prems(3) a by (auto split: option.splits)
    then show ?thesis using Suc.IH [of s1 e1 r1] l False by simp
  qed
qed auto

text \<open>
  C26: A failed first attempt loses the annotation. When the first status update with the modified pod fails,
  with a conflict or otherwise, on a server that does not have the annotation, then \<open>WritePodAnnotation\<close>
  never submits the annotation again: at the end the server still lacks it, and if the call reports
  success, after a retry, the pod that it returns lacks it, too. This holds whatever object the client
  library returns with the error.
\<close>

theorem conflict_loses_annotation:
  assumes "never_annotates K key lacks" and "kube_update_status K p s = ((q, Some e), s1)" and "lacks s1"
    and "0 < kube_retry_steps K" and "k8s_WritePodAnnotation K True (Some p) s = ((p', err), s')"
  shows "lacks s' \<and> (err = None \<longrightarrow> (\<exists>r. p' = Some r \<and> pod_Annotations r key = None))"
proof -
  obtain n where n: "kube_retry_steps K = Suc n" using assms(4) gr0_implies_Suc by blast
  have first: "update_attempt K (p, None) s = ((q, Some e), s1)" using assms(2) by (simp add: update_attempt_def)
  show ?thesis
  proof (cases "kube_is_conflict K e")
    case False
    then show ?thesis using assms(3,5) n first by (auto simp: k8s_WritePodAnnotation_def)
  next
    case True
    obtain r e1 s2 where r: "retry_on_conflict K n (q, Some e) s1 = ((r, e1), s2)" by (metis surj_pair)
    from retry_lacks [OF assms(1,3) _ r] show ?thesis
      using assms(5) n first True r by (auto simp: k8s_WritePodAnnotation_def split: option.splits)
  qed
qed

definition bare_pod :: Pod where
  "bare_pod = \<lparr>pod_Name = ''app'', pod_Namespace = ''default'', pod_UID = ''u1'', pod_Annotations = (\<lambda>_. None),
     pod_Volumes = [], pod_Containers = []\<rparr>"

text \<open>
  A server that keeps one pod and refuses the first update, behind a client library that returns with
  the error the pod that was submitted, or an empty one; a pod without a name cannot be read.
\<close>

definition busy_server :: "bool \<Rightarrow> (Pod \<times> bool) kube_api" where
  "busy_server echo = \<lparr>kube_get_pod = (\<lambda>ns n s. ((fst s, if n = [] then Some (EKube ''resource name may not be empty'') else None), s)),
     kube_update_status = (\<lambda>p s. if snd s then ((if echo then p else bare_pod\<lparr>pod_Name := [], pod_Namespace := []\<rparr>,
       Some (EKube ''conflict'')), (fst s, False)) else ((p, None), (p, False))),
     kube_is_conflict = (\<lambda>e. e = EKube ''conflict''), kube_retry_steps = 4,
     kube_list_pods = (\<lambda>n s. (Inr [fst s], s)), kube_get_nad = (\<lambda>ns n s. (Inl (EKube ''not found''), s)),
     kube_load_args = (\<lambda>s. Inl (EMsg ''no args'')), kube_config_ok = (\<lambda>s. None), kube_in_cluster = False,
     kube_in_cluster_err = None\<rparr>"

theorem conflict_loses_annotation_witness:
  "let p = bare_pod\<lparr>pod_Annotations := [''userspace/mapped-dir'' \<mapsto> ''/d'']\<rparr>;
       named = k8s_WritePodAnnotation (busy_server True) True (Some p) (bare_pod, True);
       empty = k8s_WritePodAnnotation (busy_server False) True (Some p) (bare_pod, True)
   in snd (fst named) = None \<and> pod_Annotations (fst (snd named)) ''userspace/mapped-dir'' = None \<and>
      snd (fst empty) \<noteq> None \<and> pod_Annotations (fst (snd empty)) ''userspace/mapped-dir'' = None"
proof -
  let ?p = "bare_pod\<lparr>pod_Annotations := [''userspace/mapped-dir'' \<mapsto> ''/d'']\<rparr>"
  let ?lacks = "\<lambda>s :: Pod \<times> bool. pod_Annotations (fst s) ''userspace/mapped-dir'' = None"
  let ?run = "\<lambda>echo. k8s_WritePodAnnotation (busy_server echo) True (Some ?p) (bare_pod, True)"
  have laws: "never_annotates (busy_server echo) ''userspace/mapped-dir'' ?lacks" for echo
    by (simp add: never_annotates_def busy_server_def)
  have steps: "0 < kube_retry_steps (busy_server echo)" for echo by (simp add: busy_server_def)
  have first: "\<exists>q. kube_update_status (busy_server echo) ?p (bare_pod, True) = ((q, Some (EKube ''conflict'')), (bare_pod, False))"
    for echo by (simp add: busy_server_def)
  have lost: "?lacks (snd (?run echo))" for echo
  proof -
    obtain q where q: "kube_update_status (busy_server echo) ?p (bare_pod, True) = ((q, Some (EKube ''conflict'')), (bare_pod, False))"
      using first by blast
    have bare: "?lacks (bare_pod, False)" by (simp add: bare_pod_def)
    have run: "?run echo = ((fst (fst (?run echo)), snd (fst (?run echo))), snd (?run echo))" by simp
    show ?thesis using conflict_loses_annotation [OF laws q bare steps run] by (rule conjunct1)
  qed
  have "snd (fst (?run True)) = None" "snd (fst (?run False)) \<noteq> None" by code_simp+
  with lost show ?thesis by (simp add: Let_def)
qed

end
