(* ===== verification/Annotations.thy ===== *)
theory Annotations
  imports K8sclient
begin

text \<open>
  The pod annotations of \<open>pkg/annotations/annotations.go\<close>: where the shared directory of a pod is, and
  the two annotations by which the plugin tells the container its configuration. The file form that a
  container reads (\<open>logfmt\<close>) is a parameter, because its decoder is a third-party package.

  The configuration-data annotation is a JSON list that grows by one entry per interface. The code
  strips the brackets of the old text and joins texts with commas; the lemmas show that this text
  always decodes to the list of all entries in the order in which they were added.
\<close>

section \<open>Constants\<close>

definition AnnotKeyUsrspConfigData :: string where
  "AnnotKeyUsrspConfigData = ''userspace/configuration-data''"

definition AnnotKeyUsrspMappedDir :: string where
  "AnnotKeyUsrspMappedDir = ''userspace/mapped-dir''"

definition volMntKeySharedDir :: string where
  "volMntKeySharedDir = ''shared-dir''"

definition DefaultBaseCNIDir :: string where
  "DefaultBaseCNIDir = ''/var/lib/cni/usrspcni''"

definition DefaultLocalCNIDir :: string where
  "DefaultLocalCNIDir = ''/var/lib/cni/usrspcni/data''"

definition DefaultHostkubeletPodBaseDir :: string where
  "DefaultHostkubeletPodBaseDir = ''/var/lib/kubelet/pods/''"

definition DefaultHostEmptyDirVolumeName :: string where
  "DefaultHostEmptyDirVolumeName = ''volumes/kubernetes.io~empty-dir/''"

definition NoPodProvidedError :: go_error where
  "NoPodProvidedError = EMsg ''Error: Pod not provided.''"

definition NoSharedDirProvidedError :: "string \<Rightarrow> go_error" where
  "NoSharedDirProvidedError msg = EMsg msg"

definition NoKubeClientProvidedError :: go_error where
  "NoKubeClientProvidedError = EMsg ''Error: KubeClient not provided.''"

section \<open>The shared directory\<close>

definition GetPodVolumeMountHostSharedDir :: "Pod option \<Rightarrow> string result" where
  "GetPodVolumeMountHostSharedDir pod =
     (case pod of
        None \<Rightarrow> Inl NoPodProvidedError
      | Some p \<Rightarrow>
          if pod_Volumes p = [] then
            Inl (NoSharedDirProvidedError ''Error: No Volumes. Need shared-dir in podSpec Volumes'')
          else
            (case find (\<lambda>v. vol_Name v = volMntKeySharedDir) (pod_Volumes p) of
               None \<Rightarrow> Inl (NoSharedDirProvidedError ''Error: No shared-dir. Need shared-dir in podSpec Volumes'')
             | Some v \<Rightarrow>
                 (case vol_HostPath v of
                    Some path \<Rightarrow>
                      if path = [] then
                        Inl (NoSharedDirProvidedError ''Error: No shared-dir. Need shared-dir in podSpec Volumes'')
                      else Inr path
                  | None \<Rightarrow>
                      if vol_EmptyDir v then
                        Inr (DefaultHostkubeletPodBaseDir @ pod_UID p @ ''/'' @ DefaultHostEmptyDirVolumeName
                             @ volMntKeySharedDir)
                      else Inl (NoSharedDirProvidedError ''Error: Volume is invalid''))))"

text \<open>
  The \<open>break\<close> leaves the loop over the mounts of one container, not the loop over the containers: the
  last container with such a mount decides.
\<close>

definition getPodVolumeMountHostMappedSharedDir :: "Pod option \<Rightarrow> string result" where
  "getPodVolumeMountHostMappedSharedDir pod =
     (case pod of
        None \<Rightarrow> Inl NoPodProvidedError
      | Some p \<Rightarrow>
          if pod_Containers p = [] then
            Inl (NoSharedDirProvidedError ''Error: No Containers. Need shared-dir in podSpec Volumes'')
          else
            (let dir = foldl (\<lambda>dir c. case find (\<lambda>m. fst m = volMntKeySharedDir) (VolumeMounts c) of
                                   None \<Rightarrow> dir | Some m \<Rightarrow> snd m) [] (pod_Containers p)
             in if dir = [] then
                  Inl (NoSharedDirProvidedError ''Error: No mapped shared-dir. Need shared-dir in podSpec Volumes'')
                else Inr dir))"

section \<open>Setting the annotations\<close>

definition set_annotation :: "Pod \<Rightarrow> string \<Rightarrow> string \<Rightarrow> Pod" where
  "set_annotation p k s = p\<lparr>pod_Annotations := (pod_Annotations p)(k \<mapsto> s)\<rparr>"

text \<open>What the setters return: whether the pod was modified, or an error; and the pod.\<close>

definition setPodAnnotationMappedDir :: "Pod option \<Rightarrow> string \<Rightarrow> bool result \<times> Pod option" where
  "setPodAnnotationMappedDir pod mappedDir =
     (case pod of
        None \<Rightarrow> (Inl NoPodProvidedError, None)
      | Some p \<Rightarrow>
          (let old = annotation p AnnotKeyUsrspMappedDir
           in if old \<noteq> [] then
                (if pathClean old = pathClean mappedDir then (Inr False, Some p)
                 else (Inl (EMsg ''SetPodAnnotationMappedDir: Input does not match existing''), Some p))
              else (Inr True, Some (set_annotation p AnnotKeyUsrspMappedDir mappedDir))))"

text \<open>The text of the configuration-data annotation after one more entry.\<close>

definition append_config :: "string \<Rightarrow> string \<Rightarrow> string" where
  "append_config old data =
     (let pieces = (if old \<noteq> [] then [trimRight (trimLeft old ''['') '']''] else [])
      in ''['' @ joinWith '','' (pieces @ [data]) @ '']'')"

definition setPodAnnotationConfigData ::
  "cni_lib \<Rightarrow> Pod option \<Rightarrow> ConfigurationData option \<Rightarrow> bool result \<times> Pod option" where
  "setPodAnnotationConfigData L pod configData =
     (case pod of
        None \<Rightarrow> (Inl NoPodProvidedError, None)
      | Some p \<Rightarrow>
          (case configData of
             None \<Rightarrow> (Inr False, Some p)
           | Some d \<Rightarrow>
               (Inr True, Some (set_annotation p AnnotKeyUsrspConfigData
                  (append_config (annotation p AnnotKeyUsrspConfigData)
                    (MarshalIndent (enc_ConfigurationData L d)))))))"

definition WritePodAnnotation ::
  "'k kube_api \<Rightarrow> cni_lib \<Rightarrow> bool \<Rightarrow> Pod option \<Rightarrow> ConfigurationData option \<Rightarrow> 'k \<Rightarrow>
   (Pod option \<times> go_error option) \<times> 'k" where
  "WritePodAnnotation K L client pod configData s =
     (if pod = None then ((pod, Some NoPodProvidedError), s)
      else if \<not> client then ((pod, Some NoKubeClientProvidedError), s)
      else
        (case setPodAnnotationConfigData L pod configData of
           (Inl e, pod1) \<Rightarrow> ((pod1, Some e), s)
         | (Inr modifiedConfig, pod1) \<Rightarrow>
             (let mappedSharedDir = (case getPodVolumeMountHostMappedSharedDir pod1 of
                                       Inl _ \<Rightarrow> DefaultBaseCNIDir | Inr dir \<Rightarrow> dir)
              in (case setPodAnnotationMappedDir pod1 mappedSharedDir of
                    (Inl e, pod2) \<Rightarrow> ((pod2, Some e), s)
                  | (Inr modifiedMappedDir, pod2) \<Rightarrow>
                      if modifiedConfig \<or> modifiedMappedDir then k8s_WritePodAnnotation K client pod2 s
                      else ((pod2, None), s)))))"

section \<open>Reading the annotations in a container\<close>

text \<open>\<open>logfmt\<close> decodes a file into the pairs of key and value of its records, up to the first error.\<close>

definition getFileAnnotation :: "(string \<Rightarrow> (string \<times> string) list) \<Rightarrow> fs \<Rightarrow> string \<Rightarrow> string \<Rightarrow> string result" where
  "getFileAnnotation logfmt f annotFile annotIndex =
     (case os_ReadFile f annotFile of
        Inl e \<Rightarrow> Inl (EWrap (''error reading '' @ annotFile) (EFs e))
      | Inr fileData \<Rightarrow>
          (case find (\<lambda>kv. fst kv = annotIndex) (logfmt fileData) of
             None \<Rightarrow> Inl (EMsg (''ERROR: '' @ annotIndex @ '' missing from pod annotation''))
           | Some kv \<Rightarrow> Inr (snd kv)))"

definition GetFileAnnotationMappedDir :: "(string \<Rightarrow> (string \<times> string) list) \<Rightarrow> fs \<Rightarrow> string \<Rightarrow> string result" where
  "GetFileAnnotationMappedDir logfmt f annotFile = getFileAnnotation logfmt f annotFile AnnotKeyUsrspMappedDir"

definition GetFileAnnotationConfigData ::
  "(string \<Rightarrow> (string \<times> string) list) \<Rightarrow> cni_lib \<Rightarrow> fs \<Rightarrow> string \<Rightarrow> (ConfigurationData option list) result" where
  "GetFileAnnotationConfigData logfmt L f annotFile =
     (case getFileAnnotation logfmt f annotFile AnnotKeyUsrspConfigData of
        Inl e \<Rightarrow> Inl e
      | Inr raw \<Rightarrow>
          if \<exists>c\<in>set raw. c = CHR ''['' \<or> c = CHR ''{'' \<or> c = CHR 0x22 then
            (case Unmarshal_ConfigData_ptrs L raw of
               Inl e \<Rightarrow> Inl (EWrap ''GetFileAnnotationConfigData: Failed to parse ConfigData'' e)
             | Inr ds \<Rightarrow> Inr ds)
          else Inl (EMsg ''GetFileAnnotationConfigData: Invalid formatted JSON data''))"

section \<open>The annotation holds every entry\<close>

text \<open>The entries that a parameter's encoding of IP results supports.\<close>

definition entry_ok :: "cni_lib \<Rightarrow> ConfigurationData \<Rightarrow> bool" where
  "entry_ok L d \<longleftrightarrow> conf_ok (cd_Config d) \<and> json_ok (lib_enc_result L (cd_IPResult d)) \<and>
     lib_dec_result L (lib_enc_result L (cd_IPResult d)) zero_Result = Inr (cd_IPResult d)"

definition config_text :: "cni_lib \<Rightarrow> ConfigurationData list \<Rightarrow> string" where
  "config_text L ds = ''['' @ joinWith '','' (map (\<lambda>d. MarshalIndent (enc_ConfigurationData L d)) ds) @ '']''"

lemma MarshalIndent_entry: "\<exists>body. MarshalIndent (enc_ConfigurationData L d) = CHR ''{'' # body @ ''}''"
  by (simp add: MarshalIndent_def enc_ConfigurationData_def)

lemma joinWith_wrapped:
  "xs \<noteq> [] \<Longrightarrow> \<forall>x\<in>set xs. \<exists>body. x = a # body @ [b] \<Longrightarrow> \<exists>body. joinWith sep xs = a # body @ [b]"
proof (induction xs)
  case (Cons x xs)
  then obtain body where x: "x = a # body @ [b]" by auto
  show ?case
  proof (cases "xs = []")
    case False
    with Cons obtain rest where "joinWith sep xs = a # rest @ [b]" by auto
    with False x show ?thesis by (intro exI [of _ "body @ [b] @ sep @ a # rest"]) (simp add: joinWith_Cons)
  qed (simp add: x)
qed simp

lemma trim_brackets:
  assumes "x = CHR ''{'' # body @ ''}''"
  shows "trimRight (trimLeft (''['' @ x @ '']'') ''['') '']'' = x"
  using assms by (simp add: trimLeft_def trimRight_def)

lemma append_config_text:
  "append_config (if ds = [] then [] else config_text L ds) (MarshalIndent (enc_ConfigurationData L d)) =
     config_text L (ds @ [d])"
proof (cases "ds = []")
  case True
  then show ?thesis by (simp add: append_config_def config_text_def)
next
  case False
  let ?x = "joinWith '','' (map (\<lambda>d. MarshalIndent (enc_ConfigurationData L d)) ds)"
  obtain body where "?x = CHR ''{'' # body @ ''}''"
    using joinWith_wrapped [of "map (\<lambda>d. MarshalIndent (enc_ConfigurationData L d)) ds"] False MarshalIndent_entry
    by fastforce
  then have "trimRight (trimLeft (config_text L ds) ''['') '']'' = ?x"
    unfolding config_text_def by (rule trim_brackets)
  moreover have "config_text L ds \<noteq> []" by (simp add: config_text_def)
  ultimately show ?thesis
    using False by (simp add: append_config_def config_text_def joinWith_snoc)
qed

lemma json_parse_config_text:
  assumes "\<forall>d\<in>set ds. entry_ok L d"
  shows "json_parse (config_text L ds) = Some (JArr (map (enc_ConfigurationData L) ds))"
proof -
  have "lexes (MarshalIndent (enc_ConfigurationData L d)) (toks (enc_ConfigurationData L d))" if "d \<in> set ds" for d
    unfolding MarshalIndent_def using that assms json_ok_enc_ConfigurationData [of L d]
    by (intro lexes_jprint) (auto simp: entry_ok_def list_all_iff)
  then have "lexes (joinWith '','' (map (\<lambda>d. MarshalIndent (enc_ConfigurationData L d)) ds))
      (joinWith [TComma] (map (\<lambda>d. toks (enc_ConfigurationData L d)) ds))"
    by (intro lexes_list) auto
  from lexes_brackets [OF this _ _ lex_symbol(3,4) stop_symbol(3), of "[]" "[]"]
  have "lexes (config_text L ds) (toks (JArr (map (enc_ConfigurationData L) ds)))"
    by (simp add: config_text_def o_def)
  then have "json_lex (config_text L ds @ []) =
      map_option (append (toks (JArr (map (enc_ConfigurationData L) ds)))) (json_lex [])"
    by (intro lexesD) simp_all
  moreover have "json_lex [] = Some []" by (subst json_lex.simps) simp
  ultimately have "json_lex (config_text L ds) = Some (toks (JArr (map (enc_ConfigurationData L) ds)))" by simp
  then show ?thesis by (simp only: json_parse_iff)
qed

lemma dec_entries:
  "\<forall>d\<in>set ds. entry_ok L d \<Longrightarrow>
   dec_elems (dec_struct (configdata_fields L)) zero_ConfigurationData (map (enc_ConfigurationData L) ds) = Inr ds"
  by (induction ds) (auto simp: entry_ok_def dec_enc_ConfigurationData simp del: dec_struct.simps)

lemma dec_entry_ptrs:
  "\<forall>d\<in>set ds. entry_ok L d \<Longrightarrow>
   dec_elems (dec_ptr (dec_struct (configdata_fields L)) zero_ConfigurationData) None
     (map (enc_ConfigurationData L) ds) = Inr (map Some ds)"
proof (induction ds)
  case (Cons d ds)
  have "enc_ConfigurationData L d \<noteq> JNull" by (simp add: enc_ConfigurationData_def)
  with Cons show ?case
    by (simp add: dec_ptr_def entry_ok_def dec_enc_ConfigurationData del: dec_struct.simps)
qed simp

lemma Unmarshal_config_text:
  assumes "\<forall>d\<in>set ds. entry_ok L d"
  shows "Unmarshal_ConfigData L (config_text L ds) = Inr ds"
    and "Unmarshal_ConfigData_ptrs L (config_text L ds) = Inr (map Some ds)"
  using dec_entries [OF assms] dec_entry_ptrs [OF assms]
  by (simp_all add: Unmarshal_ConfigData_def Unmarshal_ConfigData_ptrs_def Unmarshal_def
      json_parse_config_text [OF assms])

section \<open>Properties\<close>

lemma setPodAnnotationConfigData_text:
  assumes "pod_Annotations p AnnotKeyUsrspConfigData = (if ds = [] then None else Some (config_text L ds))"
  shows "setPodAnnotationConfigData L (Some p) (Some d) =
    (Inr True, Some (set_annotation p AnnotKeyUsrspConfigData (config_text L (ds @ [d]))))"
  using assms append_config_text [of ds L d] by (auto simp: setPodAnnotationConfigData_def annotation_def)

lemma foldl_set_config:
  assumes "pod_Annotations p AnnotKeyUsrspConfigData = (if ds = [] then None else Some (config_text L ds))"
  shows "\<exists>p'. foldl (\<lambda>q d. snd (setPodAnnotationConfigData L q (Some d))) (Some p) es = Some p' \<and>
    pod_Annotations p' AnnotKeyUsrspConfigData =
      (if ds @ es = [] then None else Some (config_text L (ds @ es)))"
  using assms
proof (induction es arbitrary: p ds)
  case (Cons e es)
  let ?q = "set_annotation p AnnotKeyUsrspConfigData (config_text L (ds @ [e]))"
  have "pod_Annotations ?q AnnotKeyUsrspConfigData = (if ds @ [e] = [] then None else Some (config_text L (ds @ [e])))"
    by (simp add: set_annotation_def)
  from Cons.IH [OF this] show ?case by (simp add: setPodAnnotationConfigData_text [OF Cons.prems])
qed simp

text \<open>
  C25: The configuration-data annotation holds every interface. When the plugin has added the entries of
  a pod one by one (each time the old text loses its brackets and the new entry is joined to it), the
  annotation is a JSON text that decodes to exactly these entries, in order.
\<close>

theorem config_annotation_accumulates:
  assumes "pod_Annotations p AnnotKeyUsrspConfigData = None" and "ds \<noteq> []" and "\<forall>d\<in>set ds. entry_ok L d"
  shows "\<exists>p'. foldl (\<lambda>q d. snd (setPodAnnotationConfigData L q (Some d))) (Some p) ds = Some p' \<and>
    Unmarshal_ConfigData L (annotation p' AnnotKeyUsrspConfigData) = Inr ds"
  using foldl_set_config [of p "[]" L ds] assms Unmarshal_config_text(1) [OF assms(3)]
  by (auto simp: annotation_def)

text \<open>A stand-in for the CNI library, for the examples: it encodes the empty result only.\<close>

definition sample_lib :: cni_lib where
  "sample_lib = \<lparr>lib_netconf_fields = [], lib_enc_result = (\<lambda>r. JObj []), lib_dec_result = (\<lambda>v old. Inr zero_Result)\<rparr>"

definition sample_pod :: Pod where
  "sample_pod = \<lparr>pod_Name = ''app'', pod_Namespace = ''default'', pod_UID = ''u1'', pod_Annotations = (\<lambda>_. None),
     pod_Volumes = [\<lparr>vol_Name = ''shared-dir'', vol_HostPath = Some ''/run/vpp'', vol_EmptyDir = False\<rparr>],
     pod_Containers = [\<lparr>VolumeMounts = [(''shared-dir'', ''/var/run/vpp'')]\<rparr>]\<rparr>"

definition sample_entry :: "string \<Rightarrow> ConfigurationData" where
  "sample_entry ifname = \<lparr>cd_ContainerId = ''0123456789abcdef'', cd_IfName = ifname, cd_Name = ''net<1>'',
     cd_Config = zero_UserSpaceConf\<lparr>IfType := ''memif'', MTU := 1500\<rparr>, cd_IPResult = zero_Result\<rparr>"

lemma sample_entry_ok: "entry_ok sample_lib (sample_entry ifname)"
  by (simp add: entry_ok_def sample_lib_def sample_entry_def conf_ok_def zero_defs int64_def)

theorem config_annotation_accumulates_witness:
  "\<exists>p'. foldl (\<lambda>q d. snd (setPodAnnotationConfigData sample_lib q (Some d))) (Some sample_pod)
       [sample_entry ''net1'', sample_entry ''net2''] = Some p' \<and>
     Unmarshal_ConfigData sample_lib (annotation p' AnnotKeyUsrspConfigData) =
       Inr [sample_entry ''net1'', sample_entry ''net2'']"
  by (rule config_annotation_accumulates) (simp_all add: sample_pod_def sample_entry_ok)

text \<open>
  The mapped-directory annotation is written once and then only compared: setting it again to the
  same directory, up to \<open>filepath.Clean\<close>, changes nothing, and setting it to another directory is an
  error that leaves the pod as it was.
\<close>

theorem mapped_dir_stable:
  assumes "annotation p AnnotKeyUsrspMappedDir = []" and "dir \<noteq> []"
    and "setPodAnnotationMappedDir (Some p) dir = (r, Some p')"
  shows "r = Inr True \<and> annotation p' AnnotKeyUsrspMappedDir = dir \<and>
    setPodAnnotationMappedDir (Some p') dir2 =
      (if pathClean dir = pathClean dir2 then Inr False
       else Inl (EMsg ''SetPodAnnotationMappedDir: Input does not match existing''), Some p')"
  using assms by (auto simp: setPodAnnotationMappedDir_def set_annotation_def annotation_def)

theorem mapped_dir_stable_witness:
  "\<exists>p'. setPodAnnotationMappedDir (Some sample_pod) ''/var/run/vpp'' = (Inr True, Some p') \<and>
     setPodAnnotationMappedDir (Some p') ''/var/run//vpp/'' = (Inr False, Some p')"
proof -
  have e: "annotation sample_pod AnnotKeyUsrspMappedDir = []" by (simp add: annotation_def sample_pod_def)
  then have "\<exists>p'. setPodAnnotationMappedDir (Some sample_pod) ''/var/run/vpp'' = (Inr True, Some p')"
    by (simp add: setPodAnnotationMappedDir_def)
  then obtain p' where p': "setPodAnnotationMappedDir (Some sample_pod) ''/var/run/vpp'' = (Inr True, Some p')" by blast
  have "pathClean ''/var/run/vpp'' = pathClean ''/var/run//vpp/''" by code_simp
  with mapped_dir_stable [OF e _ p', of "''/var/run//vpp/''"] p' show ?thesis by simp
qed

end
