(* ===== verification/Vpp_Channel.thy ===== *)
theory Vpp_Channel
  imports Conf_Types
begin

text \<open>
  The VPP binary API as the sources use it through govpp. VPP and govpp are not part of the
  repository, so the API channel is a parameter: a record \<open>V\<close> of the requests over a state type
  \<open>'v\<close> that the model knows nothing about. A request either returns its reply or an error; a dump
  (\<open>SendMultiRequest\<close>) is the finite stream of what \<open>ReceiveReply\<close> delivers until it reports the
  last reply, each element a reply or an error.

  The locale \<open>vpp_channel\<close> states what the code relies on: the memif tables that VPP documents
  (creating an interface adds one row with a fresh index, deleting removes it, a failed request
  changes no row, requests on other tables leave the memif tables alone). A sample implementation of
  the API at the end shows that the laws can hold together.
\<close>

section \<open>Messages\<close>

text \<open>\<open>memif.MemifDetails\<close> and \<open>memif.MemifSocketFilenameDetails\<close>, with the fields that are read.\<close>

record memif_details =
  det_SwIfIndex :: u32
  det_ID :: u32
  det_SocketID :: u32
  det_Role :: u32
  det_Mode :: u32

record socket_details =
  sd_SocketID :: u32
  sd_SocketFilename :: string

text \<open>\<open>memif.MemifCreateV2\<close>.\<close>

record memif_create_req =
  rq_Role :: u32
  rq_Mode :: u32
  rq_RxQueues :: u8
  rq_TxQueues :: u8
  rq_ID :: u32
  rq_SocketID :: u32
  rq_RingSize :: u32
  rq_BufferSize :: u16
  rq_NoZeroCopy :: bool
  rq_UseDma :: bool
  rq_Secret :: string
  rq_HwAddr :: "u8 list"

text \<open>\<open>vhost_user.CreateVhostUserIfV2\<close>.\<close>

record vhost_create_req =
  vr_IsServer :: bool
  vr_SockFilename :: string
  vr_EnableGso :: bool
  vr_EnablePacked :: bool
  vr_EnableEventIdx :: bool
  vr_UseCustomMac :: bool
  vr_MacAddress :: "u8 list"

text \<open>\<open>l2.BridgeDomainDetails\<close>: the number of ports, and the ports.\<close>

record bd_details =
  bd_NSwIfs :: u32
  bd_SwIfs :: "u32 list"

text \<open>\<open>ip_types.AddressWithPrefix\<close>.\<close>

record addr_prefix =
  ap_Address :: "u8 list"
  ap_Len :: u8

section \<open>The channel\<close>

record 'v vpp_api =
  vpp_memif_dump :: "'v \<Rightarrow> memif_details result list"
  vpp_socket_dump :: "'v \<Rightarrow> socket_details result list"
  vpp_memif_create :: "memif_create_req \<Rightarrow> 'v \<Rightarrow> u32 result \<times> 'v"
  vpp_memif_delete :: "u32 \<Rightarrow> 'v \<Rightarrow> go_error option \<times> 'v"
  vpp_socket_add_del :: "bool \<Rightarrow> u32 \<Rightarrow> string \<Rightarrow> 'v \<Rightarrow> go_error option \<times> 'v"
  vpp_set_flags :: "u32 \<Rightarrow> u32 \<Rightarrow> 'v \<Rightarrow> go_error option \<times> 'v"
  vpp_set_mtu :: "u32 \<Rightarrow> u32 list \<Rightarrow> 'v \<Rightarrow> go_error option \<times> 'v"
  vpp_add_del_address :: "u32 \<Rightarrow> bool \<Rightarrow> addr_prefix \<Rightarrow> 'v \<Rightarrow> go_error option \<times> 'v"
  vpp_bd_dump :: "u32 \<Rightarrow> u32 \<Rightarrow> 'v \<Rightarrow> bd_details result list"
  vpp_bd_add_del :: "u32 \<Rightarrow> bool \<Rightarrow> 'v \<Rightarrow> go_error option \<times> 'v"
  vpp_set_l2_bridge :: "u32 \<Rightarrow> u32 \<Rightarrow> bool \<Rightarrow> 'v \<Rightarrow> go_error option \<times> 'v"
  vpp_vhost_create :: "vhost_create_req \<Rightarrow> 'v \<Rightarrow> u32 result \<times> 'v"
  vpp_vhost_delete :: "u32 \<Rightarrow> 'v \<Rightarrow> go_error option \<times> 'v"
  vpp_parse_mac :: "string \<Rightarrow> (u8 list) result"

text \<open>The state that a call on a node changes: VPP, the file system, and the clock.\<close>

record 'v world =
  vst :: 'v
  fsys :: fs
  clock :: nat

text \<open>A request through the channel, on the world.\<close>

definition on_vpp :: "('v \<Rightarrow> 'a \<times> 'v) \<Rightarrow> ('v, 'm) world_scheme \<Rightarrow> 'a \<times> ('v, 'm) world_scheme" where
  "on_vpp req w = (case req (vst w) of (r, v) \<Rightarrow> (r, w\<lparr>vst := v\<rparr>))"

definition on_fs :: "(fs \<Rightarrow> 'a \<times> fs) \<Rightarrow> ('v, 'm) world_scheme \<Rightarrow> 'a \<times> ('v, 'm) world_scheme" where
  "on_fs call w = (case call (fsys w) of (r, f) \<Rightarrow> (r, w\<lparr>fsys := f\<rparr>))"

lemma on_vpp_frame:
  "on_vpp req w = (r, w') \<Longrightarrow> req (vst w) = (r, vst w') \<and> fsys w' = fsys w \<and> clock w' = clock w"
  by (auto simp: on_vpp_def split: prod.splits)

lemma on_fs_frame:
  "on_fs call w = (r, w') \<Longrightarrow> call (fsys w) = (r, fsys w') \<and> vst w' = vst w \<and> clock w' = clock w"
  by (auto simp: on_fs_def split: prod.splits)

section \<open>The memif tables\<close>

text \<open>The replies of a stream, and a stream without an error.\<close>

definition rights :: "'a result list \<Rightarrow> 'a list" where
  "rights xs = [y. Inr y \<leftarrow> xs]"

definition clean_stream :: "'a result list \<Rightarrow> bool" where
  "clean_stream xs \<longleftrightarrow> (\<forall>x\<in>set xs. \<not> isl x)"

lemma rights_simps [simp]:
  "rights [] = []" "rights (Inl e # xs) = rights xs" "rights (Inr y # xs) = y # rights xs"
  by (simp_all add: rights_def)

lemma clean_stream_simps [simp]:
  "clean_stream []" "\<not> clean_stream (Inl e # xs)" "clean_stream (Inr y # xs) = clean_stream xs"
  by (simp_all add: clean_stream_def)

lemma clean_stream_rights: "clean_stream xs \<Longrightarrow> xs = map Inr (rights xs)"
proof (induction xs)
  case (Cons x xs)
  then show ?case by (cases x) auto
qed simp

lemma rights_map_Inr [simp]: "rights (map Inr ys) = ys"
  by (induction ys) auto

lemma clean_stream_map_Inr [simp]: "clean_stream (map Inr ys)"
  by (simp add: clean_stream_def)

definition memifs :: "('v, 'x) vpp_api_scheme \<Rightarrow> 'v \<Rightarrow> memif_details list" where
  "memifs V v = rights (vpp_memif_dump V v)"

definition socks :: "('v, 'x) vpp_api_scheme \<Rightarrow> 'v \<Rightarrow> socket_details list" where
  "socks V v = rights (vpp_socket_dump V v)"

text \<open>
  What the dumps of a running VPP look like: no errors; interface indices, socket ids and socket
  files are unique; every memif uses a registered socket; socket ids remain available; a file name
  is decoded up to its terminating zero byte.
\<close>

definition vpp_wf :: "('v, 'x) vpp_api_scheme \<Rightarrow> 'v \<Rightarrow> bool" where
  "vpp_wf V v \<longleftrightarrow>
     clean_stream (vpp_memif_dump V v) \<and> clean_stream (vpp_socket_dump V v) \<and>
     distinct (map det_SwIfIndex (memifs V v)) \<and>
     distinct (map sd_SocketID (socks V v)) \<and> distinct (map sd_SocketFilename (socks V v)) \<and>
     det_SocketID ` set (memifs V v) \<subseteq> sd_SocketID ` set (socks V v) \<and>
     length (socks V v) < 2 ^ 32 - 1 \<and> length (memifs V v) < 2 ^ 32 \<and>
     (\<forall>d\<in>set (socks V v). trimRight (sd_SocketFilename d) [CHR 0x00] = sd_SocketFilename d)"

text \<open>A request that leaves both memif tables as they are.\<close>

definition same_memif :: "('v, 'x) vpp_api_scheme \<Rightarrow> 'v \<Rightarrow> 'v \<Rightarrow> bool" where
  "same_memif V v v' \<longleftrightarrow>
     set (memifs V v') = set (memifs V v) \<and> set (socks V v') = set (socks V v)"

lemma same_memif_refl [simp, intro]: "same_memif V v v"
  by (simp add: same_memif_def)

lemma same_memif_trans [trans]: "same_memif V u v \<Longrightarrow> same_memif V v w \<Longrightarrow> same_memif V u w"
  by (simp add: same_memif_def)

definition details_of :: "memif_create_req \<Rightarrow> u32 \<Rightarrow> memif_details" where
  "details_of r i = \<lparr>det_SwIfIndex = i, det_ID = rq_ID r, det_SocketID = rq_SocketID r,
     det_Role = rq_Role r, det_Mode = rq_Mode r\<rparr>"

locale vpp_channel =
  fixes V :: "'v vpp_api" and vinv :: "'v \<Rightarrow> bool"
  assumes inv_wf: "vinv v \<Longrightarrow> vpp_wf V v"
    and memif_create_ok: "vinv v \<Longrightarrow> vpp_memif_create V r v = (Inr i, v') \<Longrightarrow>
      vinv v' \<and> set (memifs V v') = insert (details_of r i) (set (memifs V v)) \<and>
      i \<notin> det_SwIfIndex ` set (memifs V v) \<and> set (socks V v') = set (socks V v)"
    and memif_create_err: "vinv v \<Longrightarrow> vpp_memif_create V r v = (Inl e, v') \<Longrightarrow>
      vinv v' \<and> same_memif V v v'"
    and memif_delete_ok: "vinv v \<Longrightarrow> vpp_memif_delete V i v = (None, v') \<Longrightarrow>
      vinv v' \<and> set (memifs V v') = {d \<in> set (memifs V v). det_SwIfIndex d \<noteq> i} \<and>
      set (socks V v') = set (socks V v)"
    and memif_delete_err: "vinv v \<Longrightarrow> vpp_memif_delete V i v = (Some e, v') \<Longrightarrow>
      vinv v' \<and> same_memif V v v'"
    and socket_add_ok: "vinv v \<Longrightarrow> vpp_socket_add_del V True k f v = (None, v') \<Longrightarrow>
      vinv v' \<and> set (memifs V v') = set (memifs V v) \<and>
      set (socks V v') = insert \<lparr>sd_SocketID = k, sd_SocketFilename = f\<rparr> (set (socks V v))"
    and socket_del_ok: "vinv v \<Longrightarrow> vpp_socket_add_del V False k f v = (None, v') \<Longrightarrow>
      vinv v' \<and> set (memifs V v') = set (memifs V v) \<and>
      set (socks V v') = {d \<in> set (socks V v). sd_SocketID d \<noteq> k}"
    and socket_err: "vinv v \<Longrightarrow> vpp_socket_add_del V b k f v = (Some e, v') \<Longrightarrow>
      vinv v' \<and> same_memif V v v'"
    and set_flags_frame: "vinv v \<Longrightarrow> vpp_set_flags V i x v = (r1, v') \<Longrightarrow>
      vinv v' \<and> same_memif V v v'"
    and set_mtu_frame: "vinv v \<Longrightarrow> vpp_set_mtu V i xs v = (r1, v') \<Longrightarrow> vinv v' \<and> same_memif V v v'"
    and address_frame: "vinv v \<Longrightarrow> vpp_add_del_address V i b a v = (r1, v') \<Longrightarrow>
      vinv v' \<and> same_memif V v v'"
    and bd_frame: "vinv v \<Longrightarrow> vpp_bd_add_del V bd b v = (r1, v') \<Longrightarrow> vinv v' \<and> same_memif V v v'"
    and l2_frame: "vinv v \<Longrightarrow> vpp_set_l2_bridge V bd i b v = (r1, v') \<Longrightarrow>
      vinv v' \<and> same_memif V v v'"
    and vhost_create_frame: "vinv v \<Longrightarrow> vpp_vhost_create V q v = (r2, v') \<Longrightarrow>
      vinv v' \<and> same_memif V v v'"
    and vhost_delete_frame: "vinv v \<Longrightarrow> vpp_vhost_delete V i v = (r1, v') \<Longrightarrow>
      vinv v' \<and> same_memif V v v'"

end
