(* ===== verification/Vpp_Sample.thy ===== *)
theory Vpp_Sample
  imports Vpp_Channel
begin

text \<open>
  A sample implementation of the VPP binary API, over explicit tables of memif interfaces, memif
  sockets, bridge domains and vhost-user interfaces. It is no model of VPP; it shows that the laws of
  the locale \<open>vpp_channel\<close> can hold together, and the concrete examples run on it. It refuses a
  duplicate socket id or file, a memif on an unknown socket or with an id in use on its socket, and
  the deletion of an unknown interface or of a socket in use, and it holds a hundred entries a table.
\<close>

record sample =
  sp_memifs :: "memif_details list"
  sp_socks :: "socket_details list"
  sp_bds :: "(u32 \<times> u32 list) list"
  sp_vhosts :: "(u32 \<times> string) list"
  sp_next :: u32
  sp_calls :: nat

definition sample_empty :: sample where
  "sample_empty = \<lparr>sp_memifs = [], sp_socks = [\<lparr>sd_SocketID = 0, sd_SocketFilename = ''/run/vpp/memif.sock''\<rparr>],
     sp_bds = [], sp_vhosts = [], sp_next = 1, sp_calls = 0\<rparr>"

definition sample_create :: "memif_create_req \<Rightarrow> sample \<Rightarrow> u32 result \<times> sample" where
  "sample_create r v =
     (if rq_SocketID r \<notin> sd_SocketID ` set (sp_socks v) \<or>
         (\<exists>d\<in>set (sp_memifs v). det_SocketID d = rq_SocketID r \<and> det_ID d = rq_ID r) \<or>
         sp_next v \<in> det_SwIfIndex ` set (sp_memifs v) \<or>
         100 \<le> length (sp_memifs v)
      then (Inl (EVpp (-4)), v)
      else (Inr (sp_next v),
            v\<lparr>sp_memifs := sp_memifs v @ [details_of r (sp_next v)], sp_next := sp_next v + 1\<rparr>))"

definition sample_delete :: "u32 \<Rightarrow> sample \<Rightarrow> go_error option \<times> sample" where
  "sample_delete i v =
     (if i \<in> det_SwIfIndex ` set (sp_memifs v)
      then (None, v\<lparr>sp_memifs := filter (\<lambda>d. det_SwIfIndex d \<noteq> i) (sp_memifs v)\<rparr>)
      else (Some (EVpp (-2)), v))"

definition sample_socket :: "bool \<Rightarrow> u32 \<Rightarrow> string \<Rightarrow> sample \<Rightarrow> go_error option \<times> sample" where
  "sample_socket add k f v =
     (if add then
        (if k \<in> sd_SocketID ` set (sp_socks v) \<or> f \<in> sd_SocketFilename ` set (sp_socks v) \<or>
            100 \<le> length (sp_socks v) \<or> trimRight f [CHR 0x00] \<noteq> f
         then (Some (EVpp (-3)), v)
         else (None, v\<lparr>sp_socks := sp_socks v @ [\<lparr>sd_SocketID = k, sd_SocketFilename = f\<rparr>]\<rparr>))
      else
        (if k \<in> det_SocketID ` set (sp_memifs v) \<or> k \<notin> sd_SocketID ` set (sp_socks v)
         then (Some (EVpp (-5)), v)
         else (None, v\<lparr>sp_socks := filter (\<lambda>d. sd_SocketID d \<noteq> k) (sp_socks v)\<rparr>)))"

definition sample_bd_dump :: "u32 \<Rightarrow> u32 \<Rightarrow> sample \<Rightarrow> bd_details result list" where
  "sample_bd_dump bd i v =
     (case map_of (sp_bds v) bd of
        None \<Rightarrow> []
      | Some ports \<Rightarrow> [Inr \<lparr>bd_NSwIfs = of_nat (length ports), bd_SwIfs = ports\<rparr>])"

definition sample_bd :: "u32 \<Rightarrow> bool \<Rightarrow> sample \<Rightarrow> go_error option \<times> sample" where
  "sample_bd bd add v =
     (if add then (None, v\<lparr>sp_bds := (bd, []) # filter (\<lambda>x. fst x \<noteq> bd) (sp_bds v)\<rparr>)
      else if map_of (sp_bds v) bd = None then (Some (EVpp (-6)), v)
      else (None, v\<lparr>sp_bds := filter (\<lambda>x. fst x \<noteq> bd) (sp_bds v)\<rparr>))"

definition sample_l2 :: "u32 \<Rightarrow> u32 \<Rightarrow> bool \<Rightarrow> sample \<Rightarrow> go_error option \<times> sample" where
  "sample_l2 bd i enable v =
     (case map_of (sp_bds v) bd of
        None \<Rightarrow> (Some (EVpp (-7)), v)
      | Some ports \<Rightarrow>
          if 100 \<le> length ports then (Some (EVpp (-8)), v)
          else (None, v\<lparr>sp_bds := (bd, (if enable then i # removeAll i ports else removeAll i ports))
                    # filter (\<lambda>x. fst x \<noteq> bd) (sp_bds v)\<rparr>))"

definition sample_vhost_create :: "vhost_create_req \<Rightarrow> sample \<Rightarrow> u32 result \<times> sample" where
  "sample_vhost_create q v =
     (Inr (sp_next v), v\<lparr>sp_vhosts := (sp_next v, vr_SockFilename q) # sp_vhosts v, sp_next := sp_next v + 1\<rparr>)"

definition sample_vhost_delete :: "u32 \<Rightarrow> sample \<Rightarrow> go_error option \<times> sample" where
  "sample_vhost_delete i v =
     (if map_of (sp_vhosts v) i = None then (Some (EVpp (-2)), v)
      else (None, v\<lparr>sp_vhosts := filter (\<lambda>x. fst x \<noteq> i) (sp_vhosts v)\<rparr>))"

definition sample_ack :: "sample \<Rightarrow> go_error option \<times> sample" where
  "sample_ack v = (None, v\<lparr>sp_calls := Suc (sp_calls v)\<rparr>)"

definition sample_vpp :: "sample vpp_api" where
  "sample_vpp = \<lparr>
     vpp_memif_dump = (\<lambda>v. map Inr (sp_memifs v)),
     vpp_socket_dump = (\<lambda>v. map Inr (sp_socks v)),
     vpp_memif_create = sample_create, vpp_memif_delete = sample_delete,
     vpp_socket_add_del = sample_socket,
     vpp_set_flags = (\<lambda>i x. sample_ack), vpp_set_mtu = (\<lambda>i xs. sample_ack),
     vpp_add_del_address = (\<lambda>i b a. sample_ack),
     vpp_bd_dump = sample_bd_dump, vpp_bd_add_del = sample_bd, vpp_set_l2_bridge = sample_l2,
     vpp_vhost_create = sample_vhost_create, vpp_vhost_delete = sample_vhost_delete,
     vpp_parse_mac = (\<lambda>s. if length s = 17 then Inr [2, 0, 0, 0, 0, 1] else Inl (EMsg ''invalid MAC''))\<rparr>"

lemma sample_sel [simp]:
  "vpp_memif_dump sample_vpp v = map Inr (sp_memifs v)"
  "vpp_socket_dump sample_vpp v = map Inr (sp_socks v)"
  "vpp_memif_create sample_vpp = sample_create" "vpp_memif_delete sample_vpp = sample_delete"
  "vpp_socket_add_del sample_vpp = sample_socket" "vpp_set_flags sample_vpp i x = sample_ack"
  "vpp_set_mtu sample_vpp i xs = sample_ack" "vpp_add_del_address sample_vpp i b a = sample_ack"
  "vpp_bd_dump sample_vpp = sample_bd_dump" "vpp_bd_add_del sample_vpp = sample_bd"
  "vpp_set_l2_bridge sample_vpp = sample_l2" "vpp_vhost_create sample_vpp = sample_vhost_create"
  "vpp_vhost_delete sample_vpp = sample_vhost_delete"
  by (simp_all add: sample_vpp_def)

lemmas sample_defs = sample_create_def sample_delete_def sample_socket_def
  sample_bd_dump_def sample_bd_def sample_l2_def sample_vhost_create_def sample_vhost_delete_def
  sample_ack_def

definition bds_ok :: "(u32 \<times> u32 list) list \<Rightarrow> bool" where
  "bds_ok bds \<longleftrightarrow> list_all (\<lambda>p. distinct (snd p) \<and> length (snd p) < 2 ^ 32) bds"

definition sample_ok :: "sample \<Rightarrow> bool" where
  "sample_ok v \<longleftrightarrow> vpp_wf sample_vpp v \<and> bds_ok (sp_bds v)"

lemma sample_tables [simp]: "memifs sample_vpp v = sp_memifs v" "socks sample_vpp v = sp_socks v"
  by (simp_all add: memifs_def socks_def)

lemma sample_ok_iff:
  "sample_ok v \<longleftrightarrow>
     distinct (map det_SwIfIndex (sp_memifs v)) \<and> distinct (map sd_SocketID (sp_socks v)) \<and>
     distinct (map sd_SocketFilename (sp_socks v)) \<and>
     det_SocketID ` set (sp_memifs v) \<subseteq> sd_SocketID ` set (sp_socks v) \<and>
     length (sp_socks v) < 2 ^ 32 - 1 \<and> length (sp_memifs v) < 2 ^ 32 \<and>
     (\<forall>d\<in>set (sp_socks v). trimRight (sd_SocketFilename d) [CHR 0x00] = sd_SocketFilename d) \<and>
     bds_ok (sp_bds v)"
  by (simp add: sample_ok_def vpp_wf_def)

lemma distinct_map_filter_key: "distinct (map f xs) \<Longrightarrow> distinct (map f (filter P xs))"
  by (rule distinct_map_filter)

lemma length_filter_less: "length xs < n \<Longrightarrow> length (filter P xs) < n"
  by (rule le_less_trans [OF length_filter_le])

lemma image_filter_neq:
  assumes "g ` M \<subseteq> f ` A" and "k \<notin> g ` M"
  shows "g ` M \<subseteq> f ` {x \<in> A. f x \<noteq> k}"
proof
  fix y assume y: "y \<in> g ` M"
  with assms obtain x where "x \<in> A" "y = f x" by blast
  moreover from y assms have "y \<noteq> k" by blast
  ultimately show "y \<in> f ` {x \<in> A. f x \<noteq> k}" by blast
qed

lemma sample_create_ok:
  assumes "sample_ok v" and "sample_create r v = (Inr i, v')"
  shows "sample_ok v'" and "set (sp_memifs v') = insert (details_of r i) (set (sp_memifs v))"
    and "i \<notin> det_SwIfIndex ` set (sp_memifs v)" and "sp_socks v' = sp_socks v"
  using assms by (simp_all add: sample_create_def sample_ok_iff details_of_def image_subset_iff split: if_splits)
    (elim conjE; force simp: details_of_def)+

lemma sample_delete_ok:
  assumes "sample_ok v" and "sample_delete i v = (None, v')"
  shows "sample_ok v'" and "set (sp_memifs v') = {d \<in> set (sp_memifs v). det_SwIfIndex d \<noteq> i}"
    and "sp_socks v' = sp_socks v"
  using assms
  by (auto simp: sample_delete_def sample_ok_iff image_subset_iff distinct_map_filter_key
      length_filter_less split: if_splits)

lemma sample_add_ok:
  assumes "sample_ok v" and "sample_socket True k f v = (None, v')"
  shows "sample_ok v'" and "sp_memifs v' = sp_memifs v"
    and "set (sp_socks v') = insert \<lparr>sd_SocketID = k, sd_SocketFilename = f\<rparr> (set (sp_socks v))"
  using assms by (auto simp: sample_socket_def sample_ok_iff image_subset_iff split: if_splits)

lemma sample_del_ok:
  assumes "sample_ok v" and "sample_socket False k f v = (None, v')"
  shows "sample_ok v'" and "sp_memifs v' = sp_memifs v"
    and "set (sp_socks v') = {d \<in> set (sp_socks v). sd_SocketID d \<noteq> k}"
proof -
  from assms(2) have k: "k \<notin> det_SocketID ` set (sp_memifs v)"
    and v': "v' = v\<lparr>sp_socks := filter (\<lambda>d. sd_SocketID d \<noteq> k) (sp_socks v)\<rparr>"
    by (auto simp: sample_socket_def split: if_splits)
  show "sp_memifs v' = sp_memifs v"
    and "set (sp_socks v') = {d \<in> set (sp_socks v). sd_SocketID d \<noteq> k}" by (simp_all add: v')
  show "sample_ok v'"
    using assms(1) image_filter_neq [OF _ k, of sd_SocketID "set (sp_socks v)"]
    by (simp add: sample_ok_iff v' distinct_map_filter_key length_filter_less)
qed

lemma bds_ok_filter: "bds_ok bds \<Longrightarrow> bds_ok (filter P bds)"
  by (auto simp: bds_ok_def list_all_iff)

lemma bds_ok_Cons: "bds_ok (p # bds) \<longleftrightarrow> distinct (snd p) \<and> length (snd p) < 2 ^ 32 \<and> bds_ok bds"
  by (simp add: bds_ok_def)

lemma bds_ok_map_of: "bds_ok bds \<Longrightarrow> map_of bds bd = Some ports \<Longrightarrow> distinct ports \<and> length ports < 2 ^ 32"
  using map_of_SomeD [of bds bd ports] by (force simp: bds_ok_def list_all_iff)

lemma bds_ok_l2:
  assumes "bds_ok bds" and "map_of bds bd = Some ports" and "length ports < 100"
  shows "bds_ok ((bd, if b then i # removeAll i ports else removeAll i ports) # filter P bds)"
proof -
  have "length (removeAll i ports) \<le> length ports" by simp
  then have "length (removeAll i ports) < 100" using assms(3) by (rule le_less_trans)
  then have "Suc (length (removeAll i ports)) < 2 ^ 32" by simp
  then show ?thesis
    using assms bds_ok_map_of [OF assms(1,2)] by (simp add: bds_ok_Cons bds_ok_filter distinct_removeAll)
qed

lemma sample_l2_frame:
  assumes "sample_ok v" and "sample_l2 bd i b v = (e, v')"
  shows "bds_ok (sp_bds v')" and "sp_memifs v' = sp_memifs v" and "sp_socks v' = sp_socks v"
  using assms by (auto simp: sample_l2_def sample_ok_def not_le split: option.splits if_splits
      intro: bds_ok_l2 [where b = True, simplified] bds_ok_l2 [where b = False, simplified])

lemma sample_bd_frame:
  assumes "sample_ok v" and "sample_bd bd b v = (e, v')"
  shows "bds_ok (sp_bds v')" and "sp_memifs v' = sp_memifs v" and "sp_socks v' = sp_socks v"
  using assms by (auto simp: sample_bd_def sample_ok_def bds_ok_Cons bds_ok_filter split: if_splits)

interpretation sample: vpp_channel sample_vpp sample_ok
proof (unfold_locales, goal_cases)
  case 1 then show ?case by (simp add: sample_ok_def)
next
  case 2 then show ?case by (simp add: sample_create_ok)
next
  case 4 then show ?case by (simp add: sample_delete_ok)
next
  case 6 then show ?case by (simp add: sample_add_ok)
next
  case 7 then show ?case by (simp add: sample_del_ok)
next
  case (12 v bd b r1 v') then show ?case
    using sample_bd_frame [of v bd b r1 v'] by (simp add: same_memif_def sample_ok_iff)
next
  case (13 v bd i b r1 v') then show ?case
    using sample_l2_frame [of v bd i b r1 v'] by (simp add: same_memif_def sample_ok_iff)
qed (auto simp: same_memif_def sample_ok_iff sample_defs split: if_splits option.splits)

section \<open>A sample node\<close>

definition sample_fs :: fs where
  "sample_fs = \<lparr>nodes = [(''/run'', DirNode), (''/run/vpp'', DirNode)], deny = (\<lambda>_ _. False)\<rparr>"

definition sample_world :: "sample world" where
  "sample_world = \<lparr>vst = sample_empty, fsys = sample_fs, clock = 1000\<rparr>"

lemma sample_ok_empty: "sample_ok sample_empty"
  by (simp add: sample_ok_iff sample_empty_def bds_ok_def trimRight_def)

lemma sample_ok_world: "sample_ok (vst sample_world)"
  by (simp add: sample_world_def sample_ok_empty)

end
