(* ===== verification/Vpp_Memif.thy ===== *)
theory Vpp_Memif
  imports Vpp_Sample
begin

text \<open>
  The memif wrappers of \<open>cnivpp/api/memif/memif.go\<close>: creating and deleting memif interfaces and
  memif sockets, the searches through the dumps of VPP, and the name of the socket file. The lemmas
  give the behaviour of each wrapper on the memif tables of VPP under the laws of \<open>vpp_channel\<close>.
\<close>

section \<open>Constants and parameters\<close>

definition RoleMaster :: u32 where "RoleMaster = 0"
definition RoleSlave :: u32 where "RoleSlave = 1"

definition ModeEthernet :: u32 where "ModeEthernet = 0"
definition ModeIP :: u32 where "ModeIP = 1"
definition ModePuntInject :: u32 where "ModePuntInject = 2"

record CreateParams =
  cp_SocketID :: u32
  cp_Role :: u32
  cp_Mode :: u32
  cp_RxQueues :: u8
  cp_TxQueues :: u8
  cp_RingSize :: u32
  cp_BufferSize :: u16
  cp_Secret :: string
  cp_NoZeroCopy :: bool
  cp_UseDma :: bool
  cp_HwAddr :: string

section \<open>Searching the dumps\<close>

text \<open>
  The first loop of \<open>findMemifSocket\<close>: it stops at the first matching file name and collects the ids
  it passes. A reply that failed to decode is the zero struct.
\<close>

fun scan_sockets :: "string \<Rightarrow> socket_details result list \<Rightarrow> u32 list \<Rightarrow> u32 option \<times> u32 list" where
  "scan_sockets f [] used = (None, used)"
| "scan_sockets f (x # xs) used =
     (let d = (case x of Inl _ \<Rightarrow> \<lparr>sd_SocketID = 0, sd_SocketFilename = []\<rparr> | Inr d \<Rightarrow> d)
      in if f = sd_SocketFilename d then (Some (sd_SocketID d), used)
         else scan_sockets f xs (used @ [sd_SocketID d]))"

text \<open>The second loop: count up from 1 while the id is in use.\<close>

definition unused_id :: "u32 list \<Rightarrow> u32" where
  "unused_id used = while (\<lambda>i. i \<in> set used) (\<lambda>i. i + 1) 1"

definition findMemifSocket :: "('v, 'x) vpp_api_scheme \<Rightarrow> 'v \<Rightarrow> string \<Rightarrow> bool \<times> u32" where
  "findMemifSocket V v f =
     (case scan_sockets f (vpp_socket_dump V v) [] of
        (Some k, _) \<Rightarrow> (True, k)
      | (None, used) \<Rightarrow> (False, unused_id used))"

text \<open>The loop of \<open>findMemifInterface\<close> goes through the whole dump: the last match counts.\<close>

definition findMemifInterface :: "('v, 'x) vpp_api_scheme \<Rightarrow> 'v \<Rightarrow> u32 \<Rightarrow> u32 \<times> bool" where
  "findMemifInterface V v i =
     foldl (\<lambda>acc x. case x of
              Inl _ \<Rightarrow> acc
            | Inr d \<Rightarrow> if i = det_SwIfIndex d then (det_SocketID d, True) else acc)
       (0, False) (vpp_memif_dump V v)"

definition findMemifSocketCnt :: "('v, 'x) vpp_api_scheme \<Rightarrow> 'v \<Rightarrow> u32 \<Rightarrow> u32" where
  "findMemifSocketCnt V v k =
     foldl (\<lambda>n x. case x of Inl _ \<Rightarrow> n | Inr d \<Rightarrow> if k = det_SocketID d then n + 1 else n)
       0 (vpp_memif_dump V v)"

definition FindMemifBySocket :: "('v, 'x) vpp_api_scheme \<Rightarrow> 'v \<Rightarrow> string \<Rightarrow> u32 \<times> bool" where
  "FindMemifBySocket V v f =
     (case findMemifSocket V v f of
        (False, _) \<Rightarrow> (0, False)
      | (True, k) \<Rightarrow>
          (case find (\<lambda>x. case x of Inl _ \<Rightarrow> False | Inr d \<Rightarrow> det_SocketID d = k) (vpp_memif_dump V v) of
             Some (Inr d) \<Rightarrow> (det_SwIfIndex d, True)
           | _ \<Rightarrow> (0, False)))"

section \<open>Operations\<close>

definition memif_request :: "CreateParams \<Rightarrow> u8 list \<Rightarrow> memif_create_req" where
  "memif_request p hw = \<lparr>
     rq_Role = cp_Role p, rq_Mode = cp_Mode p,
     rq_RxQueues = (if cp_RxQueues p = 0 then 1 else cp_RxQueues p),
     rq_TxQueues = (if cp_TxQueues p = 0 then 1 else cp_TxQueues p),
     rq_ID = 0, rq_SocketID = cp_SocketID p,
     rq_RingSize = (if cp_RingSize p = 0 then 1024 else cp_RingSize p),
     rq_BufferSize = (if cp_BufferSize p = 0 then 2048 else cp_BufferSize p),
     rq_NoZeroCopy = cp_NoZeroCopy p, rq_UseDma = cp_UseDma p, rq_Secret = cp_Secret p,
     rq_HwAddr = hw\<rparr>"

definition zero_mac :: "u8 list" where
  "zero_mac = replicate 6 0"

definition CreateMemifInterface ::
  "'v vpp_api \<Rightarrow> CreateParams \<Rightarrow> ('v, 'm) world_scheme \<Rightarrow> u32 result \<times> ('v, 'm) world_scheme" where
  "CreateMemifInterface V p w =
     (if cp_HwAddr p \<noteq> [] then
        (case vpp_parse_mac V (cp_HwAddr p) of
           Inl e \<Rightarrow> (Inl (EWrap (''memif: invalid HwAddr '' @ cp_HwAddr p) e), w)
         | Inr hw \<Rightarrow> on_vpp (vpp_memif_create V (memif_request p hw)) w)
      else on_vpp (vpp_memif_create V (memif_request p zero_mac)) w)"

definition DeleteMemifSocket ::
  "'v vpp_api \<Rightarrow> u32 \<Rightarrow> ('v, 'm) world_scheme \<Rightarrow> go_error option \<times> ('v, 'm) world_scheme" where
  "DeleteMemifSocket V k w = on_vpp (vpp_socket_add_del V False k []) w"

definition DeleteMemifInterface ::
  "'v vpp_api \<Rightarrow> u32 \<Rightarrow> ('v, 'm) world_scheme \<Rightarrow> go_error option \<times> ('v, 'm) world_scheme" where
  "DeleteMemifInterface V i w =
     (case findMemifInterface V (vst w) i of
        (k, exist) \<Rightarrow>
          if \<not> exist then (None, w)
          else (case on_vpp (vpp_memif_delete V i) w of
                  (Some e, w1) \<Rightarrow> (Some e, w1)
                | (None, w1) \<Rightarrow>
                    if k \<noteq> 0 \<and> findMemifSocketCnt V (vst w1) k = 0 then DeleteMemifSocket V k w1
                    else (None, w1)))"

definition CreateMemifSocket ::
  "'v vpp_api \<Rightarrow> string \<Rightarrow> ('v, 'm) world_scheme \<Rightarrow> u32 result \<times> ('v, 'm) world_scheme" where
  "CreateMemifSocket V f w =
     (case findMemifSocket V (vst w) f of
        (True, k) \<Rightarrow> (Inr k, w)
      | (False, k) \<Rightarrow>
          (case (case os_Stat (fsys w) (pathDir f) of
                   Inr _ \<Rightarrow> (None, w)
                 | Inl ENOENT \<Rightarrow> on_fs (os_MkdirAll (pathDir f)) w
                 | Inl EOTHER \<Rightarrow> (Some EOTHER, w)) of
             (Some e, w1) \<Rightarrow> (Inl (EFs e), w1)
           | (None, w1) \<Rightarrow>
               (case on_vpp (vpp_socket_add_del V True k f) w1 of
                  (Some e, w2) \<Rightarrow> (Inl e, w2)
                | (None, w2) \<Rightarrow> (Inr k, w2))))"

definition SocketFileName :: "string \<Rightarrow> string \<Rightarrow> string \<Rightarrow> string" where
  "SocketFileName override containerID ifName =
     (if override \<noteq> [] then override
      else ''memif-'' @ (if 12 < length containerID then take 12 containerID else containerID)
           @ ''-'' @ ifName @ ''.sock'')"

section \<open>The search for an unused id terminates\<close>

definition used_below :: "u32 list \<Rightarrow> u32 \<Rightarrow> bool" where
  "used_below used i \<longleftrightarrow>
     1 \<le> unat i \<and> unat i \<le> length used + 1 \<and> (\<forall>k. 1 \<le> k \<and> k < unat i \<longrightarrow> of_nat k \<in> set used)"

lemma used_below_next:
  assumes below: "used_below used i" and used: "i \<in> set used" and room: "length used < 2 ^ 32 - 1"
  shows "unat (i + 1) = unat i + 1" and "unat i \<le> length used" and "used_below used (i + 1)"
proof -
  let ?n = "unat i"
  have n: "?n < 2 ^ 32" using unsigned_less [where ?'a = nat and w = i] by simp
  have all: "of_nat k \<in> set used" if "1 \<le> k" "k \<le> ?n" for k
    using that below used by (cases "k = ?n") (auto simp: used_below_def)
  have "inj_on (of_nat :: nat \<Rightarrow> u32) {1..?n}"
  proof (rule inj_onI)
    fix x y assume "x \<in> {1..?n}" "y \<in> {1..?n}" and eq: "(of_nat x :: u32) = of_nat y"
    then have "x < 2 ^ 32" "y < 2 ^ 32" using n by auto
    moreover from eq have "unat (of_nat x :: u32) = unat (of_nat y :: u32)" by simp
    ultimately show "x = y" by (simp add: unat_of_nat take_bit_nat_eq_self)
  qed
  then have "card ((of_nat :: nat \<Rightarrow> u32) ` {1..?n}) = ?n" by (simp add: card_image)
  moreover have "(of_nat :: nat \<Rightarrow> u32) ` {1..?n} \<subseteq> set used" using all by auto
  ultimately have "?n \<le> card (set used)" by (metis card_mono List.finite_set)
  then show le: "?n \<le> length used" using card_length le_trans by blast
  have "?n + 1 < 2 ^ 32" using le room by simp
  then show suc: "unat (i + 1) = ?n + 1"
    by (simp add: unat_word_ariths)
  show "used_below used (i + 1)"
    unfolding used_below_def suc
  proof (intro conjI allI impI)
    show "1 \<le> ?n + 1" and "?n + 1 \<le> length used + 1" using le by simp_all
    fix k assume "1 \<le> k \<and> k < ?n + 1"
    then show "of_nat k \<in> set used" using all by simp
  qed
qed

lemma unused_id_props:
  assumes room: "length used < 2 ^ 32 - 1"
  shows "unused_id used \<notin> set used" and "used_below used (unused_id used)"
proof -
  have "used_below used (unused_id used) \<and> unused_id used \<notin> set used"
    unfolding unused_id_def
  proof (rule while_rule [where P = "used_below used" and r = "measure (\<lambda>i. length used + 1 - unat i)"])
    show "used_below used 1" by (simp add: used_below_def)
    show "wf (measure (\<lambda>i :: u32. length used + 1 - unat i))" by simp
    fix i assume b: "used_below used i"
    { assume u: "i \<in> set used"
      show "used_below used (i + 1)" using b u room by (rule used_below_next)
      show "(i + 1, i) \<in> measure (\<lambda>i. length used + 1 - unat i)"
        using used_below_next(1,2) [OF b u room] by simp }
    assume "i \<notin> set used"
    with b show "used_below used i \<and> i \<notin> set used" by simp
  qed
  then show "unused_id used \<notin> set used" and "used_below used (unused_id used)" by simp_all
qed

lemma unused_id_nonzero: "length used < 2 ^ 32 - 1 \<Longrightarrow> unused_id used \<noteq> 0"
  using unused_id_props(2) [of used] by (auto simp: used_below_def)

section \<open>The searches on a well-formed dump\<close>

lemma socket_id_inject:
  "vpp_wf V v \<Longrightarrow> s \<in> set (socks V v) \<Longrightarrow> t \<in> set (socks V v) \<Longrightarrow> sd_SocketID s = sd_SocketID t \<Longrightarrow> s = t"
  by (auto simp: vpp_wf_def distinct_map dest: inj_onD)

lemma memif_index_inject:
  "vpp_wf V v \<Longrightarrow> d \<in> set (memifs V v) \<Longrightarrow> e \<in> set (memifs V v) \<Longrightarrow> det_SwIfIndex d = det_SwIfIndex e \<Longrightarrow> d = e"
  by (auto simp: vpp_wf_def distinct_map dest: inj_onD)

lemma socket_row: "(d :: socket_details) \<in> S \<Longrightarrow> sd_SocketFilename d = f \<Longrightarrow> \<lparr>sd_SocketID = sd_SocketID d, sd_SocketFilename = f\<rparr> \<in> S"
  by (cases d) auto

lemma socket_file_inject:
  "vpp_wf V v \<Longrightarrow> s \<in> set (socks V v) \<Longrightarrow> t \<in> set (socks V v) \<Longrightarrow> sd_SocketFilename s = sd_SocketFilename t \<Longrightarrow> s = t"
  by (auto simp: vpp_wf_def distinct_map dest: inj_onD)

lemma wf_streams:
  assumes "vpp_wf V v"
  shows "vpp_memif_dump V v = map Inr (memifs V v)" and "vpp_socket_dump V v = map Inr (socks V v)"
  using assms clean_stream_rights by (auto simp: vpp_wf_def memifs_def socks_def)

lemma scan_sockets_clean:
  "scan_sockets f (map Inr ds) used =
     (case find (\<lambda>d. sd_SocketFilename d = f) ds of
        Some d \<Rightarrow> (Some (sd_SocketID d), used @ map sd_SocketID (takeWhile (\<lambda>d. sd_SocketFilename d \<noteq> f) ds))
      | None \<Rightarrow> (None, used @ map sd_SocketID ds))"
  by (induction ds arbitrary: used) (auto simp: Let_def split: option.split)

lemma findMemifSocket_found:
  assumes wf: "vpp_wf V v" and d: "d \<in> set (socks V v)" "sd_SocketFilename d = f"
  shows "findMemifSocket V v f = (True, sd_SocketID d)"
proof -
  from d obtain d' where d': "find (\<lambda>d. sd_SocketFilename d = f) (socks V v) = Some d'"
    by (cases "find (\<lambda>d. sd_SocketFilename d = f) (socks V v)") (auto simp: find_None_iff)
  then have "d' \<in> set (socks V v)" "sd_SocketFilename d' = f" by (auto simp: find_Some_iff)
  with d wf have "d' = d" by (auto simp: vpp_wf_def distinct_map dest: inj_onD)
  with d' show ?thesis by (simp add: findMemifSocket_def wf_streams(2) [OF wf] scan_sockets_clean)
qed

lemma findMemifSocket_absent:
  assumes wf: "vpp_wf V v" and f: "f \<notin> sd_SocketFilename ` set (socks V v)"
  shows "findMemifSocket V v f = (False, unused_id (map sd_SocketID (socks V v)))"
proof -
  have "find (\<lambda>d. sd_SocketFilename d = f) (socks V v) = None" using f by (auto simp: find_None_iff)
  then show ?thesis by (simp add: findMemifSocket_def wf_streams(2) [OF wf] scan_sockets_clean)
qed

lemma wf_room: "vpp_wf V v \<Longrightarrow> length (map sd_SocketID (socks V v)) < 2 ^ 32 - 1"
  by (simp add: vpp_wf_def)

lemma findMemifSocket_cases:
  assumes wf: "vpp_wf V v"
  obtains (found) d where "d \<in> set (socks V v)" "sd_SocketFilename d = f"
      "findMemifSocket V v f = (True, sd_SocketID d)"
  | (absent) k where "f \<notin> sd_SocketFilename ` set (socks V v)" "findMemifSocket V v f = (False, k)"
      "k \<noteq> 0" "k \<notin> sd_SocketID ` set (socks V v)" "used_below (map sd_SocketID (socks V v)) k"
  using findMemifSocket_found [OF wf, of _ f] findMemifSocket_absent [OF wf, of f]
    unused_id_props [OF wf_room [OF wf]] unused_id_nonzero [OF wf_room [OF wf]]
  by (cases "f \<in> sd_SocketFilename ` set (socks V v)") auto

lemma foldl_last_match:
  "foldl (\<lambda>acc x. if P x then g x else acc) a xs = (if filter P xs = [] then a else g (last (filter P xs)))"
  by (induction xs rule: rev_induct) auto

lemma filter_key_unique:
  "distinct (map key xs) \<Longrightarrow> d \<in> set xs \<Longrightarrow> key d = k \<Longrightarrow> filter (\<lambda>x. k = key x) xs = [d]"
  by (induction xs) (auto simp: filter_empty_conv image_iff)

lemma findMemifInterface_clean:
  assumes wf: "vpp_wf V v"
  shows "findMemifInterface V v i =
     foldl (\<lambda>acc d. if i = det_SwIfIndex d then (det_SocketID d, True) else acc) (0, False) (memifs V v)"
  by (simp add: findMemifInterface_def wf_streams(1) [OF wf] foldl_map)

lemma findMemifInterface_found:
  assumes wf: "vpp_wf V v" and d: "d \<in> set (memifs V v)" "det_SwIfIndex d = i"
  shows "findMemifInterface V v i = (det_SocketID d, True)"
proof -
  have "filter (\<lambda>x. i = det_SwIfIndex x) (memifs V v) = [d]"
    using wf d by (intro filter_key_unique) (auto simp: vpp_wf_def)
  then show ?thesis by (simp add: findMemifInterface_clean [OF wf] foldl_last_match)
qed

lemma findMemifInterface_absent:
  assumes wf: "vpp_wf V v" and i: "i \<notin> det_SwIfIndex ` set (memifs V v)"
  shows "findMemifInterface V v i = (0, False)"
proof -
  have "filter (\<lambda>x. i = det_SwIfIndex x) (memifs V v) = []"
    using i by (auto simp: filter_empty_conv)
  then show ?thesis by (simp add: findMemifInterface_clean [OF wf] foldl_last_match)
qed

lemma foldl_count: "foldl (\<lambda>n x. if P x then n + 1 else n) (a :: u32) xs = a + of_nat (length (filter P xs))"
  by (induction xs arbitrary: a) auto

lemma findMemifSocketCnt_zero_iff:
  assumes wf: "vpp_wf V v"
  shows "findMemifSocketCnt V v k = 0 \<longleftrightarrow> k \<notin> det_SocketID ` set (memifs V v)"
proof -
  let ?n = "length (filter (\<lambda>d. k = det_SocketID d) (memifs V v))"
  have "?n < 2 ^ 32" using wf length_filter_less by (auto simp: vpp_wf_def)
  then have "(of_nat ?n :: u32) = 0 \<longleftrightarrow> ?n = 0"
    by (auto simp del: length_0_conv simp: word_of_nat_eq_0_iff dest: nat_dvd_not_less)
  moreover have "findMemifSocketCnt V v k = of_nat ?n"
    by (simp add: findMemifSocketCnt_def wf_streams(1) [OF wf] foldl_map foldl_count)
  ultimately show ?thesis by (auto simp: filter_empty_conv)
qed

lemma find_map_Inr: "find (case_sum (\<lambda>_. False) P) (map Inr ds) = map_option Inr (find P ds)"
  by (induction ds) auto

lemma FindMemifBySocket_clean:
  assumes "vpp_wf V v"
  shows "FindMemifBySocket V v f =
     (case findMemifSocket V v f of
        (False, _) \<Rightarrow> (0, False)
      | (True, k) \<Rightarrow> (case find (\<lambda>d. det_SocketID d = k) (memifs V v) of
                      None \<Rightarrow> (0, False) | Some d \<Rightarrow> (det_SwIfIndex d, True)))"
  by (auto simp: FindMemifBySocket_def wf_streams(1) [OF assms] find_map_Inr
      split: option.splits bool.splits prod.splits)

lemma FindMemifBySocket_found:
  assumes wf: "vpp_wf V v" and s: "s \<in> set (socks V v)" "sd_SocketFilename s = f"
    and d: "d \<in> set (memifs V v)" "det_SocketID d = sd_SocketID s"
  shows "\<exists>d'\<in>set (memifs V v). det_SocketID d' = sd_SocketID s \<and>
           FindMemifBySocket V v f = (det_SwIfIndex d', True)"
proof -
  obtain d' where d': "find (\<lambda>d. det_SocketID d = sd_SocketID s) (memifs V v) = Some d'"
    using d by (fastforce simp: find_None_iff)
  then have "d' \<in> set (memifs V v)" "det_SocketID d' = sd_SocketID s" by (auto simp: find_Some_iff)
  with d' show ?thesis
    by (auto simp: FindMemifBySocket_clean [OF wf] findMemifSocket_found [OF wf s])
qed

lemma FindMemifBySocket_absent:
  assumes wf: "vpp_wf V v"
    and none: "\<And>s d. s \<in> set (socks V v) \<Longrightarrow> sd_SocketFilename s = f \<Longrightarrow> d \<in> set (memifs V v) \<Longrightarrow>
      det_SocketID d \<noteq> sd_SocketID s"
  shows "FindMemifBySocket V v f = (0, False)"
proof (rule findMemifSocket_cases [OF wf, of f])
  fix s assume s: "s \<in> set (socks V v)" "sd_SocketFilename s = f"
    "findMemifSocket V v f = (True, sd_SocketID s)"
  have "find (\<lambda>d. det_SocketID d = sd_SocketID s) (memifs V v) = None"
    using none [OF s(1,2)] by (auto simp: find_None_iff)
  then show ?thesis using s(3) by (simp add: FindMemifBySocket_clean [OF wf])
qed (simp add: FindMemifBySocket_def)

section \<open>The wrappers on the memif tables\<close>

text \<open>What a call leaves alone besides the memif tables of VPP.\<close>

definition vpp_only :: "('v, 'm) world_scheme \<Rightarrow> ('v, 'm) world_scheme \<Rightarrow> bool" where
  "vpp_only w w' \<longleftrightarrow> fsys w' = fsys w \<and> clock w' = clock w"

context vpp_channel
begin

lemma CreateMemifInterface_ok:
  assumes "vinv (vst w)" and "CreateMemifInterface V p w = (Inr i, w')"
  shows "vinv (vst w')"
    and "\<exists>hw. set (memifs V (vst w')) = insert (details_of (memif_request p hw) i) (set (memifs V (vst w)))"
    and "i \<notin> det_SwIfIndex ` set (memifs V (vst w))"
    and "set (socks V (vst w')) = set (socks V (vst w))" and "vpp_only w w'"
proof -
  from assms(2) obtain hw where hw: "on_vpp (vpp_memif_create V (memif_request p hw)) w = (Inr i, w')"
    by (auto simp: CreateMemifInterface_def split: if_splits sum.splits)
  note fr = on_vpp_frame [OF hw]
  show "vinv (vst w')" "i \<notin> det_SwIfIndex ` set (memifs V (vst w))"
    "set (socks V (vst w')) = set (socks V (vst w))" "vpp_only w w'"
    "\<exists>hw. set (memifs V (vst w')) = insert (details_of (memif_request p hw) i) (set (memifs V (vst w)))"
    using fr memif_create_ok [OF assms(1)] by (auto simp: vpp_only_def)
qed

lemma CreateMemifInterface_err:
  assumes "vinv (vst w)" and "CreateMemifInterface V p w = (Inl e, w')"
  shows "vinv (vst w')" and "same_memif V (vst w) (vst w')" and "vpp_only w w'"
  using assms memif_create_err [OF assms(1)]
  by (auto simp: CreateMemifInterface_def vpp_only_def dest!: on_vpp_frame split: if_splits sum.splits)

lemma DeleteMemifSocket_ok:
  assumes "vinv (vst w)" and "DeleteMemifSocket V k w = (None, w')"
  shows "vinv (vst w')" and "set (memifs V (vst w')) = set (memifs V (vst w))"
    and "set (socks V (vst w')) = {d \<in> set (socks V (vst w)). sd_SocketID d \<noteq> k}" and "vpp_only w w'"
  using assms socket_del_ok [OF assms(1)]
  by (auto simp: DeleteMemifSocket_def vpp_only_def dest!: on_vpp_frame)

lemma DeleteMemifSocket_err:
  assumes "vinv (vst w)" and "DeleteMemifSocket V k w = (Some e, w')"
  shows "vinv (vst w')" and "same_memif V (vst w) (vst w')" and "vpp_only w w'"
  using assms socket_err [OF assms(1)]
  by (auto simp: DeleteMemifSocket_def vpp_only_def dest!: on_vpp_frame)

lemma CreateMemifSocket_fs:
  assumes "CreateMemifSocket V f w = (r, w')" and "fs_node (fsys w) q \<noteq> None"
  shows "fs_node (fsys w') q = fs_node (fsys w) q" and "clock w' = clock w"
  using assms os_MkdirAll_keeps
  by (auto simp: CreateMemifSocket_def dest!: on_vpp_frame on_fs_frame
      split: prod.splits bool.splits sum.splits errno.splits option.splits)

lemma CreateMemifSocket_ok:
  assumes inv: "vinv (vst w)" and run: "CreateMemifSocket V f w = (Inr k, w')"
  shows "vinv (vst w')" and "set (memifs V (vst w')) = set (memifs V (vst w))"
    and "set (socks V (vst w')) = insert \<lparr>sd_SocketID = k, sd_SocketFilename = f\<rparr> (set (socks V (vst w)))"
proof -
  note wf = inv_wf [OF inv]
  have "vinv (vst w') \<and> set (memifs V (vst w')) = set (memifs V (vst w)) \<and>
    set (socks V (vst w')) = insert \<lparr>sd_SocketID = k, sd_SocketFilename = f\<rparr> (set (socks V (vst w)))"
  proof (rule findMemifSocket_cases [OF wf, of f])
    fix d assume d: "d \<in> set (socks V (vst w))" "sd_SocketFilename d = f"
      "findMemifSocket V (vst w) f = (True, sd_SocketID d)"
    with run have "w' = w" "k = sd_SocketID d" by (auto simp: CreateMemifSocket_def)
    moreover have "\<lparr>sd_SocketID = sd_SocketID d, sd_SocketFilename = f\<rparr> = d" using d(2) by simp
    ultimately show ?thesis using inv d(1) by (simp add: insert_absorb)
  next
    fix j assume j: "findMemifSocket V (vst w) f = (False, j)"
    with run obtain w1 where "vst w1 = vst w" "k = j"
      and "on_vpp (vpp_socket_add_del V True j f) w1 = (None, w')"
      by (auto simp: CreateMemifSocket_def dest!: on_fs_frame
          split: prod.splits sum.splits errno.splits option.splits)
    then show ?thesis using socket_add_ok [OF inv] by (auto dest!: on_vpp_frame)
  qed
  then show "vinv (vst w')" "set (memifs V (vst w')) = set (memifs V (vst w))"
    "set (socks V (vst w')) = insert \<lparr>sd_SocketID = k, sd_SocketFilename = f\<rparr> (set (socks V (vst w)))"
    by simp_all
qed

lemma CreateMemifSocket_err:
  assumes inv: "vinv (vst w)" and run: "CreateMemifSocket V f w = (Inl e, w')"
  shows "vinv (vst w')" and "same_memif V (vst w) (vst w')"
  using assms socket_err [OF inv]
  by (auto simp: CreateMemifSocket_def dest!: on_vpp_frame on_fs_frame
      split: prod.splits bool.splits sum.splits errno.splits option.splits)

lemma DeleteMemifInterface_absent:
  assumes "vinv (vst w)" and "i \<notin> det_SwIfIndex ` set (memifs V (vst w))"
  shows "DeleteMemifInterface V i w = (None, w)"
  by (simp add: DeleteMemifInterface_def findMemifInterface_absent [OF inv_wf [OF assms(1)] assms(2)])

lemma DeleteMemifInterface_present:
  assumes inv: "vinv (vst w)" and d: "d \<in> set (memifs V (vst w))" "det_SwIfIndex d = i"
    and run: "DeleteMemifInterface V i w = (None, w')"
  shows "vinv (vst w')"
    and "set (memifs V (vst w')) = {x \<in> set (memifs V (vst w)). det_SwIfIndex x \<noteq> i}"
    and "set (socks V (vst w')) =
      {s \<in> set (socks V (vst w)). sd_SocketID s = det_SocketID d \<longrightarrow>
         det_SocketID d = 0 \<or> (\<exists>x\<in>set (memifs V (vst w)). x \<noteq> d \<and> det_SocketID x = det_SocketID d)}"
    and "vpp_only w w'"
proof -
  note wf = inv_wf [OF inv]
  let ?k = "det_SocketID d"
  have fi: "findMemifInterface V (vst w) i = (?k, True)" by (rule findMemifInterface_found [OF wf d])
  with run obtain w1 where del: "on_vpp (vpp_memif_delete V i) w = (None, w1)"
    and cont: "(if ?k \<noteq> 0 \<and> findMemifSocketCnt V (vst w1) ?k = 0 then DeleteMemifSocket V ?k w1
                else (None, w1)) = (None, w')"
    by (auto simp: DeleteMemifInterface_def split: prod.splits option.splits)
  have w1: "vinv (vst w1)" "set (memifs V (vst w1)) = {x \<in> set (memifs V (vst w)). det_SwIfIndex x \<noteq> i}"
    "set (socks V (vst w1)) = set (socks V (vst w))" "vpp_only w w1"
    using on_vpp_frame [OF del] memif_delete_ok [OF inv] by (auto simp: vpp_only_def)
  have idx: "x = d \<longleftrightarrow> det_SwIfIndex x = i" if "x \<in> set (memifs V (vst w))" for x
    using that d wf by (auto simp: vpp_wf_def distinct_map dest: inj_onD)
  have cnt: "findMemifSocketCnt V (vst w1) ?k = 0 \<longleftrightarrow>
      \<not> (\<exists>x\<in>set (memifs V (vst w)). x \<noteq> d \<and> det_SocketID x = ?k)"
    using findMemifSocketCnt_zero_iff [OF inv_wf [OF w1(1)]] idx by (auto simp: w1(2) image_iff)
  let ?drop = "?k \<noteq> 0 \<and> findMemifSocketCnt V (vst w1) ?k = 0"
  have final: "vinv (vst w') \<and> set (memifs V (vst w')) = set (memifs V (vst w1)) \<and> vpp_only w w' \<and>
    set (socks V (vst w')) = (if ?drop then {s \<in> set (socks V (vst w)). sd_SocketID s \<noteq> ?k}
                              else set (socks V (vst w)))"
    using cont w1 DeleteMemifSocket_ok [OF w1(1), of ?k w'] by (auto simp: vpp_only_def split: if_splits)
  then show "vinv (vst w')" "set (memifs V (vst w')) = {x \<in> set (memifs V (vst w)). det_SwIfIndex x \<noteq> i}"
    "vpp_only w w'" using w1(2) by simp_all
  have sk: "set (socks V (vst w')) = (if ?drop then {s \<in> set (socks V (vst w)). sd_SocketID s \<noteq> ?k}
                              else set (socks V (vst w)))"
    using final by blast
  show "set (socks V (vst w')) =
      {s \<in> set (socks V (vst w)). sd_SocketID s = ?k \<longrightarrow>
         ?k = 0 \<or> (\<exists>x\<in>set (memifs V (vst w)). x \<noteq> d \<and> det_SocketID x = ?k)}"
    unfolding sk cnt by auto
qed

lemma DeleteMemifInterface_ok:
  assumes inv: "vinv (vst w)" and run: "DeleteMemifInterface V i w = (None, w')"
  shows "vinv (vst w')"
    and "set (memifs V (vst w')) = {x \<in> set (memifs V (vst w)). det_SwIfIndex x \<noteq> i}"
    and "set (socks V (vst w')) \<subseteq> set (socks V (vst w))" and "vpp_only w w'"
proof -
  have "vinv (vst w') \<and> set (memifs V (vst w')) = {x \<in> set (memifs V (vst w)). det_SwIfIndex x \<noteq> i} \<and>
    set (socks V (vst w')) \<subseteq> set (socks V (vst w)) \<and> vpp_only w w'"
  proof (cases "i \<in> det_SwIfIndex ` set (memifs V (vst w))")
    case True
    then obtain d where d: "d \<in> set (memifs V (vst w))" "det_SwIfIndex d = i" by auto
    show ?thesis using DeleteMemifInterface_present [OF inv d run] by blast
  next
    case False
    with DeleteMemifInterface_absent [OF inv False] run inv show ?thesis
      by (auto simp: vpp_only_def)
  qed
  then show "vinv (vst w')"
    "set (memifs V (vst w')) = {x \<in> set (memifs V (vst w)). det_SwIfIndex x \<noteq> i}"
    "set (socks V (vst w')) \<subseteq> set (socks V (vst w))" "vpp_only w w'" by simp_all
qed

lemma DeleteMemifInterface_err:
  assumes inv: "vinv (vst w)" and run: "DeleteMemifInterface V i w = (Some e, w')"
  shows "vinv (vst w')"
    and "set (memifs V (vst w')) \<in>
      {set (memifs V (vst w)), {x \<in> set (memifs V (vst w)). det_SwIfIndex x \<noteq> i}}"
    and "set (socks V (vst w')) = set (socks V (vst w))" and "vpp_only w w'"
proof -
  obtain k where "findMemifInterface V (vst w) i = (k, True)"
    using run by (auto simp: DeleteMemifInterface_def split: prod.splits if_splits)
  with run consider (first) "on_vpp (vpp_memif_delete V i) w = (Some e, w')"
    | (second) w1 where "on_vpp (vpp_memif_delete V i) w = (None, w1)" "DeleteMemifSocket V k w1 = (Some e, w')"
    by (auto simp: DeleteMemifInterface_def split: prod.splits option.splits if_splits)
  then have "vinv (vst w') \<and> set (memifs V (vst w')) \<in>
      {set (memifs V (vst w)), {x \<in> set (memifs V (vst w)). det_SwIfIndex x \<noteq> i}} \<and>
    set (socks V (vst w')) = set (socks V (vst w)) \<and> vpp_only w w'"
  proof cases
    case first
    then show ?thesis using on_vpp_frame [OF first] memif_delete_err [OF inv]
      by (auto simp: same_memif_def vpp_only_def)
  next
    case second
    have w1: "vinv (vst w1)" "set (memifs V (vst w1)) = {x \<in> set (memifs V (vst w)). det_SwIfIndex x \<noteq> i}"
      "set (socks V (vst w1)) = set (socks V (vst w))" "vpp_only w w1"
      using on_vpp_frame [OF second(1)] memif_delete_ok [OF inv] by (auto simp: vpp_only_def)
    then show ?thesis using DeleteMemifSocket_err [OF w1(1) second(2)]
      by (auto simp: same_memif_def vpp_only_def)
  qed
  then show "vinv (vst w')" "set (memifs V (vst w')) \<in>
      {set (memifs V (vst w)), {x \<in> set (memifs V (vst w)). det_SwIfIndex x \<noteq> i}}"
    "set (socks V (vst w')) = set (socks V (vst w))" "vpp_only w w'" by simp_all
qed

end

section \<open>Properties\<close>

text \<open>
  C12: The socket search is right. On a VPP with well-formed tables it finds a socket file exactly when
  it is registered, with its id; otherwise the id it proposes is not 0, is not in use, and no smaller
  id is free. The search for the free id ends.
\<close>

theorem findMemifSocket_correct:
  assumes "vpp_wf V v"
  shows "case findMemifSocket V v f of
      (True, k) \<Rightarrow> \<lparr>sd_SocketID = k, sd_SocketFilename = f\<rparr> \<in> set (socks V v)
    | (False, k) \<Rightarrow> f \<notin> sd_SocketFilename ` set (socks V v) \<and> k \<noteq> 0 \<and> k \<notin> sd_SocketID ` set (socks V v) \<and>
        (\<forall>j. 1 \<le> j \<and> j < unat k \<longrightarrow> of_nat j \<in> sd_SocketID ` set (socks V v))"
  using assms
proof (rule findMemifSocket_cases [of V v f])
  fix d assume "d \<in> set (socks V v)" "sd_SocketFilename d = f" "findMemifSocket V v f = (True, sd_SocketID d)"
  then have "\<lparr>sd_SocketID = sd_SocketID d, sd_SocketFilename = f\<rparr> \<in> set (socks V v)"
    by (intro socket_row)
  with \<open>findMemifSocket V v f = (True, sd_SocketID d)\<close> show ?thesis by simp
qed (simp add: used_below_def)

theorem findMemifSocket_correct_witness:
  "findMemifSocket sample_vpp sample_empty ''/run/vpp/a.sock'' = (False, 1) \<and>
   ''/run/vpp/a.sock'' \<notin> sd_SocketFilename ` set (socks sample_vpp sample_empty)"
proof -
  have "findMemifSocket sample_vpp sample_empty ''/run/vpp/a.sock'' = (False, 1)" by code_simp
  then show ?thesis
    using findMemifSocket_correct [OF sample.inv_wf [OF sample_ok_empty], of "''/run/vpp/a.sock''"] by simp
qed

text \<open>
  C13: The search for a free socket id ends. The loop that counts up from 1 while the id is in use, whose
  32-bit counter wraps around, stops on every VPP with well-formed tables, at the id that is returned.
\<close>

theorem findMemifSocket_terminates:
  assumes "vpp_wf V v" and "findMemifSocket V v f = (False, k)"
  shows "while_option (\<lambda>i. i \<in> set (map sd_SocketID (socks V v))) (\<lambda>i. i + 1) (1 :: u32) = Some k"
proof -
  let ?used = "map sd_SocketID (socks V v)"
  have room: "length ?used < 2 ^ 32 - 1" by (rule wf_room [OF assms(1)])
  have "\<exists>i. while_option (\<lambda>i. i \<in> set ?used) (\<lambda>i. i + 1) (1 :: u32) = Some i"
  proof (rule measure_while_option_Some [where P = "used_below ?used" and f = "\<lambda>i. length ?used + 1 - unat i"])
    show "used_below ?used 1" by (simp add: used_below_def)
    fix i assume "used_below ?used i" "i \<in> set ?used"
    note n = used_below_next [OF this room]
    show "used_below ?used (i + 1) \<and> length ?used + 1 - unat (i + 1) < length ?used + 1 - unat i"
      using n by simp
  qed
  moreover have "k = unused_id ?used"
    using assms findMemifSocket_found [OF assms(1), of _ f] findMemifSocket_absent [OF assms(1), of f] by force
  ultimately show ?thesis by (auto simp: unused_id_def while_def)
qed

theorem findMemifSocket_terminates_witness:
  "while_option (\<lambda>i. i \<in> set (map sd_SocketID (socks sample_vpp sample_empty))) (\<lambda>i. i + 1) (1 :: u32) = Some 1"
proof -
  have "findMemifSocket sample_vpp sample_empty ''/run/vpp/a.sock'' = (False, 1)" by code_simp
  from findMemifSocket_terminates [OF sample.inv_wf [OF sample_ok_empty] this] show ?thesis .
qed

text \<open>
  Registering a socket is idempotent: after \<open>CreateMemifSocket\<close> returned an id, a second call for
  the same file returns that id and changes nothing, and the id belongs to that file alone.
\<close>

theorem CreateMemifSocket_idempotent:
  assumes "vpp_channel V vinv" and "vinv (vst w)" and "CreateMemifSocket V f w = (Inr k, w')"
  shows "CreateMemifSocket V f w' = (Inr k, w') \<and>
    {s \<in> set (socks V (vst w')). sd_SocketID s = k \<or> sd_SocketFilename s = f} =
      {\<lparr>sd_SocketID = k, sd_SocketFilename = f\<rparr>}"
proof -
  note c = vpp_channel.CreateMemifSocket_ok [OF assms]
  note wf = vpp_channel.inv_wf [OF assms(1) c(1)]
  let ?s = "\<lparr>sd_SocketID = k, sd_SocketFilename = f\<rparr>"
  have s: "?s \<in> set (socks V (vst w'))" using c(3) by simp
  have "findMemifSocket V (vst w') f = (True, k)" using findMemifSocket_found [OF wf s] by simp
  then have again: "CreateMemifSocket V f w' = (Inr k, w')" by (simp add: CreateMemifSocket_def)
  have uniq: "t = ?s" if "t \<in> set (socks V (vst w'))" "sd_SocketID t = k \<or> sd_SocketFilename t = f" for t
    using socket_id_inject [OF wf that(1) s] socket_file_inject [OF wf that(1) s] that(2) by auto
  have "{t \<in> set (socks V (vst w')). sd_SocketID t = k \<or> sd_SocketFilename t = f} = {?s}"
  proof (intro equalityI subsetI)
    fix t assume "t \<in> {t \<in> set (socks V (vst w')). sd_SocketID t = k \<or> sd_SocketFilename t = f}"
    then show "t \<in> {?s}" using uniq [of t] by blast
  next
    fix t assume "t \<in> {?s}"
    then have "t = ?s" by (rule singletonD)
    then show "t \<in> {t \<in> set (socks V (vst w')). sd_SocketID t = k \<or> sd_SocketFilename t = f}" using s by simp
  qed
  then show ?thesis using again by (rule conjI [rotated])
qed

lemma sample_create_socket:
  "CreateMemifSocket sample_vpp ''/run/vpp/a.sock'' sample_world =
     (Inr 1, snd (CreateMemifSocket sample_vpp ''/run/vpp/a.sock'' sample_world))"
  by (rule run_surj) code_simp

theorem CreateMemifSocket_idempotent_witness:
  "\<exists>w'. CreateMemifSocket sample_vpp ''/run/vpp/a.sock'' sample_world = (Inr 1, w') \<and>
     CreateMemifSocket sample_vpp ''/run/vpp/a.sock'' w' = (Inr 1, w')"
  using CreateMemifSocket_idempotent [OF sample.vpp_channel_axioms sample_ok_world sample_create_socket]
    sample_create_socket by blast

text \<open>
  What CNI ADD creates, the search of a repeated ADD finds: when a socket file is registered and a
  memif is created on it, and no other memif uses that socket, \<open>FindMemifBySocket\<close> returns the index of
  the new interface.
\<close>

theorem create_then_find:
  assumes "vpp_channel V vinv" and "vinv (vst w)" and "CreateMemifSocket V f w = (Inr k, w1)"
    and "cp_SocketID p = k" and "CreateMemifInterface V p w1 = (Inr i, w2)"
    and "k \<notin> det_SocketID ` set (memifs V (vst w))"
  shows "FindMemifBySocket V (vst w2) f = (i, True)"
proof -
  note c = vpp_channel.CreateMemifSocket_ok [OF assms(1-3)]
  note m = vpp_channel.CreateMemifInterface_ok [OF assms(1) c(1) assms(5)]
  note wf = vpp_channel.inv_wf [OF assms(1) m(1)]
  obtain hw where hw: "set (memifs V (vst w2)) = insert (details_of (memif_request p hw) i) (set (memifs V (vst w)))"
    using m(2) c(2) by auto
  let ?d = "details_of (memif_request p hw) i" and ?s = "\<lparr>sd_SocketID = k, sd_SocketFilename = f\<rparr>"
  have d: "det_SocketID ?d = k" "det_SwIfIndex ?d = i"
    using assms(4) by (simp_all add: details_of_def memif_request_def)
  have "?s \<in> set (socks V (vst w2))" "?d \<in> set (memifs V (vst w2))" using m(4) c(3) hw by simp_all
  then obtain d' where d': "d' \<in> set (memifs V (vst w2))" "det_SocketID d' = k"
    "FindMemifBySocket V (vst w2) f = (det_SwIfIndex d', True)"
    using FindMemifBySocket_found [OF wf, of ?s f ?d] d by auto
  then have "d' = ?d" using hw assms(6) by auto
  with d' d show ?thesis by simp
qed

definition sample_params :: CreateParams where
  "sample_params = \<lparr>cp_SocketID = 1, cp_Role = RoleMaster, cp_Mode = ModeEthernet, cp_RxQueues = 0,
     cp_TxQueues = 0, cp_RingSize = 0, cp_BufferSize = 0, cp_Secret = [], cp_NoZeroCopy = False,
     cp_UseDma = False, cp_HwAddr = []\<rparr>"

theorem create_then_find_witness:
  "\<exists>i w1 w2. CreateMemifSocket sample_vpp ''/run/vpp/a.sock'' sample_world = (Inr 1, w1) \<and>
     CreateMemifInterface sample_vpp sample_params w1 = (Inr i, w2) \<and>
     FindMemifBySocket sample_vpp (vst w2) ''/run/vpp/a.sock'' = (i, True)"
proof -
  define w1 where "w1 = snd (CreateMemifSocket sample_vpp ''/run/vpp/a.sock'' sample_world)"
  have "fst (CreateMemifInterface sample_vpp sample_params (snd (CreateMemifSocket sample_vpp ''/run/vpp/a.sock'' sample_world))) = Inr 1"
    by code_simp
  then obtain w2 where c: "CreateMemifInterface sample_vpp sample_params w1 = (Inr 1, w2)"
    unfolding w1_def by (metis prod.collapse)
  have "(1 :: u32) \<notin> det_SocketID ` set (memifs sample_vpp (vst sample_world))"
    by (simp add: sample_world_def sample_empty_def)
  with create_then_find [OF sample.vpp_channel_axioms sample_ok_world sample_create_socket _
      c [unfolded w1_def]] c sample_create_socket
  show ?thesis unfolding w1_def by (auto simp: sample_params_def)
qed

text \<open>
  C11: Deleting a memif tears down what it should and no more: the interface is gone, every other
  interface stays, and the socket registration goes if and only if its id is not 0 (VPP's default
  socket) and no other memif uses it. Deleting it again succeeds and changes nothing.
\<close>

theorem DeleteMemifInterface_teardown:
  assumes "vpp_channel V vinv" and "vinv (vst w)" and "d \<in> set (memifs V (vst w))"
    and "DeleteMemifInterface V (det_SwIfIndex d) w = (None, w')"
  shows "set (memifs V (vst w')) = set (memifs V (vst w)) - {d} \<and>
    set (socks V (vst w')) = {s \<in> set (socks V (vst w)). sd_SocketID s = det_SocketID d \<longrightarrow>
      det_SocketID d = 0 \<or> (\<exists>x\<in>set (memifs V (vst w)). x \<noteq> d \<and> det_SocketID x = det_SocketID d)} \<and>
    DeleteMemifInterface V (det_SwIfIndex d) w' = (None, w')"
proof -
  note D = vpp_channel.DeleteMemifInterface_present [OF assms(1-3) refl assms(4)]
  have "inj_on det_SwIfIndex (set (memifs V (vst w)))"
    using vpp_channel.inv_wf [OF assms(1,2)] by (simp add: vpp_wf_def distinct_map)
  then have "set (memifs V (vst w')) = set (memifs V (vst w)) - {d}"
    using assms(3) D(2) by (auto dest: inj_onD)
  moreover have "DeleteMemifInterface V (det_SwIfIndex d) w' = (None, w')"
    by (rule vpp_channel.DeleteMemifInterface_absent [OF assms(1) D(1)]) (unfold D(2), force)
  ultimately show ?thesis using D(3) by (intro conjI)
qed

definition sample_one :: "sample world" where
  "sample_one = snd (CreateMemifInterface sample_vpp sample_params
     (snd (CreateMemifSocket sample_vpp ''/run/vpp/a.sock'' sample_world)))"

definition sample_row :: memif_details where
  "sample_row = \<lparr>det_SwIfIndex = 1, det_ID = 0, det_SocketID = 1, det_Role = 0, det_Mode = 0\<rparr>"

lemma sample_one_rows: "sp_memifs (vst sample_one) = [sample_row]" "length (sp_socks (vst sample_one)) = 2"
  by code_simp+

lemma sample_ok_one: "sample_ok (vst sample_one)"
proof -
  have "fst (CreateMemifInterface sample_vpp sample_params
     (snd (CreateMemifSocket sample_vpp ''/run/vpp/a.sock'' sample_world))) = Inr 1" by code_simp
  note run = run_surj [OF this]
  show ?thesis
    unfolding sample_one_def
    by (rule sample.CreateMemifInterface_ok(1) [OF sample.CreateMemifSocket_ok(1) [OF sample_ok_world sample_create_socket] run])
qed

theorem DeleteMemifInterface_teardown_witness:
  "\<exists>w'. DeleteMemifInterface sample_vpp 1 sample_one = (None, w') \<and> set (memifs sample_vpp (vst w')) = {} \<and>
     DeleteMemifInterface sample_vpp 1 w' = (None, w')"
proof -
  have "fst (DeleteMemifInterface sample_vpp 1 sample_one) = None" by code_simp
  then obtain w' where r: "DeleteMemifInterface sample_vpp 1 sample_one = (None, w')" by (metis prod.collapse)
  then show ?thesis
    using DeleteMemifInterface_teardown [OF sample.vpp_channel_axioms sample_ok_one, of sample_row w']
    by (simp add: sample_one_rows) (simp add: sample_row_def)
qed

text \<open>
  Two attachments never share a generated socket file: for container ids of at least twelve
  characters the generated name determines the first twelve characters of the id and the interface
  name, and it is a plain file name when these are; a configured name is used as it is.
\<close>

theorem SocketFileName_unique:
  assumes "12 \<le> length id1" and "12 \<le> length id2"
  shows "(SocketFileName [] id1 if1 = SocketFileName [] id2 if2) = (take 12 id1 = take 12 id2 \<and> if1 = if2) \<and>
    (slash \<notin> set id1 \<and> slash \<notin> set if1 \<longrightarrow> plain_name (SocketFileName [] id1 if1)) \<and>
    (name \<noteq> [] \<longrightarrow> SocketFileName name id1 if1 = name)"
proof -
  have t: "(if 12 < length x then take 12 x else x) = take 12 x" if "12 \<le> length x" for x :: string
    using that by auto
  have "length (take 12 id1) = length (take 12 id2)" using assms by simp
  then show ?thesis
    using assms by (auto simp: SocketFileName_def t plain_name_def dest: in_set_takeD)
qed

theorem SocketFileName_unique_witness:
  "SocketFileName [] ''0123456789abcdef'' ''net1'' \<noteq> SocketFileName [] ''0123456789abcdef'' ''net2'' \<and>
   plain_name (SocketFileName [] ''0123456789abcdef'' ''net1'')"
  using SocketFileName_unique [of "''0123456789abcdef''" "''0123456789abcdef''" "''net1''" "''net2''" "[]"] by simp

end
