(* ===== verification/Reconcile.thy ===== *)
theory Reconcile
  imports Go_Prelude
begin

text \<open>
  The reconcile core of the restore daemon, \<open>pkg/daemon/reconcile.go\<close>: the memif masters that
  should exist and that do exist, their difference by socket path, and the loop that creates the
  missing masters and deletes the orphans. The Go interface \<open>Dataplane\<close> is a record of operations
  over a state type; the locale \<open>dataplane\<close> states its contract as the comments of the source give
  it, and the correctness of \<open>Reconcile\<close> is proved once inside it. The VPP dataplane is an instance
  (theory \<open>Dataplane_Vpp\<close>).
\<close>

section \<open>Data\<close>

record Memif =
  Socket :: string
  mf_ID :: u32
  BridgeID :: u32
  mf_Mode :: string
  SwIfIndex :: u32
  mf_RxQueues :: u8
  mf_TxQueues :: u8
  mf_RingSize :: u32
  mf_BufferSize :: u16
  mf_Secret :: string
  mf_HwAddr :: string
  mf_NoZeroCopy :: bool
  mf_UseDma :: bool
  mf_MTU :: u32

text \<open>
  The interface \<open>Dataplane\<close>. \<open>SweepOrphanSockets\<close> takes the set of sockets to keep as a list; what
  it returns is the number of files it removed and an error.
\<close>

record 's Dataplane =
  DumpMasters :: "'s \<Rightarrow> (Memif list) result"
  CreateMaster :: "Memif \<Rightarrow> 's \<Rightarrow> go_error option \<times> 's"
  DeleteMaster :: "Memif \<Rightarrow> 's \<Rightarrow> go_error option \<times> 's"
  SweepOrphanSockets :: "string list \<Rightarrow> 's \<Rightarrow> (nat \<times> go_error option) \<times> 's"

section \<open>Operations\<close>

definition Diff :: "Memif list \<Rightarrow> Memif list \<Rightarrow> Memif list \<times> Memif list" where
  "Diff desired actual =
     (let have = set (map Socket actual); want = set (map Socket desired)
      in (filter (\<lambda>d. Socket d \<notin> have) desired, filter (\<lambda>a. Socket a \<notin> want) actual))"

text \<open>The first loop of \<open>Reconcile\<close>: create in order, stop at the first error.\<close>

fun create_all :: "'s Dataplane \<Rightarrow> Memif list \<Rightarrow> nat \<Rightarrow> 's \<Rightarrow> (nat \<times> go_error option) \<times> 's" where
  "create_all dp [] n s = ((n, None), s)"
| "create_all dp (m # ms) n s =
     (case CreateMaster dp m s of
        (Some e, s') \<Rightarrow> ((n, Some e), s')
      | (None, s') \<Rightarrow> create_all dp ms (Suc n) s')"

text \<open>The second loop: an orphan is deleted only when the gate, if there is one, admits it.\<close>

fun delete_all ::
  "'s Dataplane \<Rightarrow> (Memif \<Rightarrow> 's \<Rightarrow> bool \<times> 's) option \<Rightarrow> Memif list \<Rightarrow> nat \<Rightarrow> 's \<Rightarrow> (nat \<times> go_error option) \<times> 's"
where
  "delete_all dp gc [] n s = ((n, None), s)"
| "delete_all dp gc (m # ms) n s =
     (case (case gc of None \<Rightarrow> (True, s) | Some g \<Rightarrow> g m s) of
        (False, s1) \<Rightarrow> delete_all dp gc ms n s1
      | (True, s1) \<Rightarrow>
          (case DeleteMaster dp m s1 of
             (Some e, s2) \<Rightarrow> ((n, Some e), s2)
           | (None, s2) \<Rightarrow> delete_all dp gc ms (Suc n) s2))"

definition Reconcile ::
  "'s Dataplane \<Rightarrow> Memif list \<Rightarrow> (Memif \<Rightarrow> 's \<Rightarrow> bool \<times> 's) option \<Rightarrow> 's \<Rightarrow> (nat \<times> nat \<times> go_error option) \<times> 's"
where
  "Reconcile dp desired gcOrphan s =
     (case DumpMasters dp s of
        Inl e \<Rightarrow> ((0, 0, Some e), s)
      | Inr actual \<Rightarrow>
          (case Diff desired actual of
             (toCreate, toDelete) \<Rightarrow>
               (case create_all dp toCreate 0 s of
                  ((created, Some e), s1) \<Rightarrow> ((created, 0, Some e), s1)
                | ((created, None), s1) \<Rightarrow>
                    (case delete_all dp gcOrphan toDelete 0 s1 of
                       ((deleted, Some e), s2) \<Rightarrow> ((created, deleted, Some e), s2)
                     | ((deleted, None), s2) \<Rightarrow>
                         (case SweepOrphanSockets dp (remdups (map Socket desired @ map Socket actual)) s2 of
                            (_, s3) \<Rightarrow> ((created, deleted, None), s3))))))"

section \<open>Diff\<close>

lemma Diff_sockets:
  assumes "Diff desired actual = (toCreate, toDelete)"
  shows "Socket ` set toCreate = Socket ` set desired - Socket ` set actual"
    and "Socket ` set toDelete = Socket ` set actual - Socket ` set desired"
    and "set toCreate \<subseteq> set desired" and "set toDelete \<subseteq> set actual"
  using assms by (auto simp: Diff_def Let_def)

lemma Diff_deleted: "Diff desired actual = (c, d) \<Longrightarrow> a \<in> set d \<longleftrightarrow> a \<in> set actual \<and> Socket a \<notin> Socket ` set desired"
  by (auto simp: Diff_def Let_def)

lemma Diff_same: "Socket ` set desired = Socket ` set actual \<Longrightarrow> Diff desired actual = ([], [])"
  by (auto simp: Diff_def Let_def filter_empty_conv)

text \<open>Fresh indices stay fresh when the view grows by one fresh entry first.\<close>

lemma fresh_trans:
  assumes "fst ` (C - insert (i, a) A) \<inter> fst ` insert (i, a) A = {}" and "i \<notin> fst ` A"
  shows "fst ` (C - A) \<inter> fst ` A = {}"
proof (rule equals0I)
  fix j assume "j \<in> fst ` (C - A) \<inter> fst ` A"
  then obtain x where x: "x \<in> C" "x \<notin> A" "fst x \<in> fst ` A" by auto
  show False
  proof (cases "x = (i, a)")
    case True
    with x assms(2) show False by simp
  next
    case False
    with x have "fst x \<in> fst ` (C - insert (i, a) A)" by simp
    with x(3) assms(1) show False by auto
  qed
qed

section \<open>Invariants of a reconcile\<close>

lemma create_all_count: "create_all dp ms n s = ((c, None), s') \<Longrightarrow> c = n + length ms"
proof (induction ms arbitrary: n s)
  case (Cons m ms)
  then show ?case using Cons.IH [of "Suc n"] by (auto split: prod.splits option.splits)
qed simp

lemma create_all_preserves:
  assumes "\<And>m t e t'. m \<in> set ms \<Longrightarrow> P t \<Longrightarrow> CreateMaster dp m t = (e, t') \<Longrightarrow> P t'"
    and "P s" and "create_all dp ms n s = (r, s')"
  shows "P s'"
  using assms
proof (induction ms arbitrary: n s)
  case (Cons m ms)
  obtain e s1 where c: "CreateMaster dp m s = (e, s1)" by fastforce
  have "P s1" using Cons.prems(1) [OF _ Cons.prems(2) c] by simp
  moreover have "\<And>n t. P t \<Longrightarrow> create_all dp ms n t = (r, s') \<Longrightarrow> P s'"
    using Cons.IH Cons.prems(1) by (meson list.set_intros(2))
  ultimately show ?case using Cons.prems(3) c by (cases e) auto
qed simp

text \<open>The answer of the gate, which admits everything when there is none.\<close>

definition gate_call :: "(Memif \<Rightarrow> 's \<Rightarrow> bool \<times> 's) option \<Rightarrow> Memif \<Rightarrow> 's \<Rightarrow> bool \<times> 's" where
  "gate_call gc m s = (case gc of None \<Rightarrow> (True, s) | Some g \<Rightarrow> g m s)"

lemma delete_all_preserves:
  assumes "\<And>m t t1 e t2. m \<in> set ms \<Longrightarrow> P t \<Longrightarrow> gate_call gc m t = (True, t1) \<Longrightarrow>
      DeleteMaster dp m t1 = (e, t2) \<Longrightarrow> P t2"
    and "\<And>m t t1. P t \<Longrightarrow> gate_call gc m t = (False, t1) \<Longrightarrow> P t1"
    and "P s" and "delete_all dp gc ms n s = (r, s')"
  shows "P s'"
  using assms
proof (induction ms arbitrary: n s)
  case (Cons m ms)
  obtain b s1 where g: "gate_call gc m s = (b, s1)" by fastforce
  have IH: "\<And>n t. P t \<Longrightarrow> delete_all dp gc ms n t = (r, s') \<Longrightarrow> P s'"
    using Cons.IH Cons.prems(1,2) by (meson list.set_intros(2))
  show ?case
  proof (cases b)
    case False
    have "P s1" using Cons.prems(2) [OF Cons.prems(3)] g False by simp
    moreover have "delete_all dp gc ms n s1 = (r, s')"
      using Cons.prems(4) g False by (simp add: gate_call_def)
    ultimately show ?thesis by (rule IH)
  next
    case True
    obtain e s2 where d: "DeleteMaster dp m s1 = (e, s2)" by fastforce
    have "P s2" by (rule Cons.prems(1) [OF _ Cons.prems(3) _ d]) (use g True in simp_all)
    then show ?thesis using Cons.prems(4) g d IH True by (cases e) (auto simp: gate_call_def)
  qed
qed simp

text \<open>
  A reconcile preserves whatever creating a desired master, deleting a dumped orphan, the gate and the
  sweep preserve.
\<close>

lemma Reconcile_preserves:
  assumes "\<And>m t e t'. m \<in> set desired \<Longrightarrow> P t \<Longrightarrow> CreateMaster dp m t = (e, t') \<Longrightarrow> P t'"
    and "\<And>actual m t t1 e t2. DumpMasters dp s = Inr actual \<Longrightarrow> m \<in> set actual \<Longrightarrow>
      Socket m \<notin> Socket ` set desired \<Longrightarrow> P t \<Longrightarrow> gate_call gc m t = (True, t1) \<Longrightarrow>
      DeleteMaster dp m t1 = (e, t2) \<Longrightarrow> P t2"
    and "\<And>m t t1. P t \<Longrightarrow> gate_call gc m t = (False, t1) \<Longrightarrow> P t1"
    and "\<And>actual t r t'. DumpMasters dp s = Inr actual \<Longrightarrow> P t \<Longrightarrow>
      SweepOrphanSockets dp (remdups (map Socket desired @ map Socket actual)) t = (r, t') \<Longrightarrow> P t'"
    and "P s" and "Reconcile dp desired gc s = (r, s')"
  shows "P s'"
proof (cases "DumpMasters dp s")
  case (Inl e)
  with assms(5,6) show ?thesis by (simp add: Reconcile_def)
next
  case (Inr actual)
  obtain toCreate toDelete where diff: "Diff desired actual = (toCreate, toDelete)" by fastforce
  obtain r1 s1 where c: "create_all dp toCreate 0 s = (r1, s1)" by fastforce
  have s1: "P s1"
    using create_all_preserves [of toCreate P dp s, OF _ assms(5) c] assms(1) Diff_sockets(3) [OF diff] by blast
  obtain r2 s2 where d: "delete_all dp gc toDelete 0 s1 = (r2, s2)" by fastforce
  have s2: "P s2"
  proof (rule delete_all_preserves [of toDelete P gc dp, OF _ _ s1 d])
    fix m t t1 e t2 assume "m \<in> set toDelete" "P t" "gate_call gc m t = (True, t1)" "DeleteMaster dp m t1 = (e, t2)"
    then show "P t2" using assms(2) [OF Inr] Diff_deleted [OF diff] by blast
  qed (rule assms(3))
  obtain r3 s3 where sw: "SweepOrphanSockets dp (remdups (map Socket desired @ map Socket actual)) s2 = (r3, s3)"
    by fastforce
  have "s' \<in> {s1, s2, s3}"
    using assms(6) Inr diff c d sw by (auto simp: Reconcile_def split: prod.splits option.splits)
  with s1 s2 assms(4) [OF Inr s2 sw] show ?thesis by blast
qed

section \<open>The contract of a dataplane\<close>

text \<open>
  \<open>view s\<close> is what \<open>DumpMasters\<close> would report in state \<open>s\<close>, as pairs of interface index and socket;
  \<open>managed\<close> are the sockets that the dataplane confines itself to. A failed \<open>CreateMaster\<close> may leave the
  master behind (it fails after the interface exists), a failed \<open>DeleteMaster\<close> may have removed it.
\<close>

locale dataplane =
  fixes dp :: "'s Dataplane" and inv :: "'s \<Rightarrow> bool" and view :: "'s \<Rightarrow> (u32 \<times> string) set"
    and managed :: "string \<Rightarrow> bool"
  assumes dump_view: "inv s \<Longrightarrow> DumpMasters dp s = Inr ms \<Longrightarrow> (\<lambda>m. (SwIfIndex m, Socket m)) ` set ms = view s"
    and create_ok: "inv s \<Longrightarrow> managed (Socket m) \<Longrightarrow> CreateMaster dp m s = (None, s') \<Longrightarrow>
      inv s' \<and> (\<exists>i. i \<notin> fst ` view s \<and> view s' = insert (i, Socket m) (view s))"
    and create_err: "inv s \<Longrightarrow> managed (Socket m) \<Longrightarrow> CreateMaster dp m s = (Some e, s') \<Longrightarrow>
      inv s' \<and> view s \<subseteq> view s' \<and> snd ` view s' \<subseteq> insert (Socket m) (snd ` view s) \<and>
      fst ` (view s' - view s) \<inter> fst ` view s = {}"
    and delete_ok: "inv s \<Longrightarrow> DeleteMaster dp m s = (None, s') \<Longrightarrow>
      inv s' \<and> view s' = {x \<in> view s. fst x \<noteq> SwIfIndex m}"
    and delete_err: "inv s \<Longrightarrow> DeleteMaster dp m s = (Some e, s') \<Longrightarrow>
      inv s' \<and> {x \<in> view s. fst x \<noteq> SwIfIndex m} \<subseteq> view s' \<and> view s' \<subseteq> view s"
    and sweep_frame: "inv s \<Longrightarrow> SweepOrphanSockets dp keep s = (r, s') \<Longrightarrow> inv s' \<and> view s' = view s"
    and view_index: "inv s \<Longrightarrow> (i, a) \<in> view s \<Longrightarrow> (i, b) \<in> view s \<Longrightarrow> a = b"
begin

definition gate_frame :: "(Memif \<Rightarrow> 's \<Rightarrow> bool \<times> 's) option \<Rightarrow> bool" where
  "gate_frame gc \<longleftrightarrow>
     (\<forall>g. gc = Some g \<longrightarrow> (\<forall>m s b s'. inv s \<longrightarrow> g m s = (b, s') \<longrightarrow> inv s' \<and> view s' = view s))"

lemma gate_frame_None [simp]: "gate_frame None"
  by (simp add: gate_frame_def)

text \<open>The gate's answer together with its frame.\<close>

lemma gate_step:
  assumes "inv s" and "gate_frame gc" and "(case gc of None \<Rightarrow> (True, s) | Some g \<Rightarrow> g m s) = (b, s1)"
  shows "inv s1 \<and> view s1 = view s"
  using assms by (auto simp: gate_frame_def split: option.splits)

lemma create_all_ok:
  "inv s \<Longrightarrow> \<forall>m\<in>set ms. managed (Socket m) \<Longrightarrow> create_all dp ms n s = ((n', None), s') \<Longrightarrow>
   inv s' \<and> n' = n + length ms \<and>
   (\<exists>new. view s' = view s \<union> new \<and> fst ` new \<inter> fst ` view s = {} \<and> snd ` new = Socket ` set ms)"
proof (induction ms arbitrary: n s)
  case Nil
  then show ?case by auto
next
  case (Cons m ms)
  from Cons.prems(3) obtain s1 where c: "CreateMaster dp m s = (None, s1)"
    and rest: "create_all dp ms (Suc n) s1 = ((n', None), s')"
    by (auto split: prod.splits option.splits)
  from create_ok [OF Cons.prems(1) _ c] Cons.prems(2) obtain i where
    s1: "inv s1" "i \<notin> fst ` view s" "view s1 = insert (i, Socket m) (view s)" by auto
  from Cons.IH [OF s1(1) _ rest] Cons.prems(2) obtain new where
    new: "inv s'" "n' = Suc n + length ms" "view s' = view s1 \<union> new"
      "fst ` new \<inter> fst ` view s1 = {}" "snd ` new = Socket ` set ms" by auto
  have "view s' = view s \<union> insert (i, Socket m) new" using new(3) s1(3) by auto
  moreover have "fst ` insert (i, Socket m) new \<inter> fst ` view s = {}" using new(4) s1(2,3) by auto
  moreover have "snd ` insert (i, Socket m) new = Socket ` set (m # ms)" using new(5) by simp
  ultimately show ?case
    using new(1,2) by (intro conjI exI [of _ "insert (i, Socket m) new"]) simp_all
qed

lemma create_all_any:
  "inv s \<Longrightarrow> \<forall>m\<in>set ms. managed (Socket m) \<Longrightarrow> create_all dp ms n s = ((n', e), s') \<Longrightarrow>
   inv s' \<and> view s \<subseteq> view s' \<and> snd ` view s' \<subseteq> snd ` view s \<union> Socket ` set ms \<and>
   fst ` (view s' - view s) \<inter> fst ` view s = {} \<and> n \<le> n' \<and> n' \<le> n + length ms"
proof (induction ms arbitrary: n s)
  case (Cons m ms)
  obtain e1 s1 where c: "CreateMaster dp m s = (e1, s1)" by fastforce
  show ?case
  proof (cases e1)
    case None
    from create_ok [OF Cons.prems(1) _ c [unfolded None]] Cons.prems(2) obtain i where
      s1: "inv s1" "i \<notin> fst ` view s" "view s1 = insert (i, Socket m) (view s)" by auto
    have IH: "inv s' \<and> view s1 \<subseteq> view s' \<and> snd ` view s' \<subseteq> snd ` view s1 \<union> Socket ` set ms \<and>
      fst ` (view s' - view s1) \<inter> fst ` view s1 = {} \<and> Suc n \<le> n' \<and> n' \<le> Suc n + length ms"
      using Cons.IH [OF s1(1), of "Suc n"] Cons.prems c None by simp
    then have "fst ` (view s' - view s) \<inter> fst ` view s = {}"
      using s1(2,3) fresh_trans [of "view s'" i "Socket m" "view s"] by simp
    moreover have "snd ` view s' \<subseteq> snd ` view s \<union> Socket ` set (m # ms)" using IH s1(3) by auto
    moreover have "view s \<subseteq> view s'" using IH s1(3) by blast
    ultimately show ?thesis using IH by simp
  next
    case (Some x)
    have man: "managed (Socket m)" using Cons.prems(2) by simp
    note err = create_err [OF Cons.prems(1) man c [unfolded Some]]
    have "s' = s1" "n' = n" using Cons.prems(3) c Some by simp_all
    with err show ?thesis by auto
  qed
qed auto

lemma delete_all_any:
  "inv s \<Longrightarrow> gate_frame gc \<Longrightarrow> delete_all dp gc ms n s = ((n', e), s') \<Longrightarrow>
   inv s' \<and> {x \<in> view s. fst x \<notin> SwIfIndex ` set ms} \<subseteq> view s' \<and> view s' \<subseteq> view s"
proof (induction ms arbitrary: n s)
  case (Cons m ms)
  obtain b s1 where g: "(case gc of None \<Rightarrow> (True, s) | Some g \<Rightarrow> g m s) = (b, s1)" by fastforce
  have s1: "inv s1" "view s1 = view s" using gate_step [OF Cons.prems(1,2) g] by auto
  show ?case
  proof (cases b)
    case False
    then have "delete_all dp gc ms n s1 = ((n', e), s')" using Cons.prems(3) g by simp
    from Cons.IH [OF s1(1) Cons.prems(2) this] show ?thesis using s1(2) by auto
  next
    case True
    obtain e1 s2 where d: "DeleteMaster dp m s1 = (e1, s2)" by fastforce
    show ?thesis
    proof (cases e1)
      case None
      have s2: "inv s2" "view s2 = {x \<in> view s. fst x \<noteq> SwIfIndex m}"
        using delete_ok [OF s1(1)] d None s1(2) by auto
      have "delete_all dp gc ms (Suc n) s2 = ((n', e), s')" using Cons.prems(3) g d True None by simp
      from Cons.IH [OF s2(1) Cons.prems(2) this] show ?thesis using s2(2) by auto
    next
      case (Some x)
      have "inv s2" "{x \<in> view s. fst x \<noteq> SwIfIndex m} \<subseteq> view s2" "view s2 \<subseteq> view s"
        using delete_err [OF s1(1) d [unfolded Some]] s1(2) by simp_all
      moreover have "s2 = s'" using Cons.prems(3) g d True Some by simp
      ultimately show ?thesis by auto
    qed
  qed
qed auto

lemma delete_all_nil:
  "inv s \<Longrightarrow> delete_all dp None ms n s = ((n', None), s') \<Longrightarrow>
   inv s' \<and> n' = n + length ms \<and> view s' = {x \<in> view s. fst x \<notin> SwIfIndex ` set ms}"
proof (induction ms arbitrary: n s)
  case (Cons m ms)
  from Cons.prems(2) obtain s2 where d: "DeleteMaster dp m s = (None, s2)"
    and rest: "delete_all dp None ms (Suc n) s2 = ((n', None), s')"
    by (auto split: prod.splits option.splits)
  from delete_ok [OF Cons.prems(1) d] Cons.IH [OF _ rest] show ?case by auto
qed auto

text \<open>A socket that the gate never admits survives the deletions.\<close>

lemma delete_all_refused:
  "inv s \<Longrightarrow> gate_frame (Some g) \<Longrightarrow> delete_all dp (Some g) ms n s = ((n', e), s') \<Longrightarrow>
   \<forall>m\<in>set ms. SwIfIndex m = fst x \<longrightarrow> (\<forall>t. \<not> fst (g m t)) \<Longrightarrow> x \<in> view s \<Longrightarrow> x \<in> view s'"
proof (induction ms arbitrary: n s)
  case (Cons m ms)
  obtain b s1 where g: "g m s = (b, s1)" by fastforce
  have s1: "inv s1" "view s1 = view s" using gate_step [OF Cons.prems(1,2), of m b s1] g by auto
  have rec: "inv t \<Longrightarrow> delete_all dp (Some g) ms k t = ((n', e), s') \<Longrightarrow> x \<in> view t \<Longrightarrow> x \<in> view s'" for k t
    using Cons.IH [of t k] Cons.prems(2,4) by auto
  show ?case
  proof (cases b)
    case False
    then show ?thesis using rec [OF s1(1)] Cons.prems(3,5) g s1(2) by simp
  next
    case True
    then have ne: "fst x \<noteq> SwIfIndex m" using Cons.prems(4) g by (metis fst_conv list.set_intros(1))
    obtain e1 s2 where d: "DeleteMaster dp m s1 = (e1, s2)" by fastforce
    show ?thesis
    proof (cases e1)
      case None
      then show ?thesis
        using rec [of s2 "Suc n"] Cons.prems(3,5) g d True ne delete_ok [OF s1(1)] s1(2) by auto
    next
      case (Some y)
      then show ?thesis using Cons.prems(3,5) g d True ne delete_err [OF s1(1)] s1(2) by auto
    qed
  qed
qed simp

lemma Reconcile_cases:
  assumes "Reconcile dp desired gc s = ((c, d, e), s')"
  obtains (dump) e1 where "DumpMasters dp s = Inl e1" "c = 0" "d = 0" "e = Some e1" "s' = s"
  | (create) actual toCreate toDelete e1 where "DumpMasters dp s = Inr actual"
      "Diff desired actual = (toCreate, toDelete)" "create_all dp toCreate 0 s = ((c, Some e1), s')"
      "d = 0" "e = Some e1"
  | (delete) actual toCreate toDelete s1 e1 where "DumpMasters dp s = Inr actual"
      "Diff desired actual = (toCreate, toDelete)" "create_all dp toCreate 0 s = ((c, None), s1)"
      "delete_all dp gc toDelete 0 s1 = ((d, Some e1), s')" "e = Some e1"
  | (finish) actual toCreate toDelete s1 s2 r where "DumpMasters dp s = Inr actual"
      "Diff desired actual = (toCreate, toDelete)" "create_all dp toCreate 0 s = ((c, None), s1)"
      "delete_all dp gc toDelete 0 s1 = ((d, None), s2)" "e = None"
      "SweepOrphanSockets dp (remdups (map Socket desired @ map Socket actual)) s2 = (r, s')"
  using assms by (auto simp: Reconcile_def split: sum.splits prod.splits option.splits)

text \<open>The indices of the orphans belong to no desired master, before and after the creations.\<close>

lemma orphan_indices:
  assumes inv: "inv s" and dump: "DumpMasters dp s = Inr actual"
    and diff: "Diff desired actual = (toCreate, toDelete)"
    and x: "x \<in> view s" "snd x \<in> Socket ` set desired"
  shows "fst x \<notin> SwIfIndex ` set toDelete"
proof
  assume "fst x \<in> SwIfIndex ` set toDelete"
  then obtain a where a: "a \<in> set actual" "Socket a \<notin> Socket ` set desired" "fst x = SwIfIndex a"
    using Diff_deleted [OF diff] by auto
  have "(SwIfIndex a, Socket a) \<in> view s" using dump_view [OF inv dump] a(1) by blast
  moreover have "(SwIfIndex a, snd x) \<in> view s" using x(1) a(3) by (metis prod.collapse)
  ultimately have "snd x = Socket a" using view_index [OF inv] by blast
  with x(2) a(2) show False by simp
qed

lemma to_delete_indices:
  assumes inv: "inv s" and dump: "DumpMasters dp s = Inr actual"
    and diff: "Diff desired actual = (toCreate, toDelete)"
  shows "SwIfIndex ` set toDelete \<subseteq> fst ` view s"
    and "x \<in> view s \<Longrightarrow> snd x \<notin> Socket ` set desired \<Longrightarrow> fst x \<in> SwIfIndex ` set toDelete"
proof -
  have v: "view s = (\<lambda>m. (SwIfIndex m, Socket m)) ` set actual" using dump_view [OF inv dump] by simp
  then show "SwIfIndex ` set toDelete \<subseteq> fst ` view s" using Diff_sockets(4) [OF diff] by force
  assume "x \<in> view s" "snd x \<notin> Socket ` set desired"
  then show "fst x \<in> SwIfIndex ` set toDelete" using v Diff_deleted [OF diff] by force
qed

lemma dump_managed_create:
  assumes "Diff desired actual = (toCreate, toDelete)" and "\<forall>m\<in>set desired. managed (Socket m)"
  shows "\<forall>m\<in>set toCreate. managed (Socket m)"
  using assms Diff_sockets(3) by blast

text \<open>Without a gate and without an error the dataplane holds the desired sockets, and no others.\<close>

theorem Reconcile_converges:
  assumes inv: "inv s" and man: "\<forall>m\<in>set desired. managed (Socket m)"
    and run: "Reconcile dp desired None s = ((c, d, None), s')"
  shows "inv s' \<and> snd ` view s' = Socket ` set desired"
proof -
  from run obtain actual toCreate toDelete s1 s2 r where dump: "DumpMasters dp s = Inr actual"
    and diff: "Diff desired actual = (toCreate, toDelete)"
    and cr: "create_all dp toCreate 0 s = ((c, None), s1)"
    and de: "delete_all dp None toDelete 0 s1 = ((d, None), s2)"
    and sw: "SweepOrphanSockets dp (remdups (map Socket desired @ map Socket actual)) s2 = (r, s')"
    by (rule Reconcile_cases) auto
  from create_all_ok [OF inv dump_managed_create [OF diff man] cr] obtain new where
    s1: "inv s1" "view s1 = view s \<union> new" "fst ` new \<inter> fst ` view s = {}"
      "snd ` new = Socket ` set toCreate" by auto
  have s2: "inv s2" "view s2 = {x \<in> view s1. fst x \<notin> SwIfIndex ` set toDelete}"
    using delete_all_nil [OF s1(1) de] by auto
  have v: "snd ` view s = Socket ` set actual" using dump_view [OF inv dump] by force
  have "fst ` new \<inter> SwIfIndex ` set toDelete = {}"
    using s1(3) to_delete_indices(1) [OF inv dump diff] by blast
  then have keep: "new \<subseteq> view s2" using s1(2) s2(2) by blast
  have "{x \<in> view s. fst x \<notin> SwIfIndex ` set toDelete} = {x \<in> view s. snd x \<in> Socket ` set desired}"
    using orphan_indices [OF inv dump diff] to_delete_indices(2) [OF inv dump diff] by blast
  moreover have "view s2 = new \<union> {x \<in> view s. fst x \<notin> SwIfIndex ` set toDelete}"
    using s1(2) s2(2) keep by blast
  ultimately have "view s2 = new \<union> {x \<in> view s. snd x \<in> Socket ` set desired}" by simp
  then have "snd ` view s2 = Socket ` set toCreate \<union> (snd ` view s \<inter> Socket ` set desired)"
    using s1(4) by (auto simp: image_Un)
  also have "\<dots> = Socket ` set desired" using Diff_sockets(1) [OF diff] v by auto
  finally show ?thesis using sweep_frame [OF s2(1) sw] by simp
qed

text \<open>Whatever the gate says, a reconcile without an error leaves every desired socket backed.\<close>

theorem Reconcile_restores:
  assumes inv: "inv s" and man: "\<forall>m\<in>set desired. managed (Socket m)" and gate: "gate_frame gc"
    and run: "Reconcile dp desired gc s = ((c, d, None), s')"
  shows "Socket ` set desired \<subseteq> snd ` view s'"
proof -
  from run obtain actual toCreate toDelete s1 s2 r where dump: "DumpMasters dp s = Inr actual"
    and diff: "Diff desired actual = (toCreate, toDelete)"
    and cr: "create_all dp toCreate 0 s = ((c, None), s1)"
    and de: "delete_all dp gc toDelete 0 s1 = ((d, None), s2)"
    and sw: "SweepOrphanSockets dp (remdups (map Socket desired @ map Socket actual)) s2 = (r, s')"
    by (rule Reconcile_cases) auto
  from create_all_ok [OF inv dump_managed_create [OF diff man] cr] obtain new where
    s1: "inv s1" "view s1 = view s \<union> new" "fst ` new \<inter> fst ` view s = {}"
      "snd ` new = Socket ` set toCreate" by auto
  have s2: "inv s2" "{x \<in> view s1. fst x \<notin> SwIfIndex ` set toDelete} \<subseteq> view s2"
    using delete_all_any [OF s1(1) gate de] by auto
  have new: "new \<subseteq> view s2"
  proof
    fix x assume x: "x \<in> new"
    then have "fst x \<notin> fst ` view s" using s1(3) by (metis disjoint_iff imageI)
    then have "fst x \<notin> SwIfIndex ` set toDelete" using to_delete_indices(1) [OF inv dump diff] by (metis subsetD)
    then show "x \<in> view s2" using x s1(2) s2(2) by (metis (mono_tags, lifting) CollectI UnI2 subsetD)
  qed
  have old: "x \<in> view s2" if "x \<in> view s" "snd x \<in> Socket ` set desired" for x
    using orphan_indices [OF inv dump diff that] that(1) s1(2) s2(2)
    by (metis (mono_tags, lifting) CollectI UnI1 subsetD)
  have v: "snd ` view s = Socket ` set actual" using dump_view [OF inv dump] by force
  have "q \<in> snd ` view s2" if q: "q \<in> Socket ` set desired" for q
  proof (cases "q \<in> Socket ` set actual")
    case True
    then obtain x where x: "x \<in> view s" "q = snd x" unfolding v [symmetric] by (rule imageE)
    have "x \<in> view s2" using old [OF x(1)] q x(2) by simp
    then show ?thesis using x(2) by simp
  next
    case False
    then have "q \<in> snd ` new" using q Diff_sockets(1) [OF diff] s1(4) by simp
    then show ?thesis using image_mono [OF new] by (metis subsetD)
  qed
  then have "Socket ` set desired \<subseteq> snd ` view s2" by (rule subsetI)
  then show ?thesis using sweep_frame [OF s2(1) sw] by simp
qed

text \<open>Whatever the gate says and wherever an error stops it, no desired master is lost.\<close>

theorem Reconcile_safe:
  assumes inv: "inv s" and man: "\<forall>m\<in>set desired. managed (Socket m)" and gate: "gate_frame gc"
    and run: "Reconcile dp desired gc s = ((c, d, e), s')"
  shows "inv s'" and "x \<in> view s \<Longrightarrow> snd x \<in> Socket ` set desired \<Longrightarrow> x \<in> view s'"
    and "snd ` view s' \<subseteq> snd ` view s \<union> Socket ` set desired"
proof -
  have "inv s' \<and> (\<forall>x\<in>view s. snd x \<in> Socket ` set desired \<longrightarrow> x \<in> view s') \<and>
    snd ` view s' \<subseteq> snd ` view s \<union> Socket ` set desired"
    using run
  proof (cases rule: Reconcile_cases)
    case dump
    with inv show ?thesis by auto
  next
    case (create actual toCreate toDelete e1)
    show ?thesis
      using create_all_any [OF inv dump_managed_create [OF create(2) man] create(3)]
        Diff_sockets(1) [OF create(2)] by auto
  next
    case (delete actual toCreate toDelete s1 e1)
    note c1 = create_all_any [OF inv dump_managed_create [OF delete(2) man] delete(3)]
    then have d1: "inv s'" "{x \<in> view s1. fst x \<notin> SwIfIndex ` set toDelete} \<subseteq> view s'" "view s' \<subseteq> view s1"
      using delete_all_any [OF _ gate delete(4)] by auto
    have "x \<in> view s'" if "x \<in> view s" "snd x \<in> Socket ` set desired" for x
      using orphan_indices [OF inv delete(1,2) that] that(1) c1 d1(2) by blast
    moreover have "snd ` view s' \<subseteq> snd ` view s \<union> Socket ` set desired"
    proof -
      have "snd ` view s' \<subseteq> snd ` view s1" using d1(3) by (rule image_mono)
      also have "\<dots> \<subseteq> snd ` view s \<union> Socket ` set toCreate" using c1 by simp
      finally show ?thesis using Diff_sockets(1) [OF delete(2)] by auto
    qed
    ultimately show ?thesis using d1(1) by blast
  next
    case (finish actual toCreate toDelete s1 s2 r)
    note c1 = create_all_any [OF inv dump_managed_create [OF finish(2) man] finish(3)]
    then have d1: "inv s2" "{x \<in> view s1. fst x \<notin> SwIfIndex ` set toDelete} \<subseteq> view s2" "view s2 \<subseteq> view s1"
      using delete_all_any [OF _ gate finish(4)] by auto
    have sw: "inv s'" "view s' = view s2" using sweep_frame [OF d1(1) finish(6)] by auto
    have "x \<in> view s'" if "x \<in> view s" "snd x \<in> Socket ` set desired" for x
      using orphan_indices [OF inv finish(1,2) that] that(1) c1 d1(2) sw(2) by blast
    moreover have "snd ` view s' \<subseteq> snd ` view s \<union> Socket ` set desired"
    proof -
      have "snd ` view s' \<subseteq> snd ` view s1" unfolding sw(2) using d1(3) by (rule image_mono)
      also have "\<dots> \<subseteq> snd ` view s \<union> Socket ` set toCreate" using c1 by simp
      finally show ?thesis using Diff_sockets(1) [OF finish(2)] by auto
    qed
    ultimately show ?thesis using sw(1) by blast
  qed
  then show "inv s'" and "x \<in> view s \<Longrightarrow> snd x \<in> Socket ` set desired \<Longrightarrow> x \<in> view s'"
    and "snd ` view s' \<subseteq> snd ` view s \<union> Socket ` set desired" by blast+
qed

text \<open>On a dataplane that already holds the desired sockets nothing is created or deleted.\<close>

theorem Reconcile_noop:
  assumes inv: "inv s" and same: "snd ` view s = Socket ` set desired"
    and run: "Reconcile dp desired gc s = ((c, d, e), s')"
  shows "c = 0 \<and> d = 0 \<and> inv s' \<and> view s' = view s"
  using run
proof (cases rule: Reconcile_cases)
  case dump
  with inv show ?thesis by simp
next
  case (create actual toCreate toDelete e1)
  have "snd ` view s = Socket ` set actual" using dump_view [OF inv create(1)] by force
  with create same Diff_same [of desired actual] show ?thesis by simp
next
  case (delete actual toCreate toDelete s1 e1)
  have "snd ` view s = Socket ` set actual" using dump_view [OF inv delete(1)] by force
  with delete same Diff_same [of desired actual] show ?thesis by simp
next
  case (finish actual toCreate toDelete s1 s2 r)
  have "snd ` view s = Socket ` set actual" using dump_view [OF inv finish(1)] by force
  with finish same Diff_same [of desired actual] have "c = 0" "d = 0" "s2 = s" by simp_all
  then show ?thesis using sweep_frame [OF inv] finish(6) by simp
qed

end

end
