(* ===== verification/Desired.thy ===== *)
theory Desired
  imports Annotations Vpp_Memif Reconcile
begin

text \<open>
  The desired memif masters of a pod, \<open>pkg/daemon/desired.go\<close>: the networks that a pod names in its
  Multus annotation (short form or JSON), the bridge domain and socket file that the host
  configuration of a network gives an interface, and the list of masters of a pod.
\<close>

section \<open>Networks of a pod\<close>

definition netAnnotKey :: string where
  "netAnnotKey = ''k8s.v1.cni.cncf.io/networks''"

record networkRef =
  nr_Namespace :: string
  nr_Name :: string
  nr_Interface :: string

text \<open>An element of the JSON form.\<close>

record net_elem =
  ne_Name :: string
  ne_Namespace :: string
  ne_Interface :: string

definition zero_net_elem :: net_elem where
  "zero_net_elem = \<lparr>ne_Name = [], ne_Namespace = [], ne_Interface = []\<rparr>"

definition net_elem_fields :: "net_elem fields" where
  "net_elem_fields = [
     (''name'', field ne_Name (\<lambda>y. ne_Name_update (\<lambda>_. y)) dec_string),
     (''namespace'', field ne_Namespace (\<lambda>y. ne_Namespace_update (\<lambda>_. y)) dec_string),
     (''interface'', field ne_Interface (\<lambda>y. ne_Interface_update (\<lambda>_. y)) dec_string)]"

definition json_network :: "string \<Rightarrow> net_elem \<Rightarrow> networkRef list" where
  "json_network defaultNS e =
     (if ne_Name e = [] then []
      else [\<lparr>nr_Namespace = (if ne_Namespace e = [] then defaultNS else ne_Namespace e),
             nr_Name = ne_Name e, nr_Interface = ne_Interface e\<rparr>])"

text \<open>One element of the short form, \<open>[ns/]name[@iface]\<close>.\<close>

definition short_network :: "string \<Rightarrow> string \<Rightarrow> networkRef list" where
  "short_network defaultNS tok0 =
     (let tok = trimSpace tok0
      in if tok = [] then []
         else
           (let (iface, tok1) = (case indexByte tok (CHR ''@'') of
                                   Some i \<Rightarrow> (drop (Suc i) tok, take i tok) | None \<Rightarrow> ([], tok));
                (ns, name) = (case indexByte tok1 (CHR ''/'') of
                                Some i \<Rightarrow> (take i tok1, drop (Suc i) tok1) | None \<Rightarrow> (defaultNS, tok1))
            in if name = [] then []
               else [\<lparr>nr_Namespace = ns, nr_Name = name, nr_Interface = iface\<rparr>]))"

definition parseNetworks :: "string \<Rightarrow> string \<Rightarrow> networkRef list" where
  "parseNetworks annotation0 defaultNS =
     (let ann = trimSpace annotation0
      in if ann = [] then []
         else if hasPrefix ann ''['' then
           (case Unmarshal (dec_slice (dec_struct net_elem_fields) zero_net_elem) ann [] of
              Inl _ \<Rightarrow> []
            | Inr arr \<Rightarrow> concat (map (json_network defaultNS) arr))
         else concat (map (short_network defaultNS) (splitOn (CHR '','') ann)))"

section \<open>One interface\<close>

definition bridgeDomainID :: "BridgeConf \<Rightarrow> u32 result" where
  "bridgeDomainID b =
     (if BridgeName b \<noteq> [] then
        (case parseUint32 (BridgeName b) of
           Inl e \<Rightarrow> Inl (EWrap (''bridgeName '' @ BridgeName b @ '' is not a numeric bridge id'') (ENum e))
         | Inr n \<Rightarrow> Inr (word_of_int n))
      else Inr (word_of_int (BridgeId b)))"

definition socketFileName :: "ConfigurationData \<Rightarrow> UserSpaceConf \<Rightarrow> string" where
  "socketFileName e host = SocketFileName (mc_Socketfile (uc_MemifConf host)) (cd_ContainerId e) (cd_IfName e)"

text \<open>\<open>Inr None\<close> is \<open>ok = false\<close>: no master for this interface.\<close>

definition desiredMemif :: "ConfigurationData \<Rightarrow> UserSpaceConf \<Rightarrow> string \<Rightarrow> (Memif option) result" where
  "desiredMemif e host hostSharedDir =
     (if \<not> equalFold (IfType host) ''memif'' then Inr None
      else if Engine host \<noteq> [] \<and> \<not> equalFold (Engine host) ''vpp'' then Inr None
      else
        (case (if equalFold (NetType host) ''bridge'' then bridgeDomainID (uc_BridgeConf host) else Inr 0) of
           Inl err \<Rightarrow> Inl err
         | Inr bdID \<Rightarrow>
             (let c = uc_MemifConf host;
                  mode = (if mc_Mode c = [] then mc_Mode (uc_MemifConf (cd_Config e)) else mc_Mode c)
              in Inr (Some \<lparr>Socket = pathJoin hostSharedDir (socketFileName e host), mf_ID = 0, BridgeID = bdID,
                   mf_Mode = mode, SwIfIndex = 0, mf_RxQueues = mc_RxQueues c, mf_TxQueues = mc_TxQueues c,
                   mf_RingSize = mc_RingSize c, mf_BufferSize = mc_BufferSize c, mf_Secret = mc_Secret c,
                   mf_HwAddr = MAC host, mf_NoZeroCopy = mc_NoZeroCopy c, mf_UseDma = mc_UseDma c,
                   mf_MTU = word_of_int (MTU host)\<rparr>))))"

text \<open>Append the master of an entry, if it has one, and go on with the rest; an error stops.\<close>

fun build_loop :: "ConfigurationData list \<Rightarrow> UserSpaceConf \<Rightarrow> string \<Rightarrow> Memif list \<Rightarrow> (Memif list) result" where
  "build_loop [] host dir out = Inr out"
| "build_loop (e # es) host dir out =
     (case desiredMemif e host dir of
        Inl err \<Rightarrow> Inl err
      | Inr None \<Rightarrow> build_loop es host dir out
      | Inr (Some m) \<Rightarrow> build_loop es host dir (out @ [m]))"

definition buildDesired :: "ConfigurationData list \<Rightarrow> UserSpaceConf \<Rightarrow> string \<Rightarrow> (Memif list) result" where
  "buildDesired entries host hostSharedDir = build_loop entries host hostSharedDir []"

section \<open>A pod\<close>

text \<open>
  The loop that reads the host configuration of each network. The lookup of a network's configuration
  is a function on a state (the cache and the API of theory \<open>Daemon\<close>).
\<close>

fun read_hosts ::
  "cni_lib \<Rightarrow> (string \<Rightarrow> string \<Rightarrow> 's \<Rightarrow> string result \<times> 's) \<Rightarrow> networkRef list \<Rightarrow> 's \<Rightarrow> (UserSpaceConf list) result \<times> 's"
where
  "read_hosts L nad [] s = (Inr [], s)"
| "read_hosts L nad (n # ns) s =
     (case nad (nr_Namespace n) (nr_Name n) s of
        (Inl e, s1) \<Rightarrow> (Inl (EWrap (''nad '' @ nr_Namespace n @ ''/'' @ nr_Name n) e), s1)
      | (Inr cfg, s1) \<Rightarrow>
          (case Unmarshal_NetConf L cfg of
             Inl e \<Rightarrow> (Inl (EWrap (''parse NAD '' @ nr_Namespace n @ ''/'' @ nr_Name n @ '' config'') e), s1)
           | Inr nc \<Rightarrow>
               (case read_hosts L nad ns s1 of
                  (Inl e, s2) \<Rightarrow> (Inl e, s2)
                | (Inr hosts, s2) \<Rightarrow> (Inr (HostConf nc # hosts), s2))))"

text \<open>The network of an entry: the first one that names its interface or names none.\<close>

definition network_of :: "(networkRef \<times> UserSpaceConf) list \<Rightarrow> ConfigurationData \<Rightarrow> UserSpaceConf option" where
  "network_of nets e =
     map_option snd (find (\<lambda>(n, h). \<not> (nr_Interface n \<noteq> [] \<and> nr_Interface n \<noteq> cd_IfName e)) nets)"

fun match_entries ::
  "(networkRef \<times> UserSpaceConf) list \<Rightarrow> string \<Rightarrow> ConfigurationData list \<Rightarrow> Memif list \<Rightarrow> (Memif list) result" where
  "match_entries nets dir [] out = Inr out"
| "match_entries nets dir (e # es) out =
     (case network_of nets e of
        None \<Rightarrow> match_entries nets dir es out
      | Some host \<Rightarrow>
          (case desiredMemif e host dir of
             Inl err \<Rightarrow> Inl err
           | Inr None \<Rightarrow> match_entries nets dir es out
           | Inr (Some m) \<Rightarrow> match_entries nets dir es (out @ [m])))"

definition desiredForPod ::
  "cni_lib \<Rightarrow> (string \<Rightarrow> string \<Rightarrow> 's \<Rightarrow> string result \<times> 's) \<Rightarrow> Pod \<Rightarrow> 's \<Rightarrow> (Memif list) result \<times> 's" where
  "desiredForPod L nad pod s =
     (let nets = parseNetworks (annotation pod netAnnotKey) (pod_Namespace pod);
          raw = annotation pod AnnotKeyUsrspConfigData
      in if nets = [] then (Inr [], s)
         else if trimSpace raw = [] then (Inr [], s)
         else
           (case Unmarshal_ConfigData L raw of
              Inl e \<Rightarrow> (Inl (EWrap (''parse '' @ AnnotKeyUsrspConfigData) e), s)
            | Inr entries \<Rightarrow>
                if entries = [] then (Inr [], s)
                else
                  (case GetPodVolumeMountHostSharedDir (Some pod) of
                     Inl _ \<Rightarrow> (Inr [], s)
                   | Inr sharedDir \<Rightarrow>
                       if sharedDir = [] then (Inr [], s)
                       else
                         (case read_hosts L nad nets s of
                            (Inl e, s1) \<Rightarrow> (Inl e, s1)
                          | (Inr hosts, s1) \<Rightarrow>
                              if length nets = 1 then (buildDesired entries (hd hosts) sharedDir, s1)
                              else (match_entries (zip nets hosts) sharedDir entries [], s1)))))"

section \<open>The masters of a pod\<close>

lemma build_loop_eq:
  "build_loop es host dir out = Inr ms \<Longrightarrow>
   \<exists>new. ms = out @ new \<and> (\<forall>m\<in>set new. \<exists>e\<in>set es. desiredMemif e host dir = Inr (Some m)) \<and>
     (\<forall>e\<in>set es. \<exists>r. desiredMemif e host dir = Inr r \<and> (\<forall>m. r = Some m \<longrightarrow> m \<in> set new))"
proof (induction es arbitrary: out)
  case (Cons e es)
  show ?case
  proof (cases "desiredMemif e host dir")
    case (Inl x)
    with Cons.prems show ?thesis by simp
  next
    case (Inr r)
    show ?thesis
    proof (cases r)
      case None
      with Inr Cons.prems have "build_loop es host dir out = Inr ms" by simp
      from Cons.IH [OF this] Inr None show ?thesis by auto
    next
      case (Some m)
      with Inr Cons.prems have "build_loop es host dir (out @ [m]) = Inr ms" by simp
      from Cons.IH [OF this] obtain new where new: "ms = (out @ [m]) @ new"
        "\<forall>m\<in>set new. \<exists>e\<in>set es. desiredMemif e host dir = Inr (Some m)"
        "\<forall>e\<in>set es. \<exists>r. desiredMemif e host dir = Inr r \<and> (\<forall>m. r = Some m \<longrightarrow> m \<in> set new)" by blast
      have "ms = out @ m # new" using new(1) by simp
      moreover have "\<forall>x\<in>set (m # new). \<exists>e'\<in>set (e # es). desiredMemif e' host dir = Inr (Some x)"
        using new(2) Inr Some by auto
      moreover have "\<forall>e'\<in>set (e # es). \<exists>r. desiredMemif e' host dir = Inr r \<and> (\<forall>x. r = Some x \<longrightarrow> x \<in> set (m # new))"
        using new(3) Inr Some by fastforce
      ultimately show ?thesis by blast
    qed
  qed
qed auto

lemma desiredMemif_socket:
  assumes "desiredMemif e host dir = Inr (Some m)"
  shows "Socket m = pathJoin dir (socketFileName e host)"
  using assms by (auto simp: desiredMemif_def Let_def split: if_splits sum.splits)

lemma match_entries_sockets:
  "match_entries nets dir es out = Inr ms \<Longrightarrow> m \<in> set ms \<Longrightarrow> m \<notin> set out \<Longrightarrow>
   \<exists>e\<in>set es. \<exists>host. network_of nets e = Some host \<and> desiredMemif e host dir = Inr (Some m)"
proof (induction es arbitrary: out)
  case (Cons e es)
  then show ?case
    by (cases "network_of nets e"; cases "desiredMemif e (the (network_of nets e)) dir")
       (fastforce split: option.splits)+
qed simp

lemma read_hosts_length: "fst (read_hosts L nad ns s) = Inr hosts \<Longrightarrow> length hosts = length ns"
proof (induction ns arbitrary: s hosts)
  case (Cons n ns)
  obtain r s1 where r: "nad (nr_Namespace n) (nr_Name n) s = (r, s1)" by fastforce
  obtain r2 s2 where r2: "read_hosts L nad ns s1 = (r2, s2)" by fastforce
  show ?case
    using Cons.prems Cons.IH [of s1] r r2 by (auto split: sum.splits)
qed simp

lemma network_of_host: "network_of (zip ns hosts) e = Some host \<Longrightarrow> host \<in> set hosts"
  by (auto simp: network_of_def find_Some_iff dest: nth_mem set_zip_rightD)

text \<open>Every desired master of a pod comes from an entry of its annotation and the host configuration of one of its networks.\<close>

lemma desiredForPod_origin:
  assumes "desiredForPod L nad pod s = (Inr ms, s')" and "m \<in> set ms"
  obtains dir entries hosts e host where "GetPodVolumeMountHostSharedDir (Some pod) = Inr dir" "dir \<noteq> []"
    "Unmarshal_ConfigData L (annotation pod AnnotKeyUsrspConfigData) = Inr entries" "e \<in> set entries"
    "fst (read_hosts L nad (parseNetworks (annotation pod netAnnotKey) (pod_Namespace pod)) s) = Inr hosts" "host \<in> set hosts"
    "desiredMemif e host dir = Inr (Some m)"
proof -
  let ?nets = "parseNetworks (annotation pod netAnnotKey) (pod_Namespace pod)"
  from assms obtain entries dir hosts where dir: "GetPodVolumeMountHostSharedDir (Some pod) = Inr dir" "dir \<noteq> []"
    and entries: "Unmarshal_ConfigData L (annotation pod AnnotKeyUsrspConfigData) = Inr entries"
    and hosts: "fst (read_hosts L nad ?nets s) = Inr hosts"
    and run: "(if length ?nets = 1 then build_loop entries (hd hosts) dir [] else match_entries (zip ?nets hosts) dir entries []) = Inr ms"
    by (auto simp: desiredForPod_def buildDesired_def Let_def split: if_splits sum.splits prod.splits)
  have "\<exists>e\<in>set entries. \<exists>host\<in>set hosts. desiredMemif e host dir = Inr (Some m)"
  proof (cases "length ?nets = 1")
    case True
    then have "hd hosts \<in> set hosts" using read_hosts_length [OF hosts] by (cases hosts) auto
    with True run build_loop_eq [of entries "hd hosts" dir "[]" ms] assms(2) show ?thesis by auto blast
  next
    case False
    with run match_entries_sockets [of _ dir entries "[]" ms m] assms(2) network_of_host show ?thesis by fastforce
  qed
  with dir entries hosts that show thesis by blast
qed

lemma desiredMemif_type: "desiredMemif e host dir = Inr (Some m) \<Longrightarrow> equalFold (IfType host) ''memif''"
  by (auto simp: desiredMemif_def split: if_splits)

section \<open>Properties\<close>

text \<open>The short form of a network reference, and the references that it can express.\<close>

definition show_ref :: "networkRef \<Rightarrow> string" where
  "show_ref r = nr_Namespace r @ ''/'' @ nr_Name r @ (if nr_Interface r = [] then [] else ''@'' @ nr_Interface r)"

definition ref_char :: "char \<Rightarrow> bool" where
  "ref_char c \<longleftrightarrow> graphic c \<and> c \<notin> set '',@/[''"

definition ref_ok :: "networkRef \<Rightarrow> bool" where
  "ref_ok r \<longleftrightarrow> nr_Name r \<noteq> [] \<and> list_all ref_char (nr_Namespace r) \<and> list_all ref_char (nr_Name r) \<and>
     list_all ref_char (nr_Interface r)"

lemma graphic_separators: "graphic (CHR ''/'')" "graphic (CHR ''@'')"
  by (simp_all add: graphic_def)

lemma show_ref_graphic:
  assumes "ref_ok r"
  shows "show_ref r \<noteq> []" and "\<forall>c\<in>set (show_ref r). graphic c \<and> c \<noteq> CHR '',''" and "hd (show_ref r) \<noteq> CHR ''[''"
proof -
  show "show_ref r \<noteq> []" by (simp add: show_ref_def)
  show "\<forall>c\<in>set (show_ref r). graphic c \<and> c \<noteq> CHR '',''"
    using assms by (auto simp: show_ref_def ref_ok_def ref_char_def list_all_iff graphic_separators)
  show "hd (show_ref r) \<noteq> CHR ''[''"
    using assms by (cases "nr_Namespace r") (auto simp: show_ref_def ref_ok_def ref_char_def)
qed

lemma trimSpace_all_graphic: "s \<noteq> [] \<Longrightarrow> \<forall>c\<in>set s. graphic c \<Longrightarrow> trimSpace s = s"
  by (rule trimSpace_graphic) auto

lemma joined_graphic: "\<forall>r\<in>set rs. ref_ok r \<Longrightarrow> \<forall>c\<in>set (joinWith '','' (map show_ref rs)). graphic c"
proof (induction rs)
  case (Cons r rs)
  have "graphic (CHR '','')" by (simp add: graphic_def)
  with Cons show_ref_graphic(2) [of r] show ?case by (cases "rs = []") (auto simp: joinWith_Cons)
qed simp

lemma short_network_show_ref:
  assumes "ref_ok r"
  shows "short_network ns (show_ref r) = [r]"
proof -
  note g = show_ref_graphic [OF assms]
  have t: "trimSpace (show_ref r) = show_ref r" using g(1,2) by (intro trimSpace_all_graphic) auto
  let ?a = "nr_Namespace r @ ''/'' @ nr_Name r"
  have sep: "CHR ''@'' \<notin> set x" "CHR ''/'' \<notin> set x" if "list_all ref_char x" for x
    using that by (induction x) (auto simp: ref_char_def)
  have at: "CHR ''@'' \<notin> set ?a" and sl: "CHR ''/'' \<notin> set (nr_Namespace r)"
    using assms sep [of "nr_Namespace r"] sep [of "nr_Name r"] by (simp_all add: ref_ok_def)
  have cut_at: "(case indexByte (show_ref r) (CHR ''@'') of
       Some i \<Rightarrow> (drop (Suc i) (show_ref r), take i (show_ref r)) | None \<Rightarrow> ([], show_ref r)) = (nr_Interface r, ?a)"
  proof (cases "nr_Interface r = []")
    case True
    then have a: "show_ref r = ?a" by (simp add: show_ref_def)
    have "indexByte ?a (CHR ''@'') = None" using at by (simp only: indexByte_None_iff not_False_eq_True)
    then show ?thesis using True by (simp only: a option.case)
  next
    case False
    then have "show_ref r = ?a @ CHR ''@'' # nr_Interface r" by (simp add: show_ref_def)
    with indexByte_append [OF at] show ?thesis by simp
  qed
  have cut_slash: "(case indexByte ?a (CHR ''/'') of
       Some i \<Rightarrow> (take i ?a, drop (Suc i) ?a) | None \<Rightarrow> (ns, ?a)) = (nr_Namespace r, nr_Name r)"
    using indexByte_append [OF sl, of "nr_Name r"] by simp
  show ?thesis
    using assms g(1) unfolding short_network_def Let_def t
    by (simp only: cut_at cut_slash if_False split) (simp add: ref_ok_def)
qed

text \<open>
  The short form of the Multus annotation round-trips: network references whose parts are printable
  and free of the separators, written as \<open>ns/name\<close> or \<open>ns/name@iface\<close> with commas between them, are
  parsed to the same references in the same order, whatever the default namespace is.
\<close>

theorem parseNetworks_roundtrip:
  assumes "\<forall>r\<in>set rs. ref_ok r"
  shows "parseNetworks (joinWith '','' (map show_ref rs)) defaultNS = rs"
proof (cases "rs = []")
  case True
  then show ?thesis by (simp add: parseNetworks_def)
next
  case False
  let ?ann = "joinWith '','' (map show_ref rs)"
  have hd: "?ann \<noteq> []" "hd ?ann \<noteq> CHR ''[''"
    using joinWith_hd [of "map show_ref rs" "'',''"] False show_ref_graphic [of "hd rs"] assms
    by (auto simp: hd_map)
  have "trimSpace ?ann = ?ann" using hd(1) joined_graphic [OF assms] by (rule trimSpace_all_graphic)
  moreover have "\<not> hasPrefix ?ann ''[''" using hd by (cases ?ann) auto
  moreover have "splitOn (CHR '','') ?ann = map show_ref rs"
    using False assms show_ref_graphic(2) by (intro splitOn_joinWith) auto
  moreover have "concat (map (short_network defaultNS) (map show_ref rs)) = rs"
    using assms by (induction rs) (auto simp: short_network_show_ref)
  ultimately show ?thesis using hd(1) by (simp add: parseNetworks_def Let_def)
qed

theorem parseNetworks_roundtrip_witness:
  "parseNetworks ''kube-system/vpp-net@net1,/ovs'' ''default'' =
     [\<lparr>nr_Namespace = ''kube-system'', nr_Name = ''vpp-net'', nr_Interface = ''net1''\<rparr>,
      \<lparr>nr_Namespace = [], nr_Name = ''ovs'', nr_Interface = []\<rparr>]"
  using parseNetworks_roundtrip [of "[\<lparr>nr_Namespace = ''kube-system'', nr_Name = ''vpp-net'', nr_Interface = ''net1''\<rparr>,
      \<lparr>nr_Namespace = [], nr_Name = ''ovs'', nr_Interface = []\<rparr>]" "''default''"]
  by (simp add: show_ref_def ref_ok_def ref_char_def graphic_def)

lemma parse_digits_range: "0 \<le> acc \<Longrightarrow> acc \<le> mx \<Longrightarrow> mx < n' \<Longrightarrow>
   parse_digits mx' acc s = Inr n' \<Longrightarrow> mx \<le> mx' \<Longrightarrow> \<exists>e. parse_digits mx acc s = Inl e"
proof (induction s arbitrary: acc)
  case (Cons c s)
  from Cons.prems obtain d where d: "digit_val c = Some d" "acc * 10 + d \<le> mx'"
    "parse_digits mx' (acc * 10 + d) s = Inr n'" by (auto split: option.splits if_splits simp: not_less)
  show ?case
  proof (cases "acc * 10 + d > mx")
    case False
    then show ?thesis using Cons.IH [of "acc * 10 + d"] Cons.prems d digit_val_bound [OF d(1)] by auto
  qed (simp add: d)
qed simp

lemma parseUint32_too_large: "2 ^ 32 \<le> n \<Longrightarrow> \<exists>e. parseUint32 (show_nat n) = Inl e"
  using parse_digits_range [of 0 "2 ^ 32 - 1" "int n" "int n" "show_nat n"] parse_digits_show_nat [of n "int n"]
  by (simp add: parseUint32_def parseUint_def)

text \<open>
  The bridge domain of a configuration. A numeric bridge name takes precedence over the deprecated
  id and is the domain if it is below \<open>2^32\<close>; a larger number is an error, never a truncated domain.
  Whatever name is accepted, the domain is the number that its digits denote. Without a name the id
  is used modulo \<open>2^32\<close>.
\<close>

theorem bridgeDomainID_spec:
  "(n < 2 ^ 32 \<longrightarrow> bridgeDomainID (b\<lparr>BridgeName := show_nat n\<rparr>) = Inr (of_nat n)) \<and>
   (2 ^ 32 \<le> n \<longrightarrow> isl (bridgeDomainID (b\<lparr>BridgeName := show_nat n\<rparr>))) \<and>
   (bridgeDomainID (b\<lparr>BridgeName := c # name\<rparr>) = Inr bd \<longrightarrow> parseUint32 (c # name) = Inr (uint bd)) \<and>
   bridgeDomainID (b\<lparr>BridgeName := []\<rparr>) = Inr (word_of_int (BridgeId b))"
proof (intro conjI impI)
  assume "n < 2 ^ 32"
  then show "bridgeDomainID (b\<lparr>BridgeName := show_nat n\<rparr>) = Inr (of_nat n)"
    by (simp add: bridgeDomainID_def parseUint32_show_nat)
next
  assume "2 ^ 32 \<le> n"
  then show "isl (bridgeDomainID (b\<lparr>BridgeName := show_nat n\<rparr>))"
    using parseUint32_too_large [of n] by (auto simp: bridgeDomainID_def)
next
  assume "bridgeDomainID (b\<lparr>BridgeName := c # name\<rparr>) = Inr bd"
  then obtain m where m: "parseUint32 (c # name) = Inr m" "bd = word_of_int m"
    by (auto simp: bridgeDomainID_def split: sum.splits)
  then show "parseUint32 (c # name) = Inr (uint bd)"
    using parseUint32_bound [OF m(1)] by (simp add: uint_word_of_int_eq take_bit_int_eq_self)
qed (simp add: bridgeDomainID_def)

theorem bridgeDomainID_spec_witness:
  "bridgeDomainID (zero_BridgeConf\<lparr>BridgeName := show_nat 4294967295\<rparr>) = Inr 4294967295 \<and>
   isl (bridgeDomainID (zero_BridgeConf\<lparr>BridgeName := show_nat 4294967296\<rparr>))"
  using bridgeDomainID_spec [of 4294967295 zero_BridgeConf] bridgeDomainID_spec [of 4294967296 zero_BridgeConf] by simp

text \<open>
  C27: Every master that a pod declares comes from one entry of its annotation and the memif host
  configuration of one of its networks, and its socket is the cleaned path of that interface's file in
  the directory of the pod's volume \<open>shared-dir\<close>: the file that the host configuration names, or
  \<open>memif-<id>-<interface>.sock\<close> with the first twelve characters of the container id. If that name is
  plain (no slash, not \<open>..\<close>), the socket is directly in this directory; a configured name like
  \<open>../x\<close> does leave it.
\<close>

theorem desired_sockets_in_shared_dir:
  assumes "desiredForPod L nad pod s = (Inr ms, s')" and "m \<in> set ms"
  shows "\<exists>dir entries hosts e host name. GetPodVolumeMountHostSharedDir (Some pod) = Inr dir \<and>
    Unmarshal_ConfigData L (annotation pod AnnotKeyUsrspConfigData) = Inr entries \<and> e \<in> set entries \<and>
    fst (read_hosts L nad (parseNetworks (annotation pod netAnnotKey) (pod_Namespace pod)) s) = Inr hosts \<and>
    host \<in> set hosts \<and> equalFold (IfType host) ''memif'' \<and>
    name = (if mc_Socketfile (uc_MemifConf host) \<noteq> [] then mc_Socketfile (uc_MemifConf host)
            else ''memif-'' @ take 12 (cd_ContainerId e) @ ''-'' @ cd_IfName e @ ''.sock'') \<and>
    Socket m = pathJoin dir name \<and> pathClean (Socket m) = Socket m \<and>
    (plain_name name \<longrightarrow> pathDir (Socket m) = pathClean dir)"
proof -
  obtain dir entries hosts e host where d: "GetPodVolumeMountHostSharedDir (Some pod) = Inr dir" "dir \<noteq> []"
    and o: "Unmarshal_ConfigData L (annotation pod AnnotKeyUsrspConfigData) = Inr entries" "e \<in> set entries"
      "fst (read_hosts L nad (parseNetworks (annotation pod netAnnotKey) (pod_Namespace pod)) s) = Inr hosts" "host \<in> set hosts"
    and m: "desiredMemif e host dir = Inr (Some m)"
    by (rule desiredForPod_origin [OF assms])
  let ?name = "if mc_Socketfile (uc_MemifConf host) \<noteq> [] then mc_Socketfile (uc_MemifConf host)
    else ''memif-'' @ take 12 (cd_ContainerId e) @ ''-'' @ cd_IfName e @ ''.sock''"
  have "socketFileName e host = ?name" by (simp add: socketFileName_def SocketFileName_def)
  then have sock: "Socket m = pathJoin dir ?name" using desiredMemif_socket [OF m] by simp
  then have "pathClean (Socket m) = Socket m" using d(2) by (simp add: pathJoin_clean)
  moreover have "plain_name ?name \<longrightarrow> pathDir (Socket m) = pathClean dir" using sock d(2) pathDir_pathJoin by simp
  ultimately show ?thesis using d(1) o sock desiredMemif_type [OF m] by blast
qed

definition sample_host :: UserSpaceConf where
  "sample_host = zero_UserSpaceConf\<lparr>Engine := ''vpp'', IfType := ''memif'', NetType := ''bridge'', MTU := 1500,
     uc_BridgeConf := zero_BridgeConf\<lparr>BridgeName := ''7''\<rparr>\<rparr>"

definition sample_nad :: string where
  "sample_nad = Marshal (JObj [(''name'', JStr ''vpp-net''), (''host'', enc_UserSpaceConf sample_host)])"

definition sample_vpp_pod :: Pod where
  "sample_vpp_pod = sample_pod\<lparr>pod_Annotations := [netAnnotKey \<mapsto> ''vpp-net'',
     AnnotKeyUsrspConfigData \<mapsto> config_text sample_lib [sample_entry ''net1'']]\<rparr>"

definition sample_desired :: Memif where
  "sample_desired = \<lparr>Socket = ''/run/vpp/memif-0123456789ab-net1.sock'', mf_ID = 0, BridgeID = 7, mf_Mode = [],
     SwIfIndex = 0, mf_RxQueues = 0, mf_TxQueues = 0, mf_RingSize = 0, mf_BufferSize = 0, mf_Secret = [],
     mf_HwAddr = [], mf_NoZeroCopy = False, mf_UseDma = False, mf_MTU = 1500\<rparr>"

lemma sample_nad_conf: "\<exists>nc. Unmarshal_NetConf sample_lib sample_nad = Inr nc \<and> HostConf nc = sample_host"
proof -
  have "json_parse sample_nad = Some (JObj [(''name'', JStr ''vpp-net''), (''host'', enc_UserSpaceConf sample_host)])"
    unfolding sample_nad_def by (rule json_parse_Marshal) simp
  moreover have "conf_ok sample_host" by (simp add: conf_ok_def sample_host_def zero_defs int64_def)
  ultimately show ?thesis
    using dec_enc_UserSpaceConf [of sample_host]
    by (simp add: Unmarshal_NetConf_def Unmarshal_def netconf_fields_def find_field_def field_def zero_NetConf_def)
qed

lemma sample_config_raw: "trimSpace (config_text sample_lib [sample_entry ''net1'']) \<noteq> []"
proof -
  have "trimSpace (config_text sample_lib [sample_entry ''net1'']) = config_text sample_lib [sample_entry ''net1'']"
    by (rule trimSpace_graphic) (simp_all add: config_text_def graphic_def)
  then show ?thesis by (simp add: config_text_def)
qed

text \<open>A second pod, in another namespace, that names its network in the same way.\<close>

definition prod_pod :: Pod where
  "prod_pod = sample_vpp_pod\<lparr>pod_Namespace := ''prod''\<rparr>"

lemma sample_pod_reads:
  assumes "p = sample_vpp_pod \<and> ns = ''default'' \<or> p = prod_pod \<and> ns = ''prod''"
  shows "parseNetworks (annotation p netAnnotKey) (pod_Namespace p) = [\<lparr>nr_Namespace = ns, nr_Name = ''vpp-net'', nr_Interface = []\<rparr>]"
    and "annotation p AnnotKeyUsrspConfigData = config_text sample_lib [sample_entry ''net1'']"
    and "GetPodVolumeMountHostSharedDir (Some p) = Inr ''/run/vpp''"
proof -
  have "annotation p netAnnotKey = ''vpp-net''" "pod_Namespace p = ns"
    using assms by (auto simp: annotation_def prod_pod_def sample_vpp_pod_def sample_pod_def netAnnotKey_def AnnotKeyUsrspConfigData_def)
  moreover have "parseNetworks ''vpp-net'' ''default'' = [\<lparr>nr_Namespace = ''default'', nr_Name = ''vpp-net'', nr_Interface = []\<rparr>]"
    "parseNetworks ''vpp-net'' ''prod'' = [\<lparr>nr_Namespace = ''prod'', nr_Name = ''vpp-net'', nr_Interface = []\<rparr>]" by code_simp+
  ultimately show "parseNetworks (annotation p netAnnotKey) (pod_Namespace p) = [\<lparr>nr_Namespace = ns, nr_Name = ''vpp-net'', nr_Interface = []\<rparr>]"
    using assms by auto
  show "annotation p AnnotKeyUsrspConfigData = config_text sample_lib [sample_entry ''net1'']"
    using assms by (auto simp: annotation_def prod_pod_def sample_vpp_pod_def)
  show "GetPodVolumeMountHostSharedDir (Some p) = Inr ''/run/vpp''"
    using assms by (auto simp: GetPodVolumeMountHostSharedDir_def prod_pod_def sample_vpp_pod_def sample_pod_def volMntKeySharedDir_def)
qed

lemma sample_entries:
  "Unmarshal_ConfigData sample_lib (config_text sample_lib [sample_entry ''net1'']) = Inr [sample_entry ''net1'']"
  by (rule Unmarshal_config_text(1)) (simp add: sample_entry_ok)

lemma sample_read_hosts:
  assumes "p = sample_vpp_pod \<and> ns = ''default'' \<or> p = prod_pod \<and> ns = ''prod''" and "nad ns ''vpp-net'' s = (Inr sample_nad, s1)"
  shows "read_hosts sample_lib nad (parseNetworks (annotation p netAnnotKey) (pod_Namespace p)) s = (Inr [sample_host], s1)"
  using sample_nad_conf assms(2) sample_pod_reads(1) [OF assms(1)] by auto

lemma sample_desiredForPod:
  assumes "nad ''default'' ''vpp-net'' s = (Inr sample_nad, s1)"
  shows "desiredForPod sample_lib nad sample_vpp_pod s = (Inr [sample_desired], s1)"
proof -
  have "desiredMemif (sample_entry ''net1'') sample_host ''/run/vpp'' = Inr (Some sample_desired)" by code_simp
  then show ?thesis
    using sample_read_hosts [of sample_vpp_pod "''default''" nad s s1] assms
    unfolding desiredForPod_def Let_def
    by (simp add: sample_pod_reads [of sample_vpp_pod "''default''"] sample_config_raw sample_entries buildDesired_def del: read_hosts.simps)
qed

text \<open>A pod whose network cannot be read cannot be evaluated.\<close>

lemma prod_desiredForPod:
  assumes "nad ''prod'' ''vpp-net'' s = (Inl e, s1)"
  shows "\<exists>e'. desiredForPod sample_lib nad prod_pod s = (Inl e', s1)"
  using assms unfolding desiredForPod_def Let_def
  by (simp add: sample_pod_reads [of prod_pod "''prod''"] sample_config_raw sample_entries)

theorem desired_sockets_in_shared_dir_witness:
  "\<exists>ms m. desiredForPod sample_lib (\<lambda>ns n s. (Inr sample_nad, s)) sample_vpp_pod () = (Inr ms, ()) \<and> m \<in> set ms \<and>
     Socket m = pathJoin ''/run/vpp'' ''memif-0123456789ab-net1.sock'' \<and> pathDir (Socket m) = ''/run/vpp''"
proof -
  let ?nad = "\<lambda>ns n s. (Inr sample_nad, s)"
  have r: "desiredForPod sample_lib ?nad sample_vpp_pod () = (Inr [sample_desired], ())"
    by (rule sample_desiredForPod) simp
  have h: "fst (read_hosts sample_lib ?nad (parseNetworks (annotation sample_vpp_pod netAnnotKey) (pod_Namespace sample_vpp_pod)) ()) =
      Inr [sample_host]" using sample_read_hosts [of sample_vpp_pod "''default''" ?nad "()" "()"] by simp
  have name: "(if mc_Socketfile (uc_MemifConf sample_host) \<noteq> [] then mc_Socketfile (uc_MemifConf sample_host)
      else ''memif-'' @ take 12 (cd_ContainerId (sample_entry ''net1'')) @ ''-'' @ cd_IfName (sample_entry ''net1'') @ ''.sock'') =
      ''memif-0123456789ab-net1.sock''" by code_simp
  have plain: "plain_name ''memif-0123456789ab-net1.sock''" "pathClean ''/run/vpp'' = ''/run/vpp''" by code_simp+
  note reads = sample_pod_reads(2,3) [of sample_vpp_pod "''default''", simplified]
  from desired_sockets_in_shared_dir [OF r, of sample_desired]
  have "Socket sample_desired = pathJoin ''/run/vpp'' ''memif-0123456789ab-net1.sock'' \<and> pathDir (Socket sample_desired) = ''/run/vpp''"
    unfolding h reads sample_entries using name plain by auto
  with r show ?thesis by (metis list.set_intros(1))
qed

end
