(* ===== verification/Vpp_Bridge.thy ===== *)
theory Vpp_Bridge
  imports Vpp_Sample
begin

text \<open>
  The bridge-domain wrappers of \<open>cnivpp/api/bridge/bridge.go\<close>. The locale \<open>vpp_bridges\<close> extends
  \<open>vpp_channel\<close> with what VPP documents about bridge domains: each domain is absent or a finite set of
  member interfaces, and the dump of one domain reports it with the number of its members.
\<close>

section \<open>Operations\<close>

text \<open>The loop of \<open>findBridge\<close>: it ends at the last reply or at the first error.\<close>

fun scan_bridge :: "bd_details result list \<Rightarrow> bool \<times> u32 \<Rightarrow> bool \<times> u32" where
  "scan_bridge [] acc = acc"
| "scan_bridge (Inl e # xs) acc = acc"
| "scan_bridge (Inr d # xs) acc = scan_bridge xs (True, bd_NSwIfs d)"

definition findBridge :: "('v, 'x) vpp_api_scheme \<Rightarrow> 'v \<Rightarrow> u32 \<Rightarrow> bool \<times> u32" where
  "findBridge V v bd = scan_bridge (vpp_bd_dump V bd DefaultSwIfIndex v) (False, 0)"

definition CreateBridge ::
  "'v vpp_api \<Rightarrow> u32 \<Rightarrow> ('v, 'm) world_scheme \<Rightarrow> go_error option \<times> ('v, 'm) world_scheme" where
  "CreateBridge V bd w =
     (if fst (findBridge V (vst w) bd) then (None, w) else on_vpp (vpp_bd_add_del V bd True) w)"

definition DeleteBridge ::
  "'v vpp_api \<Rightarrow> u32 \<Rightarrow> ('v, 'm) world_scheme \<Rightarrow> go_error option \<times> ('v, 'm) world_scheme" where
  "DeleteBridge V bd w =
     (case findBridge V (vst w) bd of
        (exists, n) \<Rightarrow>
          if \<not> exists \<or> n \<noteq> 0 then (None, w) else on_vpp (vpp_bd_add_del V bd False) w)"

definition AddBridgeInterface ::
  "'v vpp_api \<Rightarrow> u32 \<Rightarrow> u32 \<Rightarrow> ('v, 'm) world_scheme \<Rightarrow> go_error option \<times> ('v, 'm) world_scheme" where
  "AddBridgeInterface V bd i w =
     (case CreateBridge V bd w of
        (Some e, w1) \<Rightarrow> (Some e, w1)
      | (None, w1) \<Rightarrow> on_vpp (vpp_set_l2_bridge V bd i True) w1)"

definition RemoveBridgeInterface ::
  "'v vpp_api \<Rightarrow> u32 \<Rightarrow> u32 \<Rightarrow> ('v, 'm) world_scheme \<Rightarrow> go_error option \<times> ('v, 'm) world_scheme" where
  "RemoveBridgeInterface V bd i w =
     (case on_vpp (vpp_set_l2_bridge V bd i False) w of
        (Some e, w1) \<Rightarrow> (Some e, w1)
      | (None, w1) \<Rightarrow> DeleteBridge V bd w1)"

section \<open>The memif tables and the file system stay as they are\<close>

context vpp_channel
begin

lemma CreateBridge_frame:
  assumes "vinv (vst w)" and "CreateBridge V bd w = (r, w')"
  shows "vinv (vst w') \<and> same_memif V (vst w) (vst w') \<and> fsys w' = fsys w \<and> clock w' = clock w"
  using assms bd_frame [OF assms(1)]
  by (auto simp: CreateBridge_def dest!: on_vpp_frame split: if_splits)

lemma DeleteBridge_frame:
  assumes "vinv (vst w)" and "DeleteBridge V bd w = (r, w')"
  shows "vinv (vst w') \<and> same_memif V (vst w) (vst w') \<and> fsys w' = fsys w \<and> clock w' = clock w"
  using assms bd_frame [OF assms(1)]
  by (auto simp: DeleteBridge_def dest!: on_vpp_frame split: if_splits prod.splits)

lemma AddBridgeInterface_frame:
  assumes inv: "vinv (vst w)" and run: "AddBridgeInterface V bd i w = (r, w')"
  shows "vinv (vst w') \<and> same_memif V (vst w) (vst w') \<and> fsys w' = fsys w \<and> clock w' = clock w"
proof -
  obtain e w1 where c: "CreateBridge V bd w = (e, w1)" by fastforce
  note f1 = CreateBridge_frame [OF inv c]
  then show ?thesis
    using run c l2_frame [of "vst w1"]
    by (auto simp: AddBridgeInterface_def dest!: on_vpp_frame split: option.splits intro: same_memif_trans)
qed

lemma RemoveBridgeInterface_frame:
  assumes inv: "vinv (vst w)" and run: "RemoveBridgeInterface V bd i w = (r, w')"
  shows "vinv (vst w') \<and> same_memif V (vst w) (vst w') \<and> fsys w' = fsys w \<and> clock w' = clock w"
proof -
  obtain e w1 where c: "on_vpp (vpp_set_l2_bridge V bd i False) w = (e, w1)" by fastforce
  have f1: "vinv (vst w1)" "same_memif V (vst w) (vst w1)" "fsys w1 = fsys w" "clock w1 = clock w"
    using on_vpp_frame [OF c] l2_frame [OF inv] by auto
  then show ?thesis
    using run c DeleteBridge_frame [OF f1(1)]
    by (auto simp: RemoveBridgeInterface_def split: option.splits intro: same_memif_trans)
qed

end

section \<open>Membership\<close>

locale vpp_bridges = vpp_channel V vinv for V :: "'v vpp_api" and vinv :: "'v \<Rightarrow> bool" +
  fixes members :: "'v \<Rightarrow> u32 \<Rightarrow> u32 set option"
  assumes bd_dump: "vinv v \<Longrightarrow>
      (case members v bd of
         None \<Rightarrow> vpp_bd_dump V bd DefaultSwIfIndex v = []
       | Some S \<Rightarrow> finite S \<and> card S < 2 ^ 32 \<and>
           (\<exists>d. vpp_bd_dump V bd DefaultSwIfIndex v = [Inr d] \<and> bd_NSwIfs d = of_nat (card S)))"
    and bd_add_ok: "vinv v \<Longrightarrow> members v bd = None \<Longrightarrow> vpp_bd_add_del V bd True v = (None, v') \<Longrightarrow>
      members v' bd = Some {}"
    and bd_del_ok: "vinv v \<Longrightarrow> members v bd = Some {} \<Longrightarrow> vpp_bd_add_del V bd False v = (None, v') \<Longrightarrow>
      members v' bd = None"
    and l2_add_ok: "vinv v \<Longrightarrow> members v bd = Some S \<Longrightarrow> vpp_set_l2_bridge V bd i True v = (None, v') \<Longrightarrow>
      members v' bd = Some (insert i S)"
    and l2_del_ok: "vinv v \<Longrightarrow> members v bd = Some S \<Longrightarrow> vpp_set_l2_bridge V bd i False v = (None, v') \<Longrightarrow>
      members v' bd = Some (S - {i})"
begin

lemma findBridge_members:
  assumes "vinv v"
  shows "findBridge V v bd =
    (case members v bd of None \<Rightarrow> (False, 0) | Some S \<Rightarrow> (True, of_nat (card S)))"
  using bd_dump [OF assms, of bd] by (auto simp: findBridge_def split: option.splits)

lemma of_nat_card_0: "vinv v \<Longrightarrow> members v bd = Some S \<Longrightarrow> (of_nat (card S) :: u32) = 0 \<longleftrightarrow> S = {}"
  using bd_dump [of v bd]
  by (auto simp: word_of_nat_eq_0_iff dest: nat_dvd_not_less)

lemma AddBridgeInterface_members:
  assumes inv: "vinv (vst w)" and run: "AddBridgeInterface V bd i w = (None, w')"
  shows "members (vst w') bd = Some (insert i (case members (vst w) bd of None \<Rightarrow> {} | Some S \<Rightarrow> S))"
proof -
  obtain w1 where c: "CreateBridge V bd w = (None, w1)"
    and l2: "on_vpp (vpp_set_l2_bridge V bd i True) w1 = (None, w')"
    using run by (auto simp: AddBridgeInterface_def split: prod.splits option.splits)
  have inv1: "vinv (vst w1)" using CreateBridge_frame [OF inv c] by simp
  have "members (vst w1) bd = Some (case members (vst w) bd of None \<Rightarrow> {} | Some S \<Rightarrow> S)"
    using c findBridge_members [OF inv, of bd] bd_add_ok [OF inv, of bd]
    by (auto simp: CreateBridge_def dest!: on_vpp_frame split: option.splits if_splits)
  then show ?thesis using l2_add_ok [OF inv1] on_vpp_frame [OF l2] by auto
qed

lemma RemoveBridgeInterface_members:
  assumes inv: "vinv (vst w)" and S: "members (vst w) bd = Some S"
    and run: "RemoveBridgeInterface V bd i w = (None, w')"
  shows "members (vst w') bd = (if S - {i} = {} then None else Some (S - {i}))"
proof -
  obtain w1 where l2: "on_vpp (vpp_set_l2_bridge V bd i False) w = (None, w1)"
    and del: "DeleteBridge V bd w1 = (None, w')"
    using run by (auto simp: RemoveBridgeInterface_def split: prod.splits option.splits)
  have inv1: "vinv (vst w1)" and m1: "members (vst w1) bd = Some (S - {i})"
    using on_vpp_frame [OF l2] l2_frame [OF inv] l2_del_ok [OF inv S] by auto
  show ?thesis
    using del m1 findBridge_members [OF inv1, of bd] of_nat_card_0 [OF inv1 m1] bd_del_ok [OF inv1, of bd]
    by (auto simp: DeleteBridge_def dest!: on_vpp_frame split: if_splits)
qed

end

section \<open>The sample\<close>

definition sample_members :: "sample \<Rightarrow> u32 \<Rightarrow> u32 set option" where
  "sample_members v bd = map_option set (map_of (sp_bds v) bd)"

lemma sample_ports_ok: "sample_ok v \<Longrightarrow> map_of (sp_bds v) bd = Some ports \<Longrightarrow> distinct ports \<and> length ports < 2 ^ 32"
  by (auto simp: sample_ok_def dest: bds_ok_map_of)

lemma sample_bd_dump_members:
  assumes "sample_ok v"
  shows "case sample_members v bd of
         None \<Rightarrow> sample_bd_dump bd i v = []
       | Some S \<Rightarrow> finite S \<and> card S < 2 ^ 32 \<and>
           (\<exists>d. sample_bd_dump bd i v = [Inr d] \<and> bd_NSwIfs d = of_nat (card S))"
proof (cases "map_of (sp_bds v) bd")
  case None
  then show ?thesis by (simp add: sample_members_def sample_bd_dump_def)
next
  case (Some ports)
  then show ?thesis using sample_ports_ok [OF assms Some]
    by (simp add: sample_members_def sample_bd_dump_def distinct_card)
qed

lemma sample_l2_members:
  assumes "sample_members v bd = Some S" and "sample_l2 bd i b v = (None, v')"
  shows "sample_members v' bd = Some (if b then insert i S else S - {i})"
  using assms by (auto simp: sample_members_def sample_l2_def split: option.splits if_splits)

interpretation sample: vpp_bridges sample_vpp sample_ok sample_members
proof (unfold_locales, goal_cases)
  case 1 then show ?case unfolding sample_sel by (rule sample_bd_dump_members)
next
  case 2 then show ?case by (auto simp: sample_members_def sample_bd_def split: if_splits)
next
  case 3 then show ?case by (auto simp: sample_members_def sample_bd_def map_of_filter_neq split: if_splits)
next
  case 4 then show ?case by (simp add: sample_l2_members)
next
  case 5 then show ?case by (simp add: sample_l2_members)
qed

section \<open>Properties\<close>

text \<open>
  C16: Adding an interface to a bridge domain creates the domain when it does not exist and makes the
  interface a member; removing that interface again takes it out, and deletes the domain exactly when
  it was the last member.
\<close>

theorem bridge_add_remove:
  assumes "vpp_bridges V vinv members" and "vinv (vst w)" and "AddBridgeInterface V bd i w = (None, w1)"
    and "RemoveBridgeInterface V bd i w1 = (None, w2)"
  shows "members (vst w1) bd = Some (insert i (case members (vst w) bd of None \<Rightarrow> {} | Some S \<Rightarrow> S)) \<and>
    members (vst w2) bd =
      (case members (vst w) bd of
         None \<Rightarrow> None
       | Some S \<Rightarrow> if S - {i} = {} then None else Some (S - {i}))"
proof -
  let ?S = "insert i (case members (vst w) bd of None \<Rightarrow> {} | Some S \<Rightarrow> S)"
  have ch: "vpp_channel V vinv" using assms(1) by (simp add: vpp_bridges_def)
  have w1: "vinv (vst w1)" using vpp_channel.AddBridgeInterface_frame [OF ch assms(2,3)] by blast
  have add: "members (vst w1) bd = Some ?S" by (rule vpp_bridges.AddBridgeInterface_members [OF assms(1-3)])
  show ?thesis
    using vpp_bridges.RemoveBridgeInterface_members [OF assms(1) w1 add assms(4)] add
    by (auto split: option.splits)
qed

theorem bridge_add_remove_witness:
  "\<exists>w1 w2. AddBridgeInterface sample_vpp 7 1 sample_world = (None, w1) \<and>
     RemoveBridgeInterface sample_vpp 7 1 w1 = (None, w2) \<and>
     sample_members (vst w1) 7 = Some {1} \<and> sample_members (vst w2) 7 = None"
proof -
  define w1 where "w1 = snd (AddBridgeInterface sample_vpp 7 1 sample_world)"
  have "fst (AddBridgeInterface sample_vpp 7 1 sample_world) = None" by code_simp
  then have a: "AddBridgeInterface sample_vpp 7 1 sample_world = (None, w1)"
    unfolding w1_def by (metis prod.collapse)
  have "fst (RemoveBridgeInterface sample_vpp 7 1 (snd (AddBridgeInterface sample_vpp 7 1 sample_world))) = None"
    by code_simp
  then obtain w2 where r: "RemoveBridgeInterface sample_vpp 7 1 w1 = (None, w2)"
    unfolding w1_def by (metis prod.collapse)
  have "sample_members (vst sample_world) 7 = None"
    by (simp add: sample_members_def sample_world_def sample_empty_def)
  with bridge_add_remove [OF sample.vpp_bridges_axioms sample_ok_world a r] a r show ?thesis by auto
qed

end
