(* ===== verification/Vpp_Iface.thy ===== *)
theory Vpp_Iface
  imports Vpp_Sample
begin

text \<open>
  The interface wrappers of \<open>cnivpp/api/interface/interface.go\<close> (admin state, MTU, IP address) and
  the vhost-user wrappers of \<open>cnivpp/api/vhostuser/vhostuser.go\<close>.
\<close>

section \<open>Interface\<close>

definition IF_ADMIN_UP :: u32 where
  "IF_ADMIN_UP = 1"

definition SetState ::
  "'v vpp_api \<Rightarrow> u32 \<Rightarrow> u32 \<Rightarrow> ('v, 'm) world_scheme \<Rightarrow> go_error option \<times> ('v, 'm) world_scheme" where
  "SetState V i up w = on_vpp (vpp_set_flags V i up) w"

definition SetMtu ::
  "'v vpp_api \<Rightarrow> u32 \<Rightarrow> u32 \<Rightarrow> ('v, 'm) world_scheme \<Rightarrow> go_error option \<times> ('v, 'm) world_scheme" where
  "SetMtu V i mtu w = (if mtu = 0 then (None, w) else on_vpp (vpp_set_mtu V i [mtu, 0, 0, 0]) w)"

text \<open>\<open>net.IP.To4\<close> and \<open>net.IP.To16\<close>; the empty list is \<open>nil\<close>.\<close>

definition v4_in_v6 :: "u8 list" where
  "v4_in_v6 = replicate 10 0 @ [255, 255]"

definition To4 :: "u8 list \<Rightarrow> u8 list" where
  "To4 ip = (if length ip = 4 then ip
             else if length ip = 16 \<and> take 12 ip = v4_in_v6 then drop 12 ip else [])"

definition To16 :: "u8 list \<Rightarrow> u8 list" where
  "To16 ip = (if length ip = 4 then v4_in_v6 @ ip else if length ip = 16 then ip else [])"

text \<open>
  The loop over the addresses, with the prefix of the request so far. Only one address is
  supported, and the loop also ends at the first mask it does not know.
\<close>

definition zero_prefix :: addr_prefix where
  "zero_prefix = \<lparr>ap_Address = [], ap_Len = 0\<rparr>"

fun request_prefix :: "IPConfig list \<Rightarrow> addr_prefix \<Rightarrow> addr_prefix" where
  "request_prefix [] p = p"
| "request_prefix (c # cs) p =
     (if ip_MaskOnes c = 4 then \<lparr>ap_Address = To4 (ip_IP c), ap_Len = 4\<rparr>
      else if ip_MaskOnes c = 16 then \<lparr>ap_Address = To16 (ip_IP c), ap_Len = 16\<rparr>
      else p)"

definition AddDelIpAddress ::
  "'v vpp_api \<Rightarrow> u32 \<Rightarrow> bool \<Rightarrow> Result \<Rightarrow> ('v, 'm) world_scheme \<Rightarrow> go_error option \<times> ('v, 'm) world_scheme" where
  "AddDelIpAddress V i isAdd ipResult w =
     on_vpp (vpp_add_del_address V i isAdd (request_prefix (IPs ipResult) zero_prefix)) w"

section \<open>Vhost-user\<close>

record VhostParams =
  vp_IsServer :: bool
  vp_SockFilename :: string
  vp_EnableGso :: bool
  vp_EnablePacked :: bool
  vp_EnableEventIdx :: bool
  vp_MAC :: string

definition vhost_request :: "VhostParams \<Rightarrow> bool \<Rightarrow> u8 list \<Rightarrow> vhost_create_req" where
  "vhost_request p custom hw = \<lparr>vr_IsServer = vp_IsServer p, vr_SockFilename = vp_SockFilename p,
     vr_EnableGso = vp_EnableGso p, vr_EnablePacked = vp_EnablePacked p,
     vr_EnableEventIdx = vp_EnableEventIdx p, vr_UseCustomMac = custom, vr_MacAddress = hw\<rparr>"

definition CreateVhostUserInterface ::
  "'v vpp_api \<Rightarrow> VhostParams \<Rightarrow> ('v, 'm) world_scheme \<Rightarrow> u32 result \<times> ('v, 'm) world_scheme" where
  "CreateVhostUserInterface V p w =
     (if vp_MAC p \<noteq> [] then
        (case vpp_parse_mac V (vp_MAC p) of
           Inl e \<Rightarrow> (Inl (EWrap (''vhostuser: invalid MAC '' @ vp_MAC p) e), w)
         | Inr hw \<Rightarrow> on_vpp (vpp_vhost_create V (vhost_request p True hw)) w)
      else on_vpp (vpp_vhost_create V (vhost_request p False (replicate 6 0))) w)"

definition DeleteVhostUserInterface ::
  "'v vpp_api \<Rightarrow> u32 \<Rightarrow> ('v, 'm) world_scheme \<Rightarrow> go_error option \<times> ('v, 'm) world_scheme" where
  "DeleteVhostUserInterface V i w = on_vpp (vpp_vhost_delete V i) w"

section \<open>None of them touches the memif tables\<close>

context vpp_channel
begin

lemma SetState_frame:
  assumes "vinv (vst w)" and "SetState V i up w = (r, w')"
  shows "vinv (vst w') \<and> same_memif V (vst w) (vst w') \<and> fsys w' = fsys w \<and> clock w' = clock w"
  using assms set_flags_frame [OF assms(1)] by (auto simp: SetState_def dest!: on_vpp_frame)

lemma SetMtu_frame:
  assumes "vinv (vst w)" and "SetMtu V i mtu w = (r, w')"
  shows "vinv (vst w') \<and> same_memif V (vst w) (vst w') \<and> fsys w' = fsys w \<and> clock w' = clock w"
  using assms set_mtu_frame [OF assms(1)] by (auto simp: SetMtu_def dest!: on_vpp_frame split: if_splits)

lemma AddDelIpAddress_frame:
  assumes "vinv (vst w)" and "AddDelIpAddress V i b res w = (r, w')"
  shows "vinv (vst w') \<and> same_memif V (vst w) (vst w') \<and> fsys w' = fsys w \<and> clock w' = clock w"
  using assms address_frame [OF assms(1)] by (auto simp: AddDelIpAddress_def dest!: on_vpp_frame)

lemma CreateVhostUserInterface_frame:
  assumes "vinv (vst w)" and "CreateVhostUserInterface V p w = (r, w')"
  shows "vinv (vst w') \<and> same_memif V (vst w) (vst w') \<and> fsys w' = fsys w \<and> clock w' = clock w"
  using assms vhost_create_frame [OF assms(1)]
  by (auto simp: CreateVhostUserInterface_def dest!: on_vpp_frame split: if_splits sum.splits)

lemma DeleteVhostUserInterface_frame:
  assumes "vinv (vst w)" and "DeleteVhostUserInterface V i w = (r, w')"
  shows "vinv (vst w') \<and> same_memif V (vst w) (vst w') \<and> fsys w' = fsys w \<and> clock w' = clock w"
  using assms vhost_delete_frame [OF assms(1)]
  by (auto simp: DeleteVhostUserInterface_def dest!: on_vpp_frame)

end

end
