(* ===== verification/Orphan_Sweep.thy ===== *)
theory Orphan_Sweep
  imports Vpp_Channel
begin

text \<open>
  Sweeping the socket files that nothing backs: the loops of \<open>SweepOrphanSockets\<close> in
  \<open>pkg/daemon/dataplane_vpp.go\<close> over the file system of theory \<open>Go_FS\<close>, with proofs that it removes
  nothing but orphans and reaches every orphan.
\<close>

section \<open>Sweeping orphan socket files\<close>

definition orphanSocketMinAge :: nat where
  "orphanSocketMinAge = 60 * time_Second"

definition sweepable_name :: "string \<Rightarrow> bool" where
  "sweepable_name name \<longleftrightarrow> hasPrefix name ''memif-'' \<and> hasSuffix name ''.sock''"

text \<open>\<open>e.Info()\<close>: the entry as it is now.\<close>

definition entry_info :: "fs \<Rightarrow> string \<Rightarrow> node option" where
  "entry_info f p = (if deny f OpInfo p then None else fs_node f p)"

text \<open>
  One entry of a directory: \<open>f0\<close> is the file system when the directory was read. The age of a file is
  the time since its modification. Nobody else changes the directory during the sweep, so an entry
  that was no directory has not become one.
\<close>

definition sweep_entry ::
  "string list \<Rightarrow> nat \<Rightarrow> string \<Rightarrow> fs \<Rightarrow> string \<Rightarrow> nat \<times> fs \<Rightarrow> nat \<times> fs" where
  "sweep_entry keep now dir f0 name acc =
     (case acc of (removed, f) \<Rightarrow>
        let path = pathJoin dir name
        in if is_dir f0 path \<or> \<not> sweepable_name name \<or> path \<in> set keep then (removed, f)
           else (case entry_info f path of
                   Some (FileNode b t) \<Rightarrow>
                     if now - t < orphanSocketMinAge then (removed, f)
                     else (case os_Remove path f of
                             (None, f') \<Rightarrow> (Suc removed, f')
                           | (Some _, f') \<Rightarrow> (removed, f'))
                 | _ \<Rightarrow> (removed, f)))"

definition sweep_dir :: "string list \<Rightarrow> nat \<Rightarrow> string \<Rightarrow> nat \<times> fs \<Rightarrow> nat \<times> fs" where
  "sweep_dir keep now dir acc =
     (case os_ReadDir (snd acc) dir of
        Inl _ \<Rightarrow> acc
      | Inr names \<Rightarrow> fold (sweep_entry keep now dir (snd acc)) names acc)"

definition sweep :: "string list \<Rightarrow> nat \<Rightarrow> fs \<Rightarrow> nat \<times> fs" where
  "sweep keep now f = fold (sweep_dir keep now) (remdups (map pathDir keep)) (0, f)"

section \<open>What the sweep removes\<close>

text \<open>
  \<open>swept keep now f f'\<close>: from \<open>f\<close> to \<open>f'\<close> only old, sweepable files beside a kept socket disappeared,
  none of them a kept one.
\<close>

definition orphan_file :: "string list \<Rightarrow> nat \<Rightarrow> fs \<Rightarrow> string \<Rightarrow> bool" where
  "orphan_file keep now f q \<longleftrightarrow>
     (\<exists>dir\<in>pathDir ` set keep. \<exists>name b t. sweepable_name name \<and> pathClean q = pathJoin dir name \<and>
        pathJoin dir name \<notin> set keep \<and> fs_node f q = Some (FileNode b t) \<and> orphanSocketMinAge \<le> now - t)"

definition swept :: "string list \<Rightarrow> nat \<Rightarrow> fs \<Rightarrow> fs \<Rightarrow> bool" where
  "swept keep now f f' \<longleftrightarrow> deny f' = deny f \<and>
     (\<forall>q. fs_node f' q \<noteq> fs_node f q \<longrightarrow> fs_node f' q = None \<and> orphan_file keep now f q)"

lemma swept_refl [simp, intro]: "swept keep now f f"
  by (simp add: swept_def)

lemma swept_trans:
  assumes "swept keep now f g" and "swept keep now g h"
  shows "swept keep now f h"
  unfolding swept_def
proof (intro conjI allI impI)
  show "deny h = deny f" using assms by (simp add: swept_def)
  fix q assume ne: "fs_node h q \<noteq> fs_node f q"
  have "fs_node h q = None \<and> orphan_file keep now f q"
  proof (cases "fs_node g q = fs_node f q")
    case True
    then have "fs_node h q = None" "orphan_file keep now g q" using assms(2) ne by (auto simp: swept_def)
    then show ?thesis using True by (simp add: orphan_file_def)
  next
    case False
    then have g: "fs_node g q = None" "orphan_file keep now f q" using assms(1) by (auto simp: swept_def)
    then have "\<not> orphan_file keep now g q" by (simp add: orphan_file_def)
    then have "fs_node h q = fs_node g q" using assms(2) by (auto simp: swept_def)
    then show ?thesis using g by simp
  qed
  then show "fs_node h q = None" and "orphan_file keep now f q" by auto
qed

lemma swept_mono:
  assumes "swept keep now f f'" and "fs_node f q = None"
  shows "fs_node f' q = None"
  using assms by (metis swept_def)

lemma pathDir_not_Nil: "pathDir p \<noteq> []"
  by (simp add: pathDir_def pathClean_alt path_elems_ok)

lemma sweep_entry_swept:
  assumes "sweep_entry keep now dir f0 name (n, f) = (n', f')" and "dir \<in> pathDir ` set keep"
  shows "swept keep now f f'"
proof (cases "f' = f")
  case False
  let ?p = "pathJoin dir name"
  from False assms(1) obtain b t where g: "sweepable_name name" "?p \<notin> set keep"
    "fs_node f ?p = Some (FileNode b t)" "orphanSocketMinAge \<le> now - t" and rm: "os_Remove ?p f = (None, f')"
    by (auto simp: sweep_entry_def Let_def entry_info_def dest: os_Remove_err
        split: if_splits option.splits node.splits prod.splits)
  have clean: "pathClean ?p = ?p" using assms(2) pathDir_not_Nil by (auto intro: pathJoin_clean)
  have "orphan_file keep now f q" if "pathClean q = ?p" "q \<noteq> []" for q
  proof -
    have "fs_node f q = fs_node f ?p" using that clean by (metis fs_node_clean)
    then show ?thesis using g that(1) assms(2) unfolding orphan_file_def by auto
  qed
  moreover have "f' = fs_del f ?p" using rm g(3) by (auto simp: os_Remove_def split: if_splits)
  ultimately show ?thesis
    by (auto simp: swept_def fs_node_del clean) (metis fs_node_def)
qed simp

lemma sweep_names_swept:
  "fold (sweep_entry keep now dir f0) names (n, f) = (n', f') \<Longrightarrow> dir \<in> pathDir ` set keep \<Longrightarrow>
   swept keep now f f'"
proof (induction names arbitrary: n f)
  case (Cons name names)
  obtain n1 f1 where e: "sweep_entry keep now dir f0 name (n, f) = (n1, f1)" by fastforce
  with Cons have "swept keep now f1 f'" by simp
  with sweep_entry_swept [OF e Cons.prems(2)] show ?case by (rule swept_trans)
qed simp

lemma sweep_dir_swept:
  "sweep_dir keep now dir (n, f) = (n', f') \<Longrightarrow> dir \<in> pathDir ` set keep \<Longrightarrow> swept keep now f f'"
  by (auto simp: sweep_dir_def split: sum.splits intro: sweep_names_swept)

lemma sweep_dirs_swept:
  "fold (sweep_dir keep now) dirs (n, f) = (n', f') \<Longrightarrow> set dirs \<subseteq> pathDir ` set keep \<Longrightarrow> swept keep now f f'"
proof (induction dirs arbitrary: n f)
  case (Cons dir dirs)
  obtain n1 f1 where e: "sweep_dir keep now dir (n, f) = (n1, f1)" by fastforce
  with Cons have "swept keep now f1 f'" by simp
  moreover have "swept keep now f f1" using sweep_dir_swept [OF e] Cons.prems(2) by simp
  ultimately show ?case using swept_trans by blast
qed simp

lemma sweep_swept: "sweep keep now f = (n, f') \<Longrightarrow> swept keep now f f'"
  by (auto simp: sweep_def intro: sweep_dirs_swept)

lemma swept_keeps:
  assumes "swept keep now f f'" and "q \<in> set keep" and "pathClean q = q"
  shows "fs_node f' q = fs_node f q"
  using assms by (auto simp: swept_def orphan_file_def)

section \<open>The sweep reaches every orphan\<close>

text \<open>A file that the sweep would remove at any point of it.\<close>

definition removable :: "string list \<Rightarrow> nat \<Rightarrow> fs \<Rightarrow> string \<Rightarrow> string \<Rightarrow> bool" where
  "removable keep now f dir name \<longleftrightarrow>
     plain_name name \<and> sweepable_name name \<and> pathJoin dir name \<notin> set keep \<and>
     \<not> deny f OpInfo (pathJoin dir name) \<and> \<not> deny f OpRemove (pathJoin dir name) \<and>
     (\<exists>b t. fs_node f (pathJoin dir name) = Some (FileNode b t) \<and> orphanSocketMinAge \<le> now - t)"

lemma removable_or_gone:
  assumes "removable keep now f dir name" and "swept keep now f f'"
  shows "removable keep now f' dir name \<or> fs_node f' (pathJoin dir name) = None"
  using assms by (cases "fs_node f' (pathJoin dir name) = fs_node f (pathJoin dir name)")
    (auto simp: removable_def swept_def)

lemma sweep_entry_removes:
  assumes "removable keep now f dir name" and "\<not> is_dir f0 (pathJoin dir name)"
    and "sweep_entry keep now dir f0 name (n, f) = (n', f')"
  shows "fs_node f' (pathJoin dir name) = None"
  using assms by (auto simp: removable_def sweep_entry_def entry_info_def os_Remove_file fs_node_del)

lemma sweep_names_removes:
  "fold (sweep_entry keep now dir f0) names (n, f) = (n', f') \<Longrightarrow> dir \<in> pathDir ` set keep \<Longrightarrow>
   removable keep now f dir name \<Longrightarrow> \<not> is_dir f0 (pathJoin dir name) \<Longrightarrow> name \<in> set names \<Longrightarrow>
   fs_node f' (pathJoin dir name) = None"
proof (induction names arbitrary: n f)
  case (Cons x names)
  obtain n1 f1 where e: "sweep_entry keep now dir f0 x (n, f) = (n1, f1)" by fastforce
  with Cons.prems(1) have rest: "fold (sweep_entry keep now dir f0) names (n1, f1) = (n', f')" by simp
  show ?case
  proof (cases "fs_node f1 (pathJoin dir name) = None")
    case True
    then show ?thesis using swept_mono [OF sweep_names_swept [OF rest Cons.prems(2)]] by simp
  next
    case False
    then have r1: "removable keep now f1 dir name"
      using removable_or_gone [OF Cons.prems(3) sweep_entry_swept [OF e Cons.prems(2)]] by argo
    have "x \<noteq> name" using sweep_entry_removes [OF Cons.prems(3,4), of n n1 f1] e False by auto
    then show ?thesis using Cons.IH [OF rest Cons.prems(2) r1 Cons.prems(4)] Cons.prems(5) by simp
  qed
qed simp

lemma sweep_dir_removes:
  assumes run: "sweep_dir keep now dir (n, f) = (n', f')" and dir: "dir \<in> pathDir ` set keep"
    and rem: "removable keep now f dir name" and rd: "\<not> deny f OpReadDir dir" "is_dir f dir"
  shows "fs_node f' (pathJoin dir name) = None"
proof -
  have d: "dir \<noteq> []" using dir pathDir_not_Nil by auto
  have pl: "plain_name name" and node: "fs_node f (pathJoin dir name) \<noteq> None"
    "fs_node f (pathJoin dir name) \<noteq> Some DirNode" using rem by (auto simp: removable_def)
  have "os_ReadDir f dir = Inr (fs_names f dir)" using rd by (simp add: os_ReadDir_def)
  then have "fold (sweep_entry keep now dir f) (fs_names f dir) (n, f) = (n', f')"
    using run by (simp add: sweep_dir_def)
  then show ?thesis
    using sweep_names_removes [OF _ dir rem] fs_names_entry [OF d pl node(1)] node(2) pathJoin_not_dir(2) [OF d pl]
    by (simp add: is_dir_def)
qed

lemma swept_is_dir: "swept keep now f f' \<Longrightarrow> is_dir f d \<Longrightarrow> is_dir f' d"
  unfolding swept_def is_dir_def orphan_file_def by (metis node.distinct(1) option.inject)

lemma sweep_dirs_removes:
  "fold (sweep_dir keep now) dirs (n, f) = (n', f') \<Longrightarrow> set dirs \<subseteq> pathDir ` set keep \<Longrightarrow> dir \<in> set dirs \<Longrightarrow>
   removable keep now f dir name \<Longrightarrow> \<not> deny f OpReadDir dir \<Longrightarrow> is_dir f dir \<Longrightarrow>
   fs_node f' (pathJoin dir name) = None"
proof (induction dirs arbitrary: n f)
  case (Cons x dirs)
  obtain n1 f1 where e: "sweep_dir keep now x (n, f) = (n1, f1)" by fastforce
  with Cons.prems(1) have rest: "fold (sweep_dir keep now) dirs (n1, f1) = (n', f')" by simp
  have s1: "swept keep now f f1" using sweep_dir_swept [OF e] Cons.prems(2) by simp
  have sub: "set dirs \<subseteq> pathDir ` set keep" using Cons.prems(2) by simp
  show ?case
  proof (cases "fs_node f1 (pathJoin dir name) = None")
    case True
    then show ?thesis using swept_mono [OF sweep_dirs_swept [OF rest sub]] by simp
  next
    case False
    then have "x \<noteq> dir" using sweep_dir_removes [OF e _ _ _] Cons.prems by auto
    moreover have "removable keep now f1 dir name" using removable_or_gone [OF Cons.prems(4) s1] False by argo
    moreover have "\<not> deny f1 OpReadDir dir" using Cons.prems(5) s1 by (simp add: swept_def)
    ultimately show ?thesis
      using Cons.IH [OF rest sub] Cons.prems(3) swept_is_dir [OF s1 Cons.prems(6)] by simp
  qed
qed simp

lemma sweep_removes:
  assumes "sweep keep now f = (n, f')" and "sock \<in> set keep" and "removable keep now f (pathDir sock) name"
    and "\<not> deny f OpReadDir (pathDir sock)" and "is_dir f (pathDir sock)"
  shows "fs_node f' (pathJoin (pathDir sock) name) = None"
  using assms by (intro sweep_dirs_removes [of keep now "remdups (map pathDir keep)" 0 f n f']) (auto simp: sweep_def)

section \<open>Properties\<close>

definition sample_sock :: string where
  "sample_sock = ''/run/vpp/memif-0123456789ab-net1.sock''"

text \<open>
  C14: The sweep is safe. Whatever it changes in the file system is the removal of a regular file named
  \<open>memif-*.sock\<close> in a directory that holds a kept socket, whose path is not kept and which is at least
  sixty seconds old; every other path, the kept sockets among them, is as before.
\<close>

theorem sweep_only_orphans:
  assumes "sweep keep now f = (n, f')" and "fs_node f' q \<noteq> fs_node f q"
  shows "fs_node f' q = None \<and>
    (\<exists>dir\<in>pathDir ` set keep. \<exists>name b t. hasPrefix name ''memif-'' \<and> hasSuffix name ''.sock'' \<and>
        pathClean q = pathJoin dir name \<and> pathClean q \<notin> set keep \<and>
        fs_node f q = Some (FileNode b t) \<and> 60 * time_Second \<le> now - t)"
proof -
  have "fs_node f' q = None" "orphan_file keep now f q"
    using sweep_swept [OF assms(1)] assms(2) by (auto simp: swept_def)
  then show ?thesis unfolding orphan_file_def sweepable_name_def orphanSocketMinAge_def by metis
qed

definition sample_dir :: fs where
  "sample_dir = \<lparr>nodes = [(''/run'', DirNode), (''/run/vpp'', DirNode), (sample_sock, FileNode [] 5),
     (''/run/vpp/memif-old.sock'', FileNode [] 300), (''/run/vpp/memif-new.sock'', FileNode [] 950),
     (''/run/vpp/api.sock'', FileNode [] 5)], deny = (\<lambda>_ _. False)\<rparr>"

lemma sample_sweep: "sweep [sample_sock] 1000 sample_dir = (1, snd (sweep [sample_sock] 1000 sample_dir))"
  by (rule run_surj) code_simp

theorem sweep_only_orphans_witness:
  "fs_node (snd (sweep [sample_sock] 1000 sample_dir)) ''/run/vpp/memif-old.sock'' = None \<and>
   fs_node sample_dir ''/run/vpp/memif-old.sock'' = Some (FileNode [] 300) \<and>
   ''/run/vpp/memif-old.sock'' \<notin> set [sample_sock]"
proof -
  have ne: "fs_node (snd (sweep [sample_sock] 1000 sample_dir)) ''/run/vpp/memif-old.sock'' \<noteq>
     fs_node sample_dir ''/run/vpp/memif-old.sock''" by code_simp
  have "pathClean ''/run/vpp/memif-old.sock'' = ''/run/vpp/memif-old.sock''"
    "fs_node sample_dir ''/run/vpp/memif-old.sock'' = Some (FileNode [] 300)" by code_simp+
  with sweep_only_orphans [OF sample_sweep ne] show ?thesis by auto
qed

text \<open>
  C15: The sweep is complete. A regular file \<open>memif-*.sock\<close> of at least sixty seconds beside a kept
  socket, itself not kept, is gone after the sweep, if the directory can be read and the file can be
  inspected and removed.
\<close>

theorem sweep_complete:
  assumes "sweep keep now f = (n, f')" and "sock \<in> set keep" and "is_dir f (pathDir sock)"
    and "plain_name name" and "hasPrefix name ''memif-''" and "hasSuffix name ''.sock''"
    and "pathJoin (pathDir sock) name \<notin> set keep"
    and "fs_node f (pathJoin (pathDir sock) name) = Some (FileNode b t)" and "60 * time_Second \<le> now - t"
    and "\<not> deny f OpReadDir (pathDir sock)" and "\<not> deny f OpInfo (pathJoin (pathDir sock) name)"
    and "\<not> deny f OpRemove (pathJoin (pathDir sock) name)"
  shows "fs_node f' (pathJoin (pathDir sock) name) = None"
  using sweep_removes [OF assms(1,2) _ assms(10,3)] assms(4-9,11,12)
  by (auto simp: removable_def sweepable_name_def orphanSocketMinAge_def)

theorem sweep_complete_witness:
  "fs_node (snd (sweep [sample_sock] 1000 sample_dir)) (pathJoin (pathDir sample_sock) ''memif-old.sock'') = None"
proof (rule sweep_complete [OF sample_sweep, where b = "[]" and t = 300])
  show "sample_sock \<in> set [sample_sock]" by simp
  show "\<not> deny sample_dir OpReadDir (pathDir sample_sock)"
    "\<not> deny sample_dir OpInfo (pathJoin (pathDir sample_sock) ''memif-old.sock'')"
    "\<not> deny sample_dir OpRemove (pathJoin (pathDir sample_sock) ''memif-old.sock'')"
    by (simp_all add: sample_dir_def)
qed code_simp+

end
