(* ===== verification/Dataplane_Vpp.thy ===== *)
theory Dataplane_Vpp
  imports Vpp_Memif Vpp_Bridge Vpp_Iface Orphan_Sweep Reconcile
begin

text \<open>
  The dataplane of the restore daemon over VPP, \<open>pkg/daemon/dataplane_vpp.go\<close>: dumping, creating and
  deleting the memif masters whose socket is under one of the configured prefixes, and sweeping the
  socket files that no master backs. A \<open>sublocale\<close> declaration proves that it meets the contract of
  theory \<open>Reconcile\<close> on every VPP that meets the contract of \<open>vpp_channel\<close>.
\<close>

section \<open>The prefix guard\<close>

definition parse_prefixes :: "string \<Rightarrow> string list" where
  "parse_prefixes socketPrefix =
     filter (\<lambda>p. p \<noteq> []) (map trimSpace (splitOn (CHR '','') socketPrefix))"

definition hasAnyPrefix :: "string \<Rightarrow> string list \<Rightarrow> bool" where
  "hasAnyPrefix s prefixes \<longleftrightarrow> (\<exists>p\<in>set prefixes. hasPrefix s p)"

text \<open>The sockets that the dataplane confines itself to; no prefix disables the guard.\<close>

definition managed_socket :: "string list \<Rightarrow> string \<Rightarrow> bool" where
  "managed_socket prefixes s \<longleftrightarrow> \<not> (0 < length prefixes \<and> \<not> hasAnyPrefix s prefixes)"

section \<open>Modes\<close>

definition parseMode :: "string \<Rightarrow> u32" where
  "parseMode mode =
     (let m = toLower mode
      in if m = ''ip'' then ModeIP
         else if m = ''punt-inject'' \<or> m = ''inject-punt'' then ModePuntInject
         else ModeEthernet)"

definition modeString :: "u32 \<Rightarrow> string" where
  "modeString mode =
     (if mode = ModeIP then ''ip'' else if mode = ModePuntInject then ''punt-inject'' else ''ethernet'')"

section \<open>Dumping\<close>

fun dump_sockets :: "socket_details result list \<Rightarrow> (u32 \<rightharpoonup> string) \<Rightarrow> (u32 \<rightharpoonup> string) result" where
  "dump_sockets [] m = Inr m"
| "dump_sockets (Inl e # xs) m = Inl (EWrap ''memif socket dump'' e)"
| "dump_sockets (Inr d # xs) m =
     dump_sockets xs (m(sd_SocketID d \<mapsto> trimRight (sd_SocketFilename d) [CHR 0x00]))"

definition dumpSockets :: "'v vpp_api \<Rightarrow> 'v \<Rightarrow> (u32 \<rightharpoonup> string) result" where
  "dumpSockets V v = dump_sockets (vpp_socket_dump V v) (\<lambda>_. None)"

text \<open>A lookup in a Go map yields the zero value for a missing key.\<close>

definition sock_of :: "(u32 \<rightharpoonup> string) \<Rightarrow> u32 \<Rightarrow> string" where
  "sock_of m k = (case m k of None \<Rightarrow> [] | Some s \<Rightarrow> s)"

definition master_of :: "memif_details \<Rightarrow> string \<Rightarrow> Memif" where
  "master_of d sock = \<lparr>Socket = sock, mf_ID = det_ID d, BridgeID = 0, mf_Mode = modeString (det_Mode d),
     SwIfIndex = det_SwIfIndex d, mf_RxQueues = 0, mf_TxQueues = 0, mf_RingSize = 0, mf_BufferSize = 0,
     mf_Secret = [], mf_HwAddr = [], mf_NoZeroCopy = False, mf_UseDma = False, mf_MTU = 0\<rparr>"

fun dump_masters ::
  "string list \<Rightarrow> (u32 \<rightharpoonup> string) \<Rightarrow> memif_details result list \<Rightarrow> Memif list \<Rightarrow> (Memif list) result" where
  "dump_masters prefixes m [] out = Inr out"
| "dump_masters prefixes m (Inl e # xs) out = Inl (EWrap ''memif dump'' e)"
| "dump_masters prefixes m (Inr d # xs) out =
     (if det_Role d \<noteq> RoleMaster then dump_masters prefixes m xs out
      else if \<not> managed_socket prefixes (sock_of m (det_SocketID d)) then dump_masters prefixes m xs out
      else dump_masters prefixes m xs (out @ [master_of d (sock_of m (det_SocketID d))]))"

definition vpp_DumpMasters :: "'v vpp_api \<Rightarrow> string list \<Rightarrow> ('v, 'm) world_scheme \<Rightarrow> (Memif list) result" where
  "vpp_DumpMasters V prefixes w =
     (case dumpSockets V (vst w) of
        Inl e \<Rightarrow> Inl e
      | Inr m \<Rightarrow> dump_masters prefixes m (vpp_memif_dump V (vst w)) [])"

section \<open>Creating and deleting\<close>

definition master_params :: "Memif \<Rightarrow> u32 \<Rightarrow> CreateParams" where
  "master_params m socketID = \<lparr>cp_SocketID = socketID, cp_Role = RoleMaster, cp_Mode = parseMode (mf_Mode m),
     cp_RxQueues = mf_RxQueues m, cp_TxQueues = mf_TxQueues m, cp_RingSize = mf_RingSize m,
     cp_BufferSize = mf_BufferSize m, cp_Secret = mf_Secret m, cp_NoZeroCopy = mf_NoZeroCopy m,
     cp_UseDma = mf_UseDma m, cp_HwAddr = mf_HwAddr m\<rparr>"

text \<open>What the calls after the creation of the interface do: they configure it.\<close>

definition configure_master ::
  "'v vpp_api \<Rightarrow> Memif \<Rightarrow> u32 \<Rightarrow> ('v, 'm) world_scheme \<Rightarrow> go_error option \<times> ('v, 'm) world_scheme" where
  "configure_master V m swIfIndex w2 =
     (case SetState V swIfIndex IF_ADMIN_UP w2 of
        (Some e, w3) \<Rightarrow> (Some (EWrap (''memif set-up '' @ Socket m) e), w3)
      | (None, w3) \<Rightarrow>
          (case (if 0 < mf_MTU m then SetMtu V swIfIndex (mf_MTU m) w3 else (None, w3)) of
             (Some e, w4) \<Rightarrow> (Some (EWrap (''memif set-mtu '' @ Socket m) e), w4)
           | (None, w4) \<Rightarrow>
               if BridgeID m \<noteq> 0 then
                 (case AddBridgeInterface V (BridgeID m) swIfIndex w4 of
                    (Some e, w5) \<Rightarrow>
                      (Some (EWrap (''memif bridge add (bd '' @ show_nat (unat (BridgeID m)) @ '')'') e), w5)
                  | (None, w5) \<Rightarrow> (None, w5))
               else (None, w4)))"

definition vpp_CreateMaster ::
  "'v vpp_api \<Rightarrow> Memif \<Rightarrow> ('v, 'm) world_scheme \<Rightarrow> go_error option \<times> ('v, 'm) world_scheme" where
  "vpp_CreateMaster V m w =
     (case CreateMemifSocket V (Socket m) w of
        (Inl e, w1) \<Rightarrow> (Some (EWrap (''memif socket '' @ Socket m) e), w1)
      | (Inr socketID, w1) \<Rightarrow>
          (case CreateMemifInterface V (master_params m socketID) w1 of
             (Inl e, w2) \<Rightarrow> (Some (EWrap (''memif create '' @ Socket m) e), w2)
           | (Inr swIfIndex, w2) \<Rightarrow>
               configure_master V m swIfIndex w2))"

text \<open>The socket file goes with the master; a failure to remove it is only logged.\<close>

definition vpp_DeleteMaster ::
  "'v vpp_api \<Rightarrow> Memif \<Rightarrow> ('v, 'm) world_scheme \<Rightarrow> go_error option \<times> ('v, 'm) world_scheme" where
  "vpp_DeleteMaster V m w =
     (case DeleteMemifInterface V (SwIfIndex m) w of
        (Some e, w1) \<Rightarrow>
          (Some (EWrap (''memif delete (swIfIndex '' @ show_nat (unat (SwIfIndex m)) @ '')'') e), w1)
      | (None, w1) \<Rightarrow>
          if Socket m \<noteq> [] then (None, snd (on_fs (os_Remove (Socket m)) w1)) else (None, w1))"

section \<open>The dataplane\<close>

definition vpp_SweepOrphanSockets ::
  "string list \<Rightarrow> ('v, 'm) world_scheme \<Rightarrow> (nat \<times> go_error option) \<times> ('v, 'm) world_scheme" where
  "vpp_SweepOrphanSockets keep w =
     (case on_fs (sweep keep (clock w)) w of (removed, w') \<Rightarrow> ((removed, None), w'))"

definition vppDataplane :: "'v vpp_api \<Rightarrow> string list \<Rightarrow> ('v, 'm) world_scheme Dataplane" where
  "vppDataplane V prefixes = \<lparr>DumpMasters = vpp_DumpMasters V prefixes, CreateMaster = vpp_CreateMaster V,
     DeleteMaster = vpp_DeleteMaster V, SweepOrphanSockets = vpp_SweepOrphanSockets\<rparr>"

definition NewVPPDataplane :: "'v vpp_api \<Rightarrow> string \<Rightarrow> ('v, 'm) world_scheme Dataplane" where
  "NewVPPDataplane V socketPrefix = vppDataplane V (parse_prefixes socketPrefix)"

lemma vppDataplane_sel [simp]:
  "DumpMasters (vppDataplane V pre) = vpp_DumpMasters V pre"
  "CreateMaster (vppDataplane V pre) = vpp_CreateMaster V"
  "DeleteMaster (vppDataplane V pre) = vpp_DeleteMaster V"
  "SweepOrphanSockets (vppDataplane V pre) = vpp_SweepOrphanSockets"
  by (simp_all add: vppDataplane_def)

section \<open>The masters of a VPP\<close>

definition vpp_view :: "'v vpp_api \<Rightarrow> string list \<Rightarrow> 'v \<Rightarrow> (u32 \<times> string) set" where
  "vpp_view V pre v = {(det_SwIfIndex d, sd_SocketFilename s) | d s.
     d \<in> set (memifs V v) \<and> s \<in> set (socks V v) \<and> det_SocketID d = sd_SocketID s \<and>
     det_Role d = RoleMaster \<and> managed_socket pre (sd_SocketFilename s)}"

lemma vpp_viewI [intro]:
  "d \<in> set (memifs V v) \<Longrightarrow> s \<in> set (socks V v) \<Longrightarrow> det_SocketID d = sd_SocketID s \<Longrightarrow>
   det_Role d = RoleMaster \<Longrightarrow> managed_socket pre (sd_SocketFilename s) \<Longrightarrow>
   (det_SwIfIndex d, sd_SocketFilename s) \<in> vpp_view V pre v"
  unfolding vpp_view_def by blast

lemma vpp_viewE [elim]:
  assumes "x \<in> vpp_view V pre v"
  obtains d s where "x = (det_SwIfIndex d, sd_SocketFilename s)" "d \<in> set (memifs V v)"
    "s \<in> set (socks V v)" "det_SocketID d = sd_SocketID s" "det_Role d = RoleMaster"
    "managed_socket pre (sd_SocketFilename s)"
  using assms unfolding vpp_view_def by blast

lemma vpp_view_same: "same_memif V v v' \<Longrightarrow> vpp_view V pre v' = vpp_view V pre v"
  by (simp add: vpp_view_def same_memif_def)

lemma dump_sockets_clean:
  "dump_sockets (map Inr ds) m =
     Inr (\<lambda>k. case map_of (rev (map (\<lambda>d. (sd_SocketID d, trimRight (sd_SocketFilename d) [CHR 0x00])) ds)) k of
                None \<Rightarrow> m k | Some s \<Rightarrow> Some s)"
  by (induction ds arbitrary: m) (auto simp: map_add_def fun_eq_iff split: option.splits)

lemma dump_masters_clean:
  "dump_masters pre m (map Inr ds) out =
     Inr (out @ map (\<lambda>d. master_of d (sock_of m (det_SocketID d)))
       (filter (\<lambda>d. det_Role d = RoleMaster \<and> managed_socket pre (sock_of m (det_SocketID d))) ds))"
  by (induction ds arbitrary: out) auto

text \<open>The socket table as a function, on a well-formed VPP.\<close>

lemma dumpSockets_wf:
  assumes wf: "vpp_wf V v"
  obtains m where "dumpSockets V v = Inr m"
    and "\<And>s. s \<in> set (socks V v) \<Longrightarrow> sock_of m (sd_SocketID s) = sd_SocketFilename s"
proof -
  let ?kv = "map (\<lambda>d. (sd_SocketID d, trimRight (sd_SocketFilename d) [CHR 0x00])) (socks V v)"
  have d: "distinct (map fst (rev ?kv))" using wf by (simp add: vpp_wf_def rev_map [symmetric] o_def)
  have "sock_of (\<lambda>k. case map_of (rev ?kv) k of None \<Rightarrow> None | Some s \<Rightarrow> Some s) (sd_SocketID s) = sd_SocketFilename s"
    if s: "s \<in> set (socks V v)" for s
  proof -
    have "map_of (rev ?kv) (sd_SocketID s) = Some (trimRight (sd_SocketFilename s) [CHR 0x00])"
      using s by (intro map_of_is_SomeI [OF d]) auto
    moreover have "trimRight (sd_SocketFilename s) [CHR 0x00] = sd_SocketFilename s"
      using wf s by (simp add: vpp_wf_def)
    ultimately show ?thesis by (simp add: sock_of_def)
  qed
  then show ?thesis
    by (intro that) (auto simp: dumpSockets_def wf_streams(2) [OF wf] dump_sockets_clean)
qed

lemma memif_socket:
  assumes "vpp_wf V v" and "d \<in> set (memifs V v)"
  obtains s where "s \<in> set (socks V v)" "sd_SocketID s = det_SocketID d"
  using assms by (force simp: vpp_wf_def)

lemma vpp_DumpMasters_view:
  assumes wf: "vpp_wf V (vst w)" and dump: "vpp_DumpMasters V pre w = Inr ms"
  shows "(\<lambda>m. (SwIfIndex m, Socket m)) ` set ms = vpp_view V pre (vst w)"
proof -
  obtain m where m: "dumpSockets V (vst w) = Inr m"
    and sock: "\<And>s. s \<in> set (socks V (vst w)) \<Longrightarrow> sock_of m (sd_SocketID s) = sd_SocketFilename s"
    using dumpSockets_wf [OF wf] by blast
  let ?D = "{d \<in> set (memifs V (vst w)). det_Role d = RoleMaster \<and> managed_socket pre (sock_of m (det_SocketID d))}"
  have "set ms = (\<lambda>d. master_of d (sock_of m (det_SocketID d))) ` ?D"
    using dump by (auto simp: vpp_DumpMasters_def m wf_streams(1) [OF wf] dump_masters_clean)
  then have "(\<lambda>m. (SwIfIndex m, Socket m)) ` set ms = (\<lambda>d. (det_SwIfIndex d, sock_of m (det_SocketID d))) ` ?D"
    by (simp add: image_image master_of_def)
  also have "\<dots> = vpp_view V pre (vst w)"
  proof (intro equalityI subsetI)
    fix x assume "x \<in> (\<lambda>d. (det_SwIfIndex d, sock_of m (det_SocketID d))) ` ?D"
    then obtain d where d: "d \<in> ?D" "x = (det_SwIfIndex d, sock_of m (det_SocketID d))" by blast
    obtain s where "s \<in> set (socks V (vst w))" "sd_SocketID s = det_SocketID d"
      using memif_socket [OF wf] d(1) by blast
    with d sock [of s] vpp_viewI [of d V "vst w" s pre] show "x \<in> vpp_view V pre (vst w)" by simp
  next
    fix x assume "x \<in> vpp_view V pre (vst w)"
    then obtain d s where "d \<in> set (memifs V (vst w))" "s \<in> set (socks V (vst w))"
      "det_SocketID d = sd_SocketID s" "det_Role d = RoleMaster"
      "managed_socket pre (sd_SocketFilename s)" "x = (det_SwIfIndex d, sd_SocketFilename s)"
      by blast
    then show "x \<in> (\<lambda>d. (det_SwIfIndex d, sock_of m (det_SocketID d))) ` ?D" using sock [of s] by auto
  qed
  finally show ?thesis .
qed

lemma vpp_DumpMasters_total:
  assumes wf: "vpp_wf V (vst w)"
  obtains ms where "vpp_DumpMasters V pre w = Inr ms"
proof (rule dumpSockets_wf [OF wf])
  fix m assume "dumpSockets V (vst w) = Inr m"
  then show ?thesis using that by (auto simp: vpp_DumpMasters_def wf_streams(1) [OF wf] dump_masters_clean)
qed

lemma vpp_view_create:
  assumes wf: "vpp_wf V v" and wf': "vpp_wf V v'"
    and mem: "set (memifs V v') = insert (details_of r i) (set (memifs V v))"
    and s: "s \<in> set (socks V v')" "rq_SocketID r = sd_SocketID s"
    and sub: "set (socks V v) \<subseteq> set (socks V v')"
    and role: "rq_Role r = RoleMaster" and man: "managed_socket pre (sd_SocketFilename s)"
  shows "vpp_view V pre v' = insert (i, sd_SocketFilename s) (vpp_view V pre v)"
proof (intro equalityI subsetI)
  fix x assume "x \<in> vpp_view V pre v'"
  then obtain d t where d: "x = (det_SwIfIndex d, sd_SocketFilename t)" "d \<in> set (memifs V v')"
    "t \<in> set (socks V v')" "det_SocketID d = sd_SocketID t" "det_Role d = RoleMaster"
    "managed_socket pre (sd_SocketFilename t)" by blast
  show "x \<in> insert (i, sd_SocketFilename s) (vpp_view V pre v)"
  proof (cases "d = details_of r i")
    case True
    then have "sd_SocketID t = sd_SocketID s" using d(4) s(2) by (simp add: details_of_def)
    then have "t = s" using socket_id_inject [OF wf' d(3) s(1)] by simp
    then show ?thesis using d(1) True by (simp add: details_of_def)
  next
    case False
    then have dv: "d \<in> set (memifs V v)" using d(2) mem by simp
    obtain u where u: "u \<in> set (socks V v)" "sd_SocketID u = det_SocketID d"
      using memif_socket [OF wf dv] by blast
    then have "u = t" using socket_id_inject [OF wf' _ d(3)] sub d(4) by auto
    then show ?thesis using d dv u(1) vpp_viewI [of d V v t pre] by simp
  qed
next
  fix x assume "x \<in> insert (i, sd_SocketFilename s) (vpp_view V pre v)"
  then consider "x = (i, sd_SocketFilename s)" | "x \<in> vpp_view V pre v" by blast
  then show "x \<in> vpp_view V pre v'"
  proof cases
    case 1
    then show ?thesis using vpp_viewI [of "details_of r i" V v' s pre] mem s role man
      by (simp add: details_of_def)
  next
    case 2
    then show ?thesis using mem sub by blast
  qed
qed

lemma vpp_view_socket:
  assumes wf: "vpp_wf V v" and wf': "vpp_wf V v'"
    and mem: "set (memifs V v') = set (memifs V v)" and sub: "set (socks V v) \<subseteq> set (socks V v')"
  shows "vpp_view V pre v' = vpp_view V pre v"
proof (intro equalityI subsetI)
  fix x assume "x \<in> vpp_view V pre v'"
  then obtain d t where d: "x = (det_SwIfIndex d, sd_SocketFilename t)" "d \<in> set (memifs V v)"
    "t \<in> set (socks V v')" "det_SocketID d = sd_SocketID t" "det_Role d = RoleMaster"
    "managed_socket pre (sd_SocketFilename t)" using mem by blast
  obtain u where u: "u \<in> set (socks V v)" "sd_SocketID u = det_SocketID d"
    using memif_socket [OF wf d(2)] by blast
  then have "u = t" using socket_id_inject [OF wf' _ d(3)] sub d(4) by auto
  then show "x \<in> vpp_view V pre v" using d u(1) vpp_viewI [of d V v t pre] by simp
next
  fix x assume "x \<in> vpp_view V pre v"
  then show "x \<in> vpp_view V pre v'" using mem sub by blast
qed

lemma vpp_view_delete:
  assumes wf: "vpp_wf V v" and wf': "vpp_wf V v'"
    and mem: "set (memifs V v') = {d \<in> set (memifs V v). det_SwIfIndex d \<noteq> i}"
    and sub: "set (socks V v') \<subseteq> set (socks V v)"
  shows "vpp_view V pre v' = {x \<in> vpp_view V pre v. fst x \<noteq> i}"
proof (intro equalityI subsetI)
  fix x assume "x \<in> vpp_view V pre v'"
  then show "x \<in> {x \<in> vpp_view V pre v. fst x \<noteq> i}" using mem sub by force
next
  fix x assume "x \<in> {x \<in> vpp_view V pre v. fst x \<noteq> i}"
  then obtain d t where d: "x = (det_SwIfIndex d, sd_SocketFilename t)" "d \<in> set (memifs V v')"
    "t \<in> set (socks V v)" "det_SocketID d = sd_SocketID t" "det_Role d = RoleMaster"
    "managed_socket pre (sd_SocketFilename t)" using mem by force
  obtain u where u: "u \<in> set (socks V v')" "sd_SocketID u = det_SocketID d"
    using memif_socket [OF wf' d(2)] by blast
  then have "u = t" using socket_id_inject [OF wf _ d(3)] sub d(4) by auto
  then show "x \<in> vpp_view V pre v'" using d u(1) vpp_viewI [of d V v' t pre] by simp
qed

lemma vpp_view_index: "vpp_wf V v \<Longrightarrow> (i, a) \<in> vpp_view V pre v \<Longrightarrow> (i, b) \<in> vpp_view V pre v \<Longrightarrow> a = b"
  by (elim vpp_viewE) (metis memif_index_inject socket_id_inject prod.inject)

lemma vpp_view_fst: "fst ` vpp_view V pre v \<subseteq> det_SwIfIndex ` set (memifs V v)"
  by (auto simp: vpp_view_def)

section \<open>The VPP dataplane meets the contract\<close>

lemma vpp_CreateMaster_cases:
  assumes "vpp_CreateMaster V m w = (e, w')"
  obtains (socket) e1 where "CreateMemifSocket V (Socket m) w = (Inl e1, w')" "e \<noteq> None"
  | (memif) k w1 e1 where "CreateMemifSocket V (Socket m) w = (Inr k, w1)"
      "CreateMemifInterface V (master_params m k) w1 = (Inl e1, w')" "e \<noteq> None"
  | (configure) k w1 i w2 where "CreateMemifSocket V (Socket m) w = (Inr k, w1)"
      "CreateMemifInterface V (master_params m k) w1 = (Inr i, w2)" "configure_master V m i w2 = (e, w')"
  using assms unfolding vpp_CreateMaster_def
  by (auto split: prod.splits sum.splits)

context vpp_channel
begin

lemma configure_master_frame:
  assumes inv: "vinv (vst w)" and run: "configure_master V m i w = (e, w')"
  shows "vinv (vst w') \<and> same_memif V (vst w) (vst w') \<and> fsys w' = fsys w \<and> clock w' = clock w"
proof -
  obtain e1 w1 where st: "SetState V i IF_ADMIN_UP w = (e1, w1)" by fastforce
  obtain e2 w2 where mtu: "(if 0 < mf_MTU m then SetMtu V i (mf_MTU m) w1 else (None, w1)) = (e2, w2)" by fastforce
  obtain e3 w3 where br: "AddBridgeInterface V (BridgeID m) i w2 = (e3, w3)" by fastforce
  note f1 = SetState_frame [OF inv st]
  then have f2: "vinv (vst w2) \<and> same_memif V (vst w) (vst w2) \<and> fsys w2 = fsys w \<and> clock w2 = clock w"
    using mtu SetMtu_frame [of w1 i "mf_MTU m" e2 w2] by (auto split: if_splits intro: same_memif_trans)
  then have f3: "vinv (vst w3) \<and> same_memif V (vst w) (vst w3) \<and> fsys w3 = fsys w \<and> clock w3 = clock w"
    using AddBridgeInterface_frame [OF _ br] by (auto intro: same_memif_trans)
  have "w' \<in> {w1, w2, w3}"
    using run st mtu br
    by (cases e1; cases e2; cases e3; cases "BridgeID m = 0") (simp_all add: configure_master_def)
  with f1 f2 f3 show ?thesis by blast
qed

lemma vpp_CreateMaster_view:
  assumes inv: "vinv (vst w)" and man: "managed_socket pre (Socket m)"
    and run: "vpp_CreateMaster V m w = (e, w')"
  shows "vinv (vst w') \<and>
    (vpp_view V pre (vst w') = vpp_view V pre (vst w) \<and> e \<noteq> None \<or>
     (\<exists>i. i \<notin> det_SwIfIndex ` set (memifs V (vst w)) \<and>
        vpp_view V pre (vst w') = insert (i, Socket m) (vpp_view V pre (vst w))))"
  using run
proof (cases rule: vpp_CreateMaster_cases)
  case (socket e1)
  note c = CreateMemifSocket_err [OF inv socket(1)]
  show ?thesis using c(1) vpp_view_same [OF c(2), of pre] socket(2) by simp
next
  case (memif k w1 e1)
  note s1 = CreateMemifSocket_ok [OF inv memif(1)]
  note m1 = CreateMemifInterface_err [OF s1(1) memif(2)]
  have "vpp_view V pre (vst w1) = vpp_view V pre (vst w)"
    using vpp_view_socket [OF inv_wf [OF inv] inv_wf [OF s1(1)] s1(2)] s1(3) by blast
  then show ?thesis using m1(1) vpp_view_same [OF m1(2), of pre] memif(3) by simp
next
  case (configure k w1 i w2)
  note s1 = CreateMemifSocket_ok [OF inv configure(1)]
  note m1 = CreateMemifInterface_ok [OF s1(1) configure(2)]
  note c = configure_master_frame [OF m1(1) configure(3)]
  obtain hw where hw: "set (memifs V (vst w2)) =
      insert (details_of (memif_request (master_params m k) hw) i) (set (memifs V (vst w1)))" using m1(2) by blast
  let ?s = "\<lparr>sd_SocketID = k, sd_SocketFilename = Socket m\<rparr>"
  have sk: "set (socks V (vst w2)) = insert ?s (set (socks V (vst w)))" unfolding m1(4) by (rule s1(3))
  have "vpp_view V pre (vst w2) = insert (i, sd_SocketFilename ?s) (vpp_view V pre (vst w))"
    by (rule vpp_view_create [OF inv_wf [OF inv] inv_wf [OF m1(1)] hw [unfolded s1(2)]])
      (simp_all add: sk man memif_request_def master_params_def subset_insertI)
  moreover have "vpp_view V pre (vst w') = vpp_view V pre (vst w2)"
    by (rule vpp_view_same) (simp add: c)
  moreover have "i \<notin> det_SwIfIndex ` set (memifs V (vst w))" using m1(3) unfolding s1(2) .
  ultimately show ?thesis using c by auto
qed

lemma vpp_DeleteMaster_run:
  assumes "vpp_DeleteMaster V m w = (e, w')"
  obtains (ok) w1 where "DeleteMemifInterface V (SwIfIndex m) w = (None, w1)" "e = None" "vst w' = vst w1"
      "fsys w' = (if Socket m = [] then fsys w1 else snd (os_Remove (Socket m) (fsys w1)))" "clock w' = clock w1"
  | (err) e1 where "DeleteMemifInterface V (SwIfIndex m) w = (Some e1, w')" "e \<noteq> None"
  using assms by (auto simp: vpp_DeleteMaster_def on_fs_def split: prod.splits option.splits if_splits)

lemma vpp_DeleteMaster_ok:
  assumes inv: "vinv (vst w)" and run: "vpp_DeleteMaster V m w = (None, w')"
  shows "vinv (vst w') \<and> vpp_view V pre (vst w') = {x \<in> vpp_view V pre (vst w). fst x \<noteq> SwIfIndex m}"
  using run
proof (cases rule: vpp_DeleteMaster_run)
  case (ok w1)
  note d = DeleteMemifInterface_ok [OF inv ok(1)]
  show ?thesis using vpp_view_delete [OF inv_wf [OF inv] inv_wf [OF d(1)] d(2,3)] d(1) ok(3) by simp
qed simp

lemma vpp_DeleteMaster_err:
  assumes inv: "vinv (vst w)" and run: "vpp_DeleteMaster V m w = (Some e, w')"
  shows "vinv (vst w') \<and> {x \<in> vpp_view V pre (vst w). fst x \<noteq> SwIfIndex m} \<subseteq> vpp_view V pre (vst w') \<and>
    vpp_view V pre (vst w') \<subseteq> vpp_view V pre (vst w)"
  using run
proof (cases rule: vpp_DeleteMaster_run)
  case (err e1)
  note d = DeleteMemifInterface_err [OF inv err(1)]
  note wf = inv_wf [OF inv] inv_wf [OF d(1)]
  from d(2) consider "set (memifs V (vst w')) = set (memifs V (vst w))"
    | "set (memifs V (vst w')) = {x \<in> set (memifs V (vst w)). det_SwIfIndex x \<noteq> SwIfIndex m}" by blast
  then have "vpp_view V pre (vst w') = vpp_view V pre (vst w) \<or>
      vpp_view V pre (vst w') = {x \<in> vpp_view V pre (vst w). fst x \<noteq> SwIfIndex m}"
    using vpp_view_socket [OF wf] vpp_view_delete [OF wf] d(3) by (cases; simp)
  then show ?thesis using d(1) by blast
qed simp

lemma vpp_Sweep_frame:
  assumes "vpp_SweepOrphanSockets keep w = (r, w')"
  shows "vst w' = vst w" and "clock w' = clock w" and "fsys w' = snd (sweep keep (clock w) (fsys w))"
  using assms by (auto simp: vpp_SweepOrphanSockets_def on_fs_def split: prod.splits)

lemma vpp_dataplane:
  "dataplane (vppDataplane V pre :: ('v, 'm) world_scheme Dataplane) (\<lambda>w. vinv (vst w))
     (\<lambda>w. vpp_view V pre (vst w)) (managed_socket pre)"
proof (unfold_locales, goal_cases)
  case (1 s ms)
  then show ?case using vpp_DumpMasters_view [OF inv_wf, of s pre ms] by simp
next
  case (2 s m s')
  then show ?case using vpp_CreateMaster_view [of s pre m None s'] vpp_view_fst [of V pre "vst s"] by auto
next
  case (3 s m e s')
  then show ?case using vpp_CreateMaster_view [of s pre m "Some e" s'] vpp_view_fst [of V pre "vst s"] by force
next
  case (4 s m s')
  then show ?case using vpp_DeleteMaster_ok [of s m s' pre] by simp
next
  case (5 s m e s')
  then show ?case using vpp_DeleteMaster_err [of s m e s' pre] by simp
next
  case (6 s keep r s')
  then show ?case using vpp_Sweep_frame [of keep s r s'] by simp
next
  case (7 s i a b)
  then show ?case using vpp_view_index [OF inv_wf] by blast
qed

end

sublocale vpp_channel \<subseteq> masters: dataplane "vppDataplane V pre" "\<lambda>w. vinv (vst w)"
    "\<lambda>w. vpp_view V pre (vst w)" "managed_socket pre" for pre
  by (rule vpp_dataplane)

section \<open>Reconciling VPP\<close>

text \<open>A gate that looks at the node and keeps its own books, but leaves VPP and the file system alone.\<close>

definition gate_reads_only :: "(Memif \<Rightarrow> ('v, 'm) world_scheme \<Rightarrow> bool \<times> ('v, 'm) world_scheme) option \<Rightarrow> bool" where
  "gate_reads_only gc \<longleftrightarrow>
     (\<forall>g m w b w'. gc = Some g \<longrightarrow> g m w = (b, w') \<longrightarrow>
        vst w' = vst w \<and> fsys w' = fsys w \<and> clock w' = clock w)"

lemma gate_reads_only_None [simp]: "gate_reads_only None"
  by (simp add: gate_reads_only_def)

lemma gate_reads_onlyD:
  "gate_reads_only (Some g) \<Longrightarrow> g m w = (b, w') \<Longrightarrow> vst w' = vst w \<and> fsys w' = fsys w \<and> clock w' = clock w"
  unfolding gate_reads_only_def by blast

lemma gate_reads_only_call:
  "gate_reads_only gc \<Longrightarrow> gate_call gc m w = (b, w') \<Longrightarrow>
   vst w' = vst w \<and> fsys w' = fsys w \<and> clock w' = clock w"
  by (cases gc) (auto simp: gate_call_def dest: gate_reads_onlyD)

context vpp_channel
begin


lemma foreign_kept:
  assumes inv: "vinv (vst w)" and gate: "gate_reads_only gc"
    and run: "Reconcile (vppDataplane V pre) desired gc w = (r, w')"
    and d: "d \<in> set (memifs V (vst w))" and idx: "det_SwIfIndex d \<notin> fst ` vpp_view V pre (vst w)"
  shows "d \<in> set (memifs V (vst w'))"
proof -
  let ?P = "\<lambda>w. vinv (vst w) \<and> d \<in> set (memifs V (vst w))"
  have "?P w'"
  proof (rule Reconcile_preserves [where P = ?P, OF _ _ _ _ _ run])
    fix m t e t' assume P: "?P t" and c: "CreateMaster (vppDataplane V pre) m t = (e, t')"
    from c have "vpp_CreateMaster V m t = (e, t')" by simp
    then show "?P t'"
    proof (cases rule: vpp_CreateMaster_cases)
      case (socket e1)
      then show ?thesis using P CreateMemifSocket_err [of t "Socket m" e1 t'] by (auto simp: same_memif_def)
    next
      case (memif k w1 e1)
      then show ?thesis using P CreateMemifSocket_ok [of t "Socket m" k w1]
          CreateMemifInterface_err [of w1 "master_params m k" e1 t'] by (auto simp: same_memif_def)
    next
      case (configure k w1 i w2)
      note s1 = CreateMemifSocket_ok [OF conjunct1 [OF P] configure(1)]
      note m1 = CreateMemifInterface_ok [OF s1(1) configure(2)]
      have "d \<in> set (memifs V (vst w2))" using m1(2) s1(2) P by auto
      then show ?thesis using configure_master_frame [OF m1(1) configure(3)] by (auto simp: same_memif_def)
    qed
  next
    fix actual m t0 t e t' assume dump: "DumpMasters (vppDataplane V pre) w = Inr actual" "m \<in> set actual"
      and P0: "?P t0" and g: "gate_call gc m t0 = (True, t)" and del: "DeleteMaster (vppDataplane V pre) m t = (e, t')"
    have P: "?P t" using P0 gate_reads_only_call [OF gate g] by simp
    have "(SwIfIndex m, Socket m) \<in> vpp_view V pre (vst w)"
      using vpp_DumpMasters_view [OF inv_wf [OF inv], of pre actual] dump by auto
    then have ne: "det_SwIfIndex d \<noteq> SwIfIndex m" using idx by force
    from del have "vpp_DeleteMaster V m t = (e, t')" by simp
    then show "?P t'"
    proof (cases rule: vpp_DeleteMaster_run)
      case (ok w1)
      then show ?thesis using P ne DeleteMemifInterface_ok [of t "SwIfIndex m" w1] by simp
    next
      case (err e1)
      then show ?thesis using P ne DeleteMemifInterface_err [of t "SwIfIndex m" e1 t'] by auto
    qed
  next
    fix m t t' assume "?P t" and g: "gate_call gc m t = (False, t')"
    then show "?P t'" using gate_reads_only_call [OF gate g] by simp
  next
    fix actual t r1 t' assume "?P t" and "SweepOrphanSockets (vppDataplane V pre)
        (remdups (map Socket desired @ map Socket actual)) t = (r1, t')"
    then show "?P t'" using vpp_Sweep_frame(1) by (metis vppDataplane_sel(4))
  next
    show "?P w" using inv d by simp
  qed
  then show ?thesis ..
qed

end

section \<open>The socket files of the desired masters\<close>

definition clean_path :: "string \<Rightarrow> bool" where
  "clean_path p \<longleftrightarrow> p \<noteq> [] \<and> pathClean p = p"

context vpp_channel
begin

lemma vpp_CreateMaster_fs:
  assumes inv: "vinv (vst t)" and run: "vpp_CreateMaster V m t = (e, t')" and q: "fs_node (fsys t) q \<noteq> None"
  shows "vinv (vst t') \<and> fs_node (fsys t') q = fs_node (fsys t) q \<and> clock t' = clock t"
  using run
proof (cases rule: vpp_CreateMaster_cases)
  case (socket e1)
  then show ?thesis using CreateMemifSocket_err(1) [OF inv] CreateMemifSocket_fs q by blast
next
  case (memif k w1 e1)
  note s1 = CreateMemifSocket_ok(1) [OF inv memif(1)] CreateMemifSocket_fs [OF memif(1) q]
  show ?thesis using CreateMemifInterface_err(1,3) [OF s1(1) memif(2)] s1 by (simp add: vpp_only_def)
next
  case (configure k w1 i w2)
  note s1 = CreateMemifSocket_ok(1) [OF inv configure(1)] CreateMemifSocket_fs [OF configure(1) q]
  note m1 = CreateMemifInterface_ok(1,5) [OF s1(1) configure(2)]
  show ?thesis using configure_master_frame [OF m1(1) configure(3)] m1 s1 by (simp add: vpp_only_def)
qed

lemma vpp_DeleteMaster_fs:
  assumes inv: "vinv (vst t)" and run: "vpp_DeleteMaster V m t = (e, t')"
    and q: "pathClean (Socket m) \<noteq> pathClean q"
  shows "vinv (vst t') \<and> fs_node (fsys t') q = fs_node (fsys t) q"
  using run
proof (cases rule: vpp_DeleteMaster_run)
  case (ok w1)
  note d = DeleteMemifInterface_ok(1,4) [OF inv ok(1)]
  have "fs_node (snd (os_Remove (Socket m) (fsys w1))) q = fs_node (fsys w1) q"
    using os_Remove_other [of "Socket m" "fsys w1"] q by (metis prod.collapse)
  then show ?thesis using d ok(3,4) by (simp add: vpp_only_def)
next
  case (err e1)
  show ?thesis using DeleteMemifInterface_err(1,4) [OF inv err(1)] by (simp add: vpp_only_def)
qed

lemma socket_file_kept:
  assumes inv: "vinv (vst w)" and gate: "gate_reads_only gc"
    and run: "Reconcile (vppDataplane V pre) desired gc w = (r, w')"
    and clean: "\<forall>s \<in> Socket ` set desired \<union> snd ` vpp_view V pre (vst w). clean_path s"
    and q: "q \<in> Socket ` set desired" "fs_node (fsys w) q \<noteq> None"
  shows "fs_node (fsys w') q = fs_node (fsys w) q"
proof -
  let ?P = "\<lambda>t. vinv (vst t) \<and> fs_node (fsys t) q = fs_node (fsys w) q"
  have qc: "pathClean q = q" using clean q(1) by (auto simp: clean_path_def)
  have "?P w'"
  proof (rule Reconcile_preserves [where P = ?P, OF _ _ _ _ _ run])
    fix m t e t' assume "?P t" and "CreateMaster (vppDataplane V pre) m t = (e, t')"
    then show "?P t'" using vpp_CreateMaster_fs [of t m e t' q] q(2) by auto
  next
    fix actual m t0 t e t' assume dump: "DumpMasters (vppDataplane V pre) w = Inr actual" "m \<in> set actual"
      and m: "Socket m \<notin> Socket ` set desired" and P0: "?P t0" and g: "gate_call gc m t0 = (True, t)"
      and del: "DeleteMaster (vppDataplane V pre) m t = (e, t')"
    have P: "?P t" using P0 gate_reads_only_call [OF gate g] by simp
    have "(SwIfIndex m, Socket m) \<in> vpp_view V pre (vst w)"
      using vpp_DumpMasters_view [OF inv_wf [OF inv], of pre actual] dump by auto
    then have "Socket m \<in> snd ` vpp_view V pre (vst w)" by (metis image_eqI snd_conv)
    then have "pathClean (Socket m) = Socket m" using clean clean_path_def by blast
    then have "pathClean (Socket m) \<noteq> pathClean q" using qc m q(1) by auto
    then show "?P t'" using vpp_DeleteMaster_fs [of t m e t' q] P del by auto
  next
    fix m t t' assume "?P t" and g: "gate_call gc m t = (False, t')"
    then show "?P t'" using gate_reads_only_call [OF gate g] by simp
  next
    fix actual t r1 t' assume P: "?P t" and sw: "SweepOrphanSockets (vppDataplane V pre)
        (remdups (map Socket desired @ map Socket actual)) t = (r1, t')"
    let ?keep = "remdups (map Socket desired @ map Socket actual)"
    have f: "vst t' = vst t" "fsys t' = snd (sweep ?keep (clock t) (fsys t))"
      using vpp_Sweep_frame [of ?keep t r1 t'] sw by simp_all
    have "swept ?keep (clock t) (fsys t) (fsys t')" unfolding f(2) by (rule sweep_swept) (rule prod.collapse [symmetric])
    then show "?P t'" using swept_keeps [of ?keep _ _ _ q] qc q(1) P f(1) by simp
  next
    show "?P w" using inv by simp
  qed
  then show ?thesis ..
qed

end

context vpp_channel
begin

lemma gate_frame_reads_only:
  assumes "gate_reads_only gc"
  shows "dataplane.gate_frame (\<lambda>w. vinv (vst w)) (\<lambda>w. vpp_view V pre (vst w)) gc"
  unfolding dataplane.gate_frame_def [OF vpp_dataplane] using assms gate_reads_onlyD by metis

end

text \<open>A memif that is no master on a socket under the prefixes is none of the masters the daemon sees.\<close>

lemma foreign_index:
  assumes wf: "vpp_wf V v" and d: "d \<in> set (memifs V v)"
    and "det_Role d \<noteq> RoleMaster \<or> (\<forall>s\<in>set (socks V v). sd_SocketID s = det_SocketID d \<longrightarrow> \<not> managed_socket pre (sd_SocketFilename s))"
  shows "det_SwIfIndex d \<notin> fst ` vpp_view V pre v"
proof
  assume "det_SwIfIndex d \<in> fst ` vpp_view V pre v"
  then obtain d' s where d': "d' \<in> set (memifs V v)" "det_SwIfIndex d = det_SwIfIndex d'"
    "s \<in> set (socks V v)" "det_SocketID d' = sd_SocketID s" "det_Role d' = RoleMaster"
    "managed_socket pre (sd_SocketFilename s)" by (auto elim!: vpp_viewE)
  then have "d' = d" using memif_index_inject [OF wf d] by simp
  with d' assms(3) show False by auto
qed

section \<open>Properties\<close>

definition sample_master :: "string \<Rightarrow> Memif" where
  "sample_master sock = \<lparr>Socket = sock, mf_ID = 0, BridgeID = 7, mf_Mode = ''ethernet'',
     SwIfIndex = 0, mf_RxQueues = 0, mf_TxQueues = 0, mf_RingSize = 0, mf_BufferSize = 0,
     mf_Secret = [], mf_HwAddr = [], mf_NoZeroCopy = False, mf_UseDma = False, mf_MTU = 1500\<rparr>"

lemma sample_managed: "\<forall>m\<in>set [sample_master sample_sock]. managed_socket [''/run/vpp''] (Socket m)"
  by code_simp

lemma sample_reconcile:
  "Reconcile (vppDataplane sample_vpp [''/run/vpp'']) [sample_master sample_sock] None sample_world =
     ((1, 0, None), snd (Reconcile (vppDataplane sample_vpp [''/run/vpp'']) [sample_master sample_sock] None sample_world))"
  by (rule run_surj) code_simp

text \<open>
  C1: On every VPP that keeps the documented memif tables, a reconcile without a gate that ends without
  an error leaves exactly the desired masters: the sockets of the managed masters of VPP are the
  sockets of the desired list.
\<close>

theorem vpp_reconcile_converges:
  assumes "vpp_channel V vinv" and "vinv (vst w)"
    and "\<forall>m\<in>set desired. managed_socket pre (Socket m)"
    and "Reconcile (vppDataplane V pre) desired None w = ((c, d, None), w')"
  shows "vinv (vst w') \<and> snd ` vpp_view V pre (vst w') = Socket ` set desired"
  using dataplane.Reconcile_converges [OF vpp_channel.vpp_dataplane [OF assms(1)] assms(2-4)] .

theorem vpp_reconcile_converges_witness:
  "snd ` vpp_view sample_vpp [''/run/vpp''] (vst (snd (Reconcile (vppDataplane sample_vpp [''/run/vpp''])
     [sample_master sample_sock] None sample_world))) = {sample_sock}"
  using vpp_reconcile_converges [OF sample.vpp_channel_axioms sample_ok_world sample_managed sample_reconcile]
  by (simp add: sample_master_def)



text \<open>
  C2: No reconcile loses a desired master. Whatever the gate answers and wherever an error stops the
  run, a managed master whose socket is desired is still there afterwards under the same interface
  index, and the only sockets that can be new are desired ones.
\<close>

theorem vpp_reconcile_keeps_desired:
  assumes "vpp_channel V vinv" and "vinv (vst w)"
    and "\<forall>m\<in>set desired. managed_socket pre (Socket m)" and "gate_reads_only gc"
    and "Reconcile (vppDataplane V pre) desired gc w = ((c, d, e), w')"
  shows "{x \<in> vpp_view V pre (vst w). snd x \<in> Socket ` set desired} \<subseteq> vpp_view V pre (vst w') \<and>
    snd ` vpp_view V pre (vst w') \<subseteq> snd ` vpp_view V pre (vst w) \<union> Socket ` set desired"
proof -
  note dp = vpp_channel.vpp_dataplane [OF assms(1), of pre]
  have "dataplane.gate_frame (\<lambda>w. vinv (vst w)) (\<lambda>w. vpp_view V pre (vst w)) gc"
    by (rule vpp_channel.gate_frame_reads_only [OF assms(1,4)])
  note safe = dataplane.Reconcile_safe(2,3) [OF dp assms(2,3) this assms(5)]
  then show ?thesis by blast
qed

definition sample_gate :: "(Memif \<Rightarrow> ('v, 'm) world_scheme \<Rightarrow> bool \<times> ('v, 'm) world_scheme) option" where
  "sample_gate = Some (\<lambda>m w. (SwIfIndex m = 2, w))"

lemma sample_gate_reads_only: "gate_reads_only sample_gate"
  by (simp add: gate_reads_only_def sample_gate_def)

definition sample_two :: "sample world" where
  "sample_two = snd (Reconcile (vppDataplane sample_vpp [''/run/vpp''])
     [sample_master sample_sock, sample_master ''/run/vpp/memif-cafecafecafe-net2.sock''] None sample_world)"

lemma sample_ok_two: "sample_ok (vst sample_two)"
proof -
  have "fst (Reconcile (vppDataplane sample_vpp [''/run/vpp''])
     [sample_master sample_sock, sample_master ''/run/vpp/memif-cafecafecafe-net2.sock''] None sample_world) = (2, 0, None)"
    by code_simp
  moreover have "\<forall>m\<in>set [sample_master sample_sock, sample_master ''/run/vpp/memif-cafecafecafe-net2.sock''].
      managed_socket [''/run/vpp''] (Socket m)" by code_simp
  ultimately show ?thesis
    using dataplane.Reconcile_converges [OF sample.vpp_dataplane sample_ok_world _ run_surj]
    unfolding sample_two_def by blast
qed

lemma sample_two_memifs:
  "map det_SwIfIndex (sp_memifs (vst sample_two)) = [1, 2]"
  by code_simp

theorem vpp_reconcile_keeps_desired_witness:
  "\<exists>w'. Reconcile (vppDataplane sample_vpp [''/run/vpp'']) [sample_master sample_sock] sample_gate sample_two =
       ((0, 1, None), w') \<and>
     {x \<in> vpp_view sample_vpp [''/run/vpp''] (vst sample_two). snd x \<in> {sample_sock}}
       \<subseteq> vpp_view sample_vpp [''/run/vpp''] (vst w')"
proof -
  have "Reconcile (vppDataplane sample_vpp [''/run/vpp'']) [sample_master sample_sock] sample_gate sample_two =
    ((0, 1, None), snd (Reconcile (vppDataplane sample_vpp [''/run/vpp'']) [sample_master sample_sock] sample_gate sample_two))"
    by (rule run_surj) code_simp
  from this vpp_reconcile_keeps_desired [OF sample.vpp_channel_axioms sample_ok_two sample_managed
      sample_gate_reads_only this]
  show ?thesis by (intro exI conjI) (assumption, simp add: sample_master_def)
qed

text \<open>
  The daemon never touches a memif that is not its own. Every memif of VPP that is no managed
  master (a slave, or a master whose socket is under none of the configured prefixes) has the same row
  in VPP after a reconcile as before it, also when the reconcile fails half-way.
\<close>

theorem vpp_reconcile_foreign_untouched:
  assumes "vpp_channel V vinv" and "vinv (vst w)" and "gate_reads_only gc"
    and "Reconcile (vppDataplane V pre) desired gc w = (r, w')"
    and "d \<in> set (memifs V (vst w))"
    and "det_Role d \<noteq> RoleMaster \<or>
      (\<forall>s\<in>set (socks V (vst w)). sd_SocketID s = det_SocketID d \<longrightarrow> \<not> managed_socket pre (sd_SocketFilename s))"
  shows "d \<in> set (memifs V (vst w'))"
  by (rule vpp_channel.foreign_kept [OF assms(1-5)]) (rule foreign_index [OF vpp_channel.inv_wf [OF assms(1,2)] assms(5,6)])

theorem vpp_reconcile_foreign_untouched_witness:
  "set (sp_memifs (vst sample_two)) \<subseteq>
     set (sp_memifs (vst (snd (Reconcile (vppDataplane sample_vpp [''/run/other'']) [] None sample_two))))"
proof
  fix d assume d: "d \<in> set (sp_memifs (vst sample_two))"
  have none: "\<forall>s\<in>set (sp_socks (vst sample_two)). \<not> managed_socket [''/run/other''] (sd_SocketFilename s)"
    by code_simp
  show "d \<in> set (sp_memifs (vst (snd (Reconcile (vppDataplane sample_vpp [''/run/other'']) [] None sample_two))))"
    using vpp_reconcile_foreign_untouched [OF sample.vpp_channel_axioms sample_ok_two gate_reads_only_None
        prod.collapse [symmetric], where d = d and pre = "[''/run/other'']" and desired = "[]"] none d by simp
qed

text \<open>
  C4: A reconcile never removes the socket file of a desired master, neither with an orphan it deletes
  nor in the sweep, provided that the socket paths of the desired and of the existing masters are in
  the form that \<open>filepath.Clean\<close> gives.
\<close>

theorem vpp_reconcile_keeps_socket_files:
  assumes "vpp_channel V vinv" and "vinv (vst w)" and "gate_reads_only gc"
    and "Reconcile (vppDataplane V pre) desired gc w = (r, w')"
    and "\<forall>s \<in> Socket ` set desired \<union> snd ` vpp_view V pre (vst w). clean_path s"
    and "q \<in> Socket ` set desired" and "fs_node (fsys w) q \<noteq> None"
  shows "fs_node (fsys w') q = fs_node (fsys w) q"
  by (rule vpp_channel.socket_file_kept [OF assms])

definition sample_files :: "sample world" where
  "sample_files = sample_two\<lparr>fsys := fs_put (fs_put sample_fs sample_sock (FileNode [] 5))
     ''/run/vpp/memif-cafecafecafe-net2.sock'' (FileNode [] 5)\<rparr>"

lemma sample_files_vst [simp]: "vst sample_files = vst sample_two"
  by (simp add: sample_files_def)

lemma sample_two_view:
  "snd ` vpp_view sample_vpp pre (vst sample_two) \<subseteq> sd_SocketFilename ` set (sp_socks (vst sample_two))"
  by (auto simp: vpp_view_def)

theorem vpp_reconcile_keeps_socket_files_witness:
  "let w' = snd (Reconcile (vppDataplane sample_vpp [''/run/vpp'']) [sample_master sample_sock] None sample_files)
   in fs_node (fsys w') sample_sock = Some (FileNode [] 5) \<and>
      fs_node (fsys w') ''/run/vpp/memif-cafecafecafe-net2.sock'' = None"
proof -
  let ?r = "Reconcile (vppDataplane sample_vpp [''/run/vpp'']) [sample_master sample_sock] None sample_files"
  have "\<forall>s\<in>set (sp_socks (vst sample_two)). clean_path (sd_SocketFilename s)" by code_simp
  moreover have "clean_path sample_sock" by code_simp
  ultimately have "\<forall>s \<in> Socket ` set [sample_master sample_sock] \<union> snd ` vpp_view sample_vpp [''/run/vpp''] (vst sample_files).
      clean_path s" using sample_two_view [of "[''/run/vpp'']"] by (auto simp: sample_master_def)
  moreover have "fs_node (fsys sample_files) sample_sock = Some (FileNode [] 5)" by code_simp
  ultimately have "fs_node (fsys (snd ?r)) sample_sock = Some (FileNode [] 5)"
    using vpp_reconcile_keeps_socket_files [OF sample.vpp_channel_axioms _ gate_reads_only_None
        prod.collapse [symmetric], where w = sample_files and pre = "[''/run/vpp'']" and
        desired = "[sample_master sample_sock]" and q = sample_sock]
      sample_ok_two by (simp add: sample_master_def)
  moreover have "fs_node (fsys (snd ?r)) ''/run/vpp/memif-cafecafecafe-net2.sock'' = None" by code_simp
  ultimately show ?thesis by (simp add: Let_def)
qed

text \<open>
  The two mode functions are inverse to each other on VPP's modes: the mode of a dumped master,
  parsed again when that master is restored, is the mode VPP reported; a mode VPP does not define
  becomes ethernet.
\<close>

theorem mode_roundtrip:
  "parseMode (modeString mode) = (if mode = ModeIP \<or> mode = ModePuntInject then mode else ModeEthernet)"
proof -
  have "parseMode ''ip'' = ModeIP" "parseMode ''punt-inject'' = ModePuntInject"
    "parseMode ''ethernet'' = ModeEthernet" by code_simp+
  then show ?thesis by (auto simp: modeString_def)
qed

text \<open>
  The prefix list round-trips: prefixes that are not empty, hold no comma and neither start nor end
  with white space, written with commas between them, are read back as they are; the empty string
  disables the guard.
\<close>

theorem parse_prefixes_roundtrip:
  assumes "\<forall>p\<in>set ps. p \<noteq> [] \<and> CHR '','' \<notin> set p \<and> graphic (hd p) \<and> graphic (last p)"
  shows "parse_prefixes (joinWith '','' ps) = ps"
proof (cases "ps = []")
  case True
  moreover have "parse_prefixes (joinWith '','' []) = []" by code_simp
  ultimately show ?thesis by simp
next
  case False
  then have "splitOn (CHR '','') (joinWith '','' ps) = ps" using assms by (intro splitOn_joinWith) auto
  moreover have "map trimSpace ps = ps" using assms by (intro map_idI) (auto intro: trimSpace_graphic)
  moreover have "filter (\<lambda>p. p \<noteq> []) ps = ps" using assms by (simp add: filter_id_conv)
  ultimately show ?thesis by (simp add: parse_prefixes_def)
qed

theorem parse_prefixes_roundtrip_witness:
  "parse_prefixes (joinWith '','' [''/run/vpp'', ''/var/run/vpp'']) = [''/run/vpp'', ''/var/run/vpp'']"
  by (rule parse_prefixes_roundtrip) code_simp

text \<open>
  C10: The prefix limits what is seen, not what is wanted. On every VPP with well-formed tables a reconcile
  that ends without an error has created a master for each desired socket outside the configured
  prefixes, whether or not one is there already; so with such a socket no reconcile is a no-op.
\<close>

theorem outside_prefix_never_settles:
  assumes "vpp_wf V (vst w)" and "Reconcile (vppDataplane V pre) desired gc w = ((c, d, None), w')"
  shows "length (filter (\<lambda>m. \<not> managed_socket pre (Socket m)) desired) \<le> c"
proof -
  obtain actual where dump: "vpp_DumpMasters V pre w = Inr actual" by (rule vpp_DumpMasters_total [OF assms(1)])
  have "managed_socket pre (Socket a)" if "a \<in> set actual" for a
  proof -
    have "(SwIfIndex a, Socket a) \<in> vpp_view V pre (vst w)" using that vpp_DumpMasters_view [OF assms(1) dump] by force
    then show ?thesis by auto
  qed
  then have sub: "\<not> managed_socket pre (Socket m) \<Longrightarrow> Socket m \<notin> set (map Socket actual)" for m by auto
  obtain toCreate toDelete where diff: "Diff desired actual = (toCreate, toDelete)" by fastforce
  obtain s1 where "create_all (vppDataplane V pre) toCreate 0 w = ((c, None), s1)"
    using assms(2) dump diff by (auto simp: Reconcile_def split: prod.splits option.splits)
  then have "c = length toCreate" using create_all_count by fastforce
  also have "\<dots> = length (filter (\<lambda>m. Socket m \<notin> set (map Socket actual)) desired)" using diff by (auto simp: Diff_def Let_def)
  finally show ?thesis using length_filter_le_filter [of "\<lambda>m. \<not> managed_socket pre (Socket m)", OF sub] by simp
qed

theorem outside_prefix_never_settles_witness:
  "\<exists>c w'. Reconcile (vppDataplane sample_vpp [''/run/vpp2'']) [sample_master sample_sock] None sample_world = ((c, 0, None), w') \<and> 1 \<le> c \<and>
     (\<exists>e. fst (Reconcile (vppDataplane sample_vpp [''/run/vpp2'']) [sample_master sample_sock] None w') = (0, 0, Some e))"
proof -
  let ?R = "Reconcile (vppDataplane sample_vpp [''/run/vpp2'']) [sample_master sample_sock] None"
  have "case ?R sample_world of ((c, d, e), w') \<Rightarrow> (d, e) = (0, None) \<and> (case fst (?R w') of (c, d, e) \<Rightarrow> (c, d) = (0, 0) \<and> e \<noteq> None)"
    by code_simp
  then obtain c w' e where r: "?R sample_world = ((c, 0, None), w')" and two: "fst (?R w') = (0, 0, Some e)"
    by (auto split: prod.splits)
  have "\<not> managed_socket [''/run/vpp2''] (Socket (sample_master sample_sock))" by code_simp
  then have "1 \<le> c" using outside_prefix_never_settles [OF sample.inv_wf [OF sample_ok_world] r] by simp
  with r two show ?thesis by blast
qed

end
