(* ===== verification/Vpp_Frame.thy ===== *)
theory Vpp_Frame
  imports Vpp_Memif Vpp_Bridge Vpp_Iface
begin

text \<open>
  What the wrappers of \<open>cnivpp/api/\<close> leave alone: they change VPP and the file system, and no field that
  the plugin or the daemon adds to the state.
\<close>

named_theorems vpp_frame \<open>an operation on VPP or the file system keeps the rest of the state\<close>

lemma on_vpp_more [vpp_frame]: "on_vpp req w = (r, w') \<Longrightarrow> world.more w' = world.more w"
  by (auto simp: on_vpp_def split: prod.splits)

lemma on_fs_more [vpp_frame]: "on_fs call w = (r, w') \<Longrightarrow> world.more w' = world.more w"
  by (auto simp: on_fs_def split: prod.splits)

lemma on_fs_snd_more: "world.more (snd (on_fs call w)) = world.more w"
  by (simp add: on_fs_def split: prod.splits)

lemma CreateMemifInterface_more [vpp_frame]: "CreateMemifInterface V p w = (r, w') \<Longrightarrow> world.more w' = world.more w"
  by (auto simp: CreateMemifInterface_def dest!: vpp_frame split: if_splits sum.splits)

lemma CreateMemifSocket_more [vpp_frame]: "CreateMemifSocket V f w = (r, w') \<Longrightarrow> world.more w' = world.more w"
  by (auto simp: CreateMemifSocket_def dest!: vpp_frame split: prod.splits bool.splits option.splits sum.splits errno.splits)

lemma DeleteMemifInterface_more [vpp_frame]: "DeleteMemifInterface V i w = (r, w') \<Longrightarrow> world.more w' = world.more w"
  by (auto simp: DeleteMemifInterface_def DeleteMemifSocket_def dest!: vpp_frame split: prod.splits option.splits if_splits)

lemma CreateVhostUserInterface_more [vpp_frame]: "CreateVhostUserInterface V p w = (r, w') \<Longrightarrow> world.more w' = world.more w"
  by (auto simp: CreateVhostUserInterface_def dest!: vpp_frame split: if_splits sum.splits)

lemma DeleteVhostUserInterface_more [vpp_frame]: "DeleteVhostUserInterface V i w = (r, w') \<Longrightarrow> world.more w' = world.more w"
  by (auto simp: DeleteVhostUserInterface_def dest!: vpp_frame)

lemma iface_more [vpp_frame]:
  "SetState V i up w = (r, w') \<Longrightarrow> world.more w' = world.more w"
  "SetMtu V i m w = (r, w') \<Longrightarrow> world.more w' = world.more w"
  "AddDelIpAddress V i b res w = (r, w') \<Longrightarrow> world.more w' = world.more w"
  by (auto simp: SetState_def SetMtu_def AddDelIpAddress_def dest!: vpp_frame split: if_splits)

lemma bridge_more [vpp_frame]:
  "CreateBridge V bd w = (r, w') \<Longrightarrow> world.more w' = world.more w"
  "DeleteBridge V bd w = (r, w') \<Longrightarrow> world.more w' = world.more w"
  by (auto simp: CreateBridge_def DeleteBridge_def dest!: vpp_frame split: if_splits prod.splits)

lemma bridge_iface_more [vpp_frame]:
  "AddBridgeInterface V bd i w = (r, w') \<Longrightarrow> world.more w' = world.more w"
  "RemoveBridgeInterface V bd i w = (r, w') \<Longrightarrow> world.more w' = world.more w"
  by (auto simp: AddBridgeInterface_def RemoveBridgeInterface_def dest!: vpp_frame split: prod.splits option.splits)

lemma RemoveBridgeInterface_snd_more: "world.more (snd (RemoveBridgeInterface V bd i w)) = world.more w"
  using bridge_iface_more(2) by (metis prod.collapse)

end
