(* ===== verification/Daemon.thy ===== *)
theory Daemon
  imports Desired Dataplane_Vpp Vpp_Frame
begin

text \<open>
  The reconciler of the restore daemon, \<open>pkg/daemon/daemon.go\<close>: the gate that decides which orphan
  masters may be deleted, the lookup of network configurations with its cache, and \<open>Sync\<close>, which
  collects the desired masters of the pods of the node and reconciles VPP with them. The API of
  Kubernetes is a pair of functions over a state \<open>'k\<close>, as in the interfaces \<open>PodLister\<close> and
  \<open>NADConfigGetter\<close> of the code.
\<close>

section \<open>State\<close>

record orphanRound =
  or_count :: int
  or_lastRound :: int

text \<open>The fields of a \<open>Reconciler\<close> that do not change, and the ones that do, next to the node.\<close>

record 'k Reconciler =
  rc_Pods :: "'k \<Rightarrow> (Pod list) result \<times> 'k"
  rc_NADs :: "string \<Rightarrow> string \<Rightarrow> 'k \<Rightarrow> string result \<times> 'k"
  Grace :: int

record ('v, 'k) daemon = "'v world" +
  kst :: 'k
  orphanSeen :: "string \<rightharpoonup> orphanRound"
  rc_round :: int

section \<open>The gate\<close>

definition SocketGone :: "Memif \<Rightarrow> fs \<Rightarrow> bool" where
  "SocketGone m f \<longleftrightarrow> os_Stat f (Socket m) = Inl ENOENT"

text \<open>The value that a Go map of records gives for a missing key.\<close>

definition seen_rec :: "(string \<rightharpoonup> orphanRound) \<Rightarrow> string \<Rightarrow> orphanRound" where
  "seen_rec seen s = (case seen s of None \<Rightarrow> \<lparr>or_count = 0, or_lastRound = 0\<rparr> | Some r \<Rightarrow> r)"

definition shouldGC :: "int \<Rightarrow> Memif \<Rightarrow> ('v, 'k) daemon \<Rightarrow> bool \<times> ('v, 'k) daemon" where
  "shouldGC grace m w =
     (if SocketGone m (fsys w) then (True, w\<lparr>orphanSeen := (orphanSeen w)(Socket m := None)\<rparr>)
      else if grace \<le> 0 then (False, w)
      else
        (let rec0 = seen_rec (orphanSeen w) (Socket m);
             count = (if or_lastRound rec0 = rc_round w - 1 then or_count rec0 + 1 else 1);
             rec1 = \<lparr>or_count = count, or_lastRound = rc_round w\<rparr>
         in if grace \<le> count then (True, w\<lparr>orphanSeen := (orphanSeen w)(Socket m := None)\<rparr>)
            else (False, w\<lparr>orphanSeen := (orphanSeen w)(Socket m \<mapsto> rec1)\<rparr>)))"

section \<open>Looking up networks\<close>

text \<open>The two maps of a \<open>Sync\<close> and the state of the API.\<close>

record 'k lookup =
  nadCache :: "string \<rightharpoonup> string"
  nadErr :: "string \<rightharpoonup> go_error"
  lk_kst :: 'k

definition nad_key :: "string \<Rightarrow> string \<Rightarrow> string" where
  "nad_key ns name = ns @ ''/'' @ name"

definition nadLookup ::
  "(string \<Rightarrow> string \<Rightarrow> 'k \<Rightarrow> string result \<times> 'k) \<Rightarrow> string \<Rightarrow> string \<Rightarrow> 'k lookup \<Rightarrow> string result \<times> 'k lookup" where
  "nadLookup get ns name s =
     (case nadErr s (nad_key ns name) of
        Some e \<Rightarrow> (Inl e, s)
      | None \<Rightarrow>
          (case nadCache s (nad_key ns name) of
             Some c \<Rightarrow> (Inr c, s)
           | None \<Rightarrow>
               (case get ns name (lk_kst s) of
                  (Inl e, k) \<Rightarrow> (Inl e, s\<lparr>lk_kst := k, nadErr := (nadErr s)(nad_key ns name \<mapsto> e)\<rparr>)
                | (Inr cfg, k) \<Rightarrow> (Inr cfg, s\<lparr>lk_kst := k, nadCache := (nadCache s)(nad_key ns name \<mapsto> cfg)\<rparr>))))"

section \<open>Sync\<close>

text \<open>The loop over the pods: a pod whose masters cannot be determined is skipped.\<close>

fun sync_pods ::
  "cni_lib \<Rightarrow> (string \<Rightarrow> string \<Rightarrow> 's \<Rightarrow> string result \<times> 's) \<Rightarrow> Pod list \<Rightarrow> Memif list \<Rightarrow> 's \<Rightarrow> Memif list \<times> 's" where
  "sync_pods L nad [] desired s = (desired, s)"
| "sync_pods L nad (pod # pods) desired s =
     (case desiredForPod L nad pod s of
        (Inl perr, s1) \<Rightarrow> sync_pods L nad pods desired s1
      | (Inr ms, s1) \<Rightarrow> sync_pods L nad pods (desired @ ms) s1)"

definition Sync ::
  "cni_lib \<Rightarrow> 'k Reconciler \<Rightarrow> ('v, 'k) daemon Dataplane \<Rightarrow> ('v, 'k) daemon \<Rightarrow>
   (nat \<times> nat \<times> go_error option) \<times> ('v, 'k) daemon" where
  "Sync L R dp w0 =
     (let w = w0\<lparr>rc_round := rc_round w0 + 1\<rparr>
      in case rc_Pods R (kst w) of
           (Inl e, k) \<Rightarrow> ((0, 0, Some (EWrap ''list node pods'' e)), w\<lparr>kst := k\<rparr>)
         | (Inr pods, k) \<Rightarrow>
             (case sync_pods L (nadLookup (rc_NADs R)) pods []
                     \<lparr>nadCache = (\<lambda>_. None), nadErr = (\<lambda>_. None), lk_kst = k\<rparr> of
                (desired, s) \<Rightarrow> Reconcile dp desired (Some (shouldGC (Grace R))) (w\<lparr>kst := lk_kst s\<rparr>)))"

text \<open>The reconciler that \<open>cmd/daemon\<close> builds, over a cluster.\<close>

definition k8s_Reconciler :: "'k kube_api \<Rightarrow> string \<Rightarrow> int \<Rightarrow> 'k Reconciler" where
  "k8s_Reconciler K nodeName grace =
     \<lparr>rc_Pods = ListNodePods K nodeName, rc_NADs = GetNADConfig K, Grace = grace\<rparr>"

section \<open>The gate's books\<close>

lemma shouldGC_frame:
  assumes "shouldGC g m w = (b, w')"
  shows "vst w' = vst w" "fsys w' = fsys w" "clock w' = clock w" "kst w' = kst w" "rc_round w' = rc_round w"
    and "s \<noteq> Socket m \<Longrightarrow> orphanSeen w' s = orphanSeen w s"
  using assms by (auto simp: shouldGC_def Let_def split: if_splits)

lemma shouldGC_reads_only: "gate_reads_only (Some (shouldGC g))"
  unfolding gate_reads_only_def using shouldGC_frame(1-3) by blast

text \<open>
  The length of the streak of a socket that the next visit in round \<open>r\<close> extends.
\<close>

definition streak :: "(string \<rightharpoonup> orphanRound) \<Rightarrow> int \<Rightarrow> string \<Rightarrow> int" where
  "streak seen r s = (if or_lastRound (seen_rec seen s) = r - 1 then or_count (seen_rec seen s) else 0)"

lemma shouldGC_present:
  assumes "\<not> SocketGone m (fsys w)" and "0 < g"
  shows "shouldGC g m w =
    (let n = streak (orphanSeen w) (rc_round w) (Socket m) + 1
     in if g \<le> n then (True, w\<lparr>orphanSeen := (orphanSeen w)(Socket m := None)\<rparr>)
        else (False, w\<lparr>orphanSeen := (orphanSeen w)(Socket m \<mapsto> \<lparr>or_count = n, or_lastRound = rc_round w\<rparr>)\<rparr>))"
  using assms by (simp add: shouldGC_def streak_def Let_def)

lemma streak_None [simp]: "seen s = None \<Longrightarrow> streak seen r s = 0"
  by (simp add: streak_def seen_rec_def)

lemma streak_Some: "seen s = Some c \<Longrightarrow> streak seen r s = (if or_lastRound c = r - 1 then or_count c else 0)"
  by (simp add: streak_def seen_rec_def)

section \<open>Rounds of the gate\<close>

text \<open>The answers of the gate for the given orphans, in one round and in \<open>n\<close> consecutive rounds.\<close>

fun gc_visit :: "int \<Rightarrow> Memif list \<Rightarrow> ('v, 'k) daemon \<Rightarrow> bool list \<times> ('v, 'k) daemon" where
  "gc_visit g [] w = ([], w)"
| "gc_visit g (m # ms) w =
     (case shouldGC g m w of (b, w1) \<Rightarrow> (case gc_visit g ms w1 of (bs, w2) \<Rightarrow> (b # bs, w2)))"

fun gc_rounds :: "int \<Rightarrow> Memif list \<Rightarrow> nat \<Rightarrow> ('v, 'k) daemon \<Rightarrow> bool list list" where
  "gc_rounds g ms 0 w = []"
| "gc_rounds g ms (Suc n) w =
     (case gc_visit g ms (w\<lparr>rc_round := rc_round w + 1\<rparr>) of (bs, w1) \<Rightarrow> bs # gc_rounds g ms n w1)"

lemma gc_rounds_streak:
  assumes "\<not> SocketGone m (fsys w)" and "0 < g"
    and "0 \<le> streak (orphanSeen w) (rc_round w + 1) (Socket m)" "streak (orphanSeen w) (rc_round w + 1) (Socket m) < g"
  shows "gc_rounds g [m] n w =
    map (\<lambda>i. [(streak (orphanSeen w) (rc_round w + 1) (Socket m) + int (Suc i)) mod g = 0]) [0..<n]"
  using assms
proof (induction n arbitrary: w)
  case (Suc n)
  let ?w = "w\<lparr>rc_round := rc_round w + 1\<rparr>" and ?c = "streak (orphanSeen w) (rc_round w + 1) (Socket m)"
  obtain b w1 where v: "shouldGC g m ?w = (b, w1)" by fastforce
  have sg: "shouldGC g m ?w = (if g \<le> ?c + 1 then (True, ?w\<lparr>orphanSeen := (orphanSeen w)(Socket m := None)\<rparr>)
      else (False, ?w\<lparr>orphanSeen := (orphanSeen w)(Socket m \<mapsto> \<lparr>or_count = ?c + 1, or_lastRound = rc_round w + 1\<rparr>)\<rparr>))"
    using shouldGC_present [of m ?w g] Suc.prems(1,2) by (simp add: Let_def)
  define c1 where "c1 = streak (orphanSeen w1) (rc_round w1 + 1) (Socket m)"
  have c1: "c1 = (if g \<le> ?c + 1 then 0 else ?c + 1)" and b: "b \<longleftrightarrow> (?c + 1) mod g = 0"
    using v Suc.prems(3,4) zdiv_eq_0_iff [of "?c + 1" g]
    by (auto simp: sg c1_def streak_Some mod_pos_pos_trivial split: if_splits)
      (smt (verit, best) mod_self)+
  have m: "(?c + int (Suc (Suc i))) mod g = (c1 + int (Suc i)) mod g" for i
  proof (cases "g \<le> ?c + 1")
    case True
    then have "?c + int (Suc (Suc i)) = g + (c1 + int (Suc i))" using c1 Suc.prems(4) by simp
    then show ?thesis by (simp only: mod_add_self1)
  next
    case False
    then show ?thesis using c1 by (simp add: algebra_simps)
  qed
  have IH: "gc_rounds g [m] n w1 = map (\<lambda>i. [(c1 + int (Suc i)) mod g = 0]) [0..<n]"
    unfolding c1_def
  proof (rule Suc.IH)
    show "\<not> SocketGone m (fsys w1)" using Suc.prems(1) shouldGC_frame(2) [OF v] by simp
    show "0 \<le> streak (orphanSeen w1) (rc_round w1 + 1) (Socket m)"
      "streak (orphanSeen w1) (rc_round w1 + 1) (Socket m) < g"
      using c1 Suc.prems(2-4) unfolding c1_def by (auto split: if_splits)
  qed (rule Suc.prems(2))
  have "map (\<lambda>i. [(?c + int (Suc i)) mod g = 0]) [0..<Suc n] =
      [(?c + 1) mod g = 0] # map (\<lambda>i. [(?c + int (Suc (Suc i))) mod g = 0]) [0..<n]"
    by (simp only: upt_conv_Cons [of 0 "Suc n"] map_Suc_upt [symmetric] list.map map_map o_def) simp
  then show ?case using v b IH by (simp add: m del: of_nat_Suc)
qed simp

lemma gc_rounds_shared:
  assumes "\<not> SocketGone m1 (fsys w)" and "Socket m1 = Socket m2" and "3 \<le> g"
    and "streak (orphanSeen w) (rc_round w + 1) (Socket m1) \<le> 1"
  shows "gc_rounds g [m1, m2] n w = replicate n [False, False]"
  using assms
proof (induction n arbitrary: w)
  case (Suc n)
  let ?w = "w\<lparr>rc_round := rc_round w + 1\<rparr>" and ?c = "streak (orphanSeen w) (rc_round w + 1) (Socket m1)"
  let ?w1 = "?w\<lparr>orphanSeen := (orphanSeen w)(Socket m1 \<mapsto> \<lparr>or_count = ?c + 1, or_lastRound = rc_round w + 1\<rparr>)\<rparr>"
  have g2: "\<not> SocketGone m2 (fsys w)" using Suc.prems(1,2) by (simp add: SocketGone_def)
  have v1: "shouldGC g m1 ?w = (False, ?w1)"
    using shouldGC_present [of m1 ?w g] Suc.prems(1,3,4) by (simp add: Let_def)
  let ?w2 = "?w\<lparr>orphanSeen := (orphanSeen w)(Socket m1 \<mapsto> \<lparr>or_count = 1, or_lastRound = rc_round w + 1\<rparr>)\<rparr>"
  have "streak (orphanSeen ?w1) (rc_round ?w1) (Socket m2) = 0" using Suc.prems(2) by (simp add: streak_Some)
  then have v2: "shouldGC g m2 ?w1 = (False, ?w2)"
    using shouldGC_present [of m2 ?w1 g] g2 Suc.prems(2,3) by (simp add: Let_def)
  have "gc_rounds g [m1, m2] n ?w2 = replicate n [False, False]"
    using Suc.prems by (intro Suc.IH) (simp_all add: streak_Some)
  then show ?case by (simp add: v1 v2)
qed simp

section \<open>VPP calls leave the reconciler's fields alone\<close>

lemma configure_master_more: "configure_master V m i w = (r, w') \<Longrightarrow> world.more w' = world.more w"
  by (auto simp: configure_master_def dest!: vpp_frame
      split: prod.splits option.splits if_splits)

lemma vpp_CreateMaster_more:
  assumes "vpp_CreateMaster V m w = (r, w')"
  shows "world.more w' = world.more w"
  using assms
  by (cases rule: vpp_CreateMaster_cases)
     (simp_all add: CreateMemifSocket_more CreateMemifInterface_more configure_master_more)

lemma vpp_DeleteMaster_more: "vpp_DeleteMaster V m w = (r, w') \<Longrightarrow> world.more w' = world.more w"
  by (auto simp: vpp_DeleteMaster_def on_fs_def dest!: DeleteMemifInterface_more
      split: prod.splits option.splits if_splits)

lemma daemon_more:
  fixes w w' :: "('v, 'k) daemon"
  assumes "world.more w' = world.more w"
  shows "kst w' = kst w" "orphanSeen w' = orphanSeen w" "rc_round w' = rc_round w"
  using assms by (cases w; cases w'; simp)+

lemmas daemon_calls = daemon_more [OF vpp_CreateMaster_more] daemon_more [OF vpp_DeleteMaster_more]

section \<open>A young orphan survives\<close>

text \<open>
  A socket that has been an orphan for fewer rounds than the gate asks for: nothing but the visits of
  the present round changes its record, and they never let it reach the threshold.
\<close>

definition young :: "int \<Rightarrow> string \<Rightarrow> int \<Rightarrow> (string \<rightharpoonup> orphanRound) \<Rightarrow> int \<Rightarrow> bool" where
  "young g q c seen r \<longleftrightarrow> 0 \<le> c \<and> (0 < g \<longrightarrow> c + 1 < g \<and>
     (\<forall>s. seen q = Some s \<longrightarrow> (or_lastRound s = r - 1 \<longrightarrow> or_count s \<le> c) \<and> (or_lastRound s = r \<longrightarrow> or_count s \<le> c + 1)))"

lemma young_refused:
  assumes "young g (Socket m) c (orphanSeen w) (rc_round w)" and "\<not> SocketGone m (fsys w)"
    and "shouldGC g m w = (b, w')"
  shows "\<not> b" and "young g (Socket m) c (orphanSeen w') (rc_round w')"
proof -
  have "\<not> b \<and> young g (Socket m) c (orphanSeen w') (rc_round w')"
  proof (cases "0 < g")
    case False
    then show ?thesis using assms by (auto simp: shouldGC_def young_def)
  next
    case True
    have c: "0 \<le> c" "c + 1 < g" using assms(1) True by (auto simp: young_def)
    have s: "streak (orphanSeen w) (rc_round w) (Socket m) \<le> c"
      using assms(1) True c by (cases "orphanSeen w (Socket m)") (auto simp: young_def streak_Some)
    then show ?thesis
      using c assms(3) shouldGC_present [OF assms(2) True] by (auto simp: young_def Let_def split: if_splits)
  qed
  then show "\<not> b" and "young g (Socket m) c (orphanSeen w') (rc_round w')" by simp_all
qed

lemma young_other:
  assumes "young g q c (orphanSeen w) (rc_round w)" and "q \<noteq> Socket m" and "shouldGC g m w = (b, w')"
  shows "young g q c (orphanSeen w') (rc_round w')"
  using assms shouldGC_frame(5,6) [OF assms(3)] by (simp add: young_def)

lemma present_not_gone: "fs_node f (Socket m) \<noteq> None \<Longrightarrow> \<not> SocketGone m f"
  by (auto simp: SocketGone_def os_Stat_def split: if_splits)

text \<open>The records never come from a later round, and never hold a full count.\<close>

definition rec_ok :: "int \<Rightarrow> int \<Rightarrow> orphanRound \<Rightarrow> bool" where
  "rec_ok g r s \<longleftrightarrow> 1 \<le> or_lastRound s \<and> or_lastRound s \<le> r \<and> 1 \<le> or_count s \<and> or_count s < g \<and>
     or_count s \<le> or_lastRound s"

definition seen_ok :: "int \<Rightarrow> ('v, 'k) daemon \<Rightarrow> bool" where
  "seen_ok g w \<longleftrightarrow> 0 \<le> rc_round w \<and> (\<forall>q s. orphanSeen w q = Some s \<longrightarrow> rec_ok g (rc_round w) s)"

lemma seen_okD: "seen_ok g w \<Longrightarrow> orphanSeen w q = Some s \<Longrightarrow> rec_ok g (rc_round w) s"
  by (simp add: seen_ok_def)

lemma seen_ok_forget: "seen_ok g w \<Longrightarrow> seen_ok g (w\<lparr>orphanSeen := (orphanSeen w)(q := None)\<rparr>)"
  by (auto simp: seen_ok_def split: if_splits)

lemma seen_ok_note:
  "seen_ok g w \<Longrightarrow> rec_ok g (rc_round w) s \<Longrightarrow> seen_ok g (w\<lparr>orphanSeen := (orphanSeen w)(q \<mapsto> s)\<rparr>)"
  by (auto simp: seen_ok_def split: if_splits)

lemma seen_ok_next: "seen_ok g w \<Longrightarrow> seen_ok g (w\<lparr>rc_round := rc_round w + 1\<rparr>)"
  by (fastforce simp: seen_ok_def rec_ok_def)

lemma seen_ok_streak:
  assumes "seen_ok g w"
  shows "0 \<le> streak (orphanSeen w) (rc_round w) q" and "streak (orphanSeen w) (rc_round w) q \<le> rc_round w - 1 \<or> rc_round w = 0"
  using assms by (cases "orphanSeen w q"; force simp: streak_Some seen_ok_def rec_ok_def)+

lemma shouldGC_seen_ok:
  assumes ok: "seen_ok g w" and r: "1 \<le> rc_round w" and run: "shouldGC g m w = (b, w')"
  shows "seen_ok g w'"
proof (cases "SocketGone m (fsys w) \<or> g \<le> 0")
  case True
  then have "w' = w \<or> w' = w\<lparr>orphanSeen := (orphanSeen w)(Socket m := None)\<rparr>"
    using run by (auto simp: shouldGC_def split: if_splits)
  then show ?thesis using ok seen_ok_forget by blast
next
  case False
  let ?n = "streak (orphanSeen w) (rc_round w) (Socket m) + 1"
  have n: "1 \<le> ?n" "?n \<le> rc_round w" using seen_ok_streak [OF ok, of "Socket m"] r by auto
  have "w' = w\<lparr>orphanSeen := (orphanSeen w)(Socket m := None)\<rparr> \<or> (?n < g \<and>
      w' = w\<lparr>orphanSeen := (orphanSeen w)(Socket m \<mapsto> \<lparr>or_count = ?n, or_lastRound = rc_round w\<rparr>)\<rparr>)"
    using run False shouldGC_present [of m w g] by (auto simp: Let_def split: if_splits)
  then show ?thesis
  proof
    assume "w' = w\<lparr>orphanSeen := (orphanSeen w)(Socket m := None)\<rparr>"
    then show ?thesis using seen_ok_forget [OF ok] by simp
  next
    assume "?n < g \<and> w' = w\<lparr>orphanSeen := (orphanSeen w)(Socket m \<mapsto> \<lparr>or_count = ?n, or_lastRound = rc_round w\<rparr>)\<rparr>"
    moreover from this have "rec_ok g (rc_round w) \<lparr>or_count = ?n, or_lastRound = rc_round w\<rparr>"
      using n r by (simp add: rec_ok_def)
    ultimately show ?thesis using seen_ok_note [OF ok] by metis
  qed
qed

section \<open>The runs of Sync\<close>

abbreviation empty_lookup :: "'k \<Rightarrow> 'k lookup" where
  "empty_lookup k \<equiv> \<lparr>nadCache = (\<lambda>_. None), nadErr = (\<lambda>_. None), lk_kst = k\<rparr>"

lemma Sync_cases:
  assumes "Sync L R dp w0 = (res, w')"
  obtains (pods) e k where "rc_Pods R (kst w0) = (Inl e, k)" "res = (0, 0, Some (EWrap ''list node pods'' e))"
      "w' = w0\<lparr>rc_round := rc_round w0 + 1, kst := k\<rparr>"
  | (reconcile) pods k desired s where "rc_Pods R (kst w0) = (Inr pods, k)"
      "sync_pods L (nadLookup (rc_NADs R)) pods [] (empty_lookup k) = (desired, s)"
      "Reconcile dp desired (Some (shouldGC (Grace R))) (w0\<lparr>rc_round := rc_round w0 + 1, kst := lk_kst s\<rparr>) = (res, w')"
  using assms by (auto simp: Sync_def Let_def split: prod.splits sum.splits)

context vpp_channel
begin

text \<open>What a reconcile through the gate keeps of the reconciler's own fields.\<close>

lemma Reconcile_books:
  fixes w :: "('v, 'k) daemon"
  assumes run: "Reconcile (vppDataplane V pre) desired (Some (shouldGC g)) w = (r, w')"
    and ok: "seen_ok g w" "1 \<le> rc_round w"
  shows "seen_ok g w' \<and> rc_round w' = rc_round w \<and> kst w' = kst w"
proof -
  let ?P = "\<lambda>t :: ('v, 'k) daemon. seen_ok g t \<and> rc_round t = rc_round w \<and> kst t = kst w"
  have gate: "?P t'" if "?P t" "shouldGC g m t = (b, t')" for m b and t t' :: "('v, 'k) daemon"
    using that ok(2) shouldGC_seen_ok [of g t m b t'] shouldGC_frame(4,5) [OF that(2)] by simp
  have more: "?P t'" if "?P t" "world.more t' = world.more t" for t t' :: "('v, 'k) daemon"
    using that(1) unfolding seen_ok_def daemon_more [OF that(2)] .
  show ?thesis
  proof (rule Reconcile_preserves [where P = ?P, OF _ _ _ _ _ run])
    fix m t e and t' :: "('v, 'k) daemon" assume P: "?P t" and "CreateMaster (vppDataplane V pre) m t = (e, t')"
    then have "vpp_CreateMaster V m t = (e, t')" by simp
    from more [OF P vpp_CreateMaster_more [OF this]] show "?P t'" .
  next
    fix m t0 t e and t' :: "('v, 'k) daemon"
    assume P: "?P t0" and g: "gate_call (Some (shouldGC g)) m t0 = (True, t)"
      and d: "DeleteMaster (vppDataplane V pre) m t = (e, t')"
    have "?P t" using gate [OF P] g by (simp add: gate_call_def)
    moreover have "vpp_DeleteMaster V m t = (e, t')" using d by simp
    ultimately show "?P t'" using more vpp_DeleteMaster_more by metis
  next
    fix m and t t' :: "('v, 'k) daemon" assume P: "?P t" and g: "gate_call (Some (shouldGC g)) m t = (False, t')"
    show "?P t'" using gate [OF P] g by (simp add: gate_call_def)
  next
    fix keep t r1 and t' :: "('v, 'k) daemon" assume P: "?P t" and "SweepOrphanSockets (vppDataplane V pre) keep t = (r1, t')"
    then have "world.more t' = world.more t" by (auto simp: vpp_SweepOrphanSockets_def dest!: on_fs_more split: prod.splits)
    then show "?P t'" by (rule more [OF P])
  qed (use ok in simp)
qed

text \<open>A master whose socket file exists survives a reconcile as long as its socket is a young orphan.\<close>

lemma orphan_survives:
  fixes w :: "('v, 'k) daemon"
  assumes run: "Reconcile (vppDataplane V pre) desired (Some (shouldGC g)) w = (r, w')"
    and inv: "vinv (vst w)" and man: "\<forall>m\<in>set desired. managed_socket pre (Socket m)"
    and clean: "\<forall>s \<in> snd ` vpp_view V pre (vst w). clean_path s"
    and x: "x \<in> vpp_view V pre (vst w)" and f: "fs_node (fsys w) (snd x) \<noteq> None"
    and y: "young g (snd x) c (orphanSeen w) (rc_round w)"
  shows "x \<in> vpp_view V pre (vst w') \<and> fs_node (fsys w') (snd x) \<noteq> None \<and> young g (snd x) c (orphanSeen w') (rc_round w')"
proof -
  let ?q = "snd x"
  let ?P = "\<lambda>t :: ('v, 'k) daemon. vinv (vst t) \<and> x \<in> vpp_view V pre (vst t) \<and>
    fs_node (fsys t) ?q \<noteq> None \<and> young g ?q c (orphanSeen t) (rc_round t)"
  have qc: "pathClean ?q = ?q" using clean x by (auto simp: clean_path_def)
  have gate: "?P t' \<and> (b \<longrightarrow> Socket m \<noteq> ?q)" if P: "?P t" and g: "shouldGC g m t = (b, t')"
    for m b and t t' :: "('v, 'k) daemon"
  proof (cases "Socket m = ?q")
    case True
    then show ?thesis
      using young_refused [OF _ present_not_gone g, of c] P shouldGC_frame(1,2) [OF g] by simp
  next
    case False
    then show ?thesis using young_other [OF _ _ g, of ?q c] P shouldGC_frame(1,2) [OF g] by simp
  qed
  have "?P w'"
  proof (rule Reconcile_preserves [where P = ?P, OF _ _ _ _ _ run])
    fix m t e and t' :: "('v, 'k) daemon" assume m: "m \<in> set desired" and P: "?P t"
      and "CreateMaster (vppDataplane V pre) m t = (e, t')"
    then have c: "vpp_CreateMaster V m t = (e, t')" by simp
    have "vpp_view V pre (vst t) \<subseteq> vpp_view V pre (vst t')"
      using masters.create_ok [of t pre m t'] masters.create_err [of t pre m _ t'] P m man c by (cases e) auto
    then show "?P t'" using P vpp_CreateMaster_fs [OF _ c, of ?q] daemon_calls(2,3) [OF c] by auto
  next
    fix actual m t0 t e and t' :: "('v, 'k) daemon"
    assume dump: "DumpMasters (vppDataplane V pre) w = Inr actual" "m \<in> set actual"
      and P0: "?P t0" and g: "gate_call (Some (shouldGC g)) m t0 = (True, t)"
      and "DeleteMaster (vppDataplane V pre) m t = (e, t')"
    then have d: "vpp_DeleteMaster V m t = (e, t')" by simp
    have P: "?P t" and ne: "Socket m \<noteq> ?q" using gate [OF P0] g by (simp_all add: gate_call_def)
    have mv: "(SwIfIndex m, Socket m) \<in> vpp_view V pre (vst w)"
      using vpp_DumpMasters_view [OF inv_wf [OF inv], of pre actual] dump by auto
    then have "clean_path (Socket m)" using clean by force
    then have "pathClean (Socket m) \<noteq> pathClean ?q" using qc ne by (simp add: clean_path_def)
    note f = vpp_DeleteMaster_fs [OF conjunct1 [OF P] d this]
    have idx: "fst x \<noteq> SwIfIndex m"
      using mv x ne vpp_view_index [OF inv_wf [OF inv]] by (metis prod.collapse)
    have "{x \<in> vpp_view V pre (vst t). fst x \<noteq> SwIfIndex m} \<subseteq> vpp_view V pre (vst t')"
      using vpp_DeleteMaster_ok [of t m t' pre] vpp_DeleteMaster_err [of t m _ t' pre] P d by (cases e) auto
    then show "?P t'" using P f idx daemon_calls(5,6) [OF d] by auto
  next
    fix m and t t' :: "('v, 'k) daemon" assume P: "?P t" and g: "gate_call (Some (shouldGC g)) m t = (False, t')"
    show "?P t'" using gate [OF P] g by (simp add: gate_call_def)
  next
    fix actual :: "Memif list" and t r1 and t' :: "('v, 'k) daemon"
    let ?keep = "remdups (map Socket desired @ map Socket actual)"
    assume dump: "DumpMasters (vppDataplane V pre) w = Inr actual" and P: "?P t"
      and "SweepOrphanSockets (vppDataplane V pre) ?keep t = (r1, t')"
    then have sw: "vpp_SweepOrphanSockets ?keep t = (r1, t')" by simp
    note fr = vpp_Sweep_frame [OF sw]
    have "world.more t' = world.more t"
      using sw by (auto simp: vpp_SweepOrphanSockets_def dest!: on_fs_more split: prod.splits)
    note mo = daemon_more [OF this]
    have "(\<lambda>m. (SwIfIndex m, Socket m)) ` set actual = vpp_view V pre (vst w)"
      using vpp_DumpMasters_view [OF inv_wf [OF inv], of pre actual] dump by simp
    then obtain a where "a \<in> set actual" "x = (SwIfIndex a, Socket a)" using x by (metis (no_types, lifting) imageE)
    then have "?q \<in> set ?keep" by simp
    moreover have "swept ?keep (clock t) (fsys t) (fsys t')"
      unfolding fr(3) by (rule sweep_swept) (rule prod.collapse [symmetric])
    ultimately have "fs_node (fsys t') ?q = fs_node (fsys t) ?q" using swept_keeps qc by blast
    then show "?P t'" using P fr(1) mo by simp
  qed (use inv x f y in simp)
  then show ?thesis by simp
qed

end

section \<open>Two lookups that agree\<close>

text \<open>
  The client side of the lookup: a pod's masters depend on the lookup through its answers only. The
  relation \<open>rel\<close> links the states of two lookups that give the same answers, at least for the
  namespaces that satisfy \<open>good\<close>.
\<close>

locale lookup_sim =
  fixes good :: "string \<Rightarrow> bool"
    and nad1 :: "string \<Rightarrow> string \<Rightarrow> 's \<Rightarrow> string result \<times> 's"
    and nad2 :: "string \<Rightarrow> string \<Rightarrow> 't \<Rightarrow> string result \<times> 't"
    and rel :: "'s \<Rightarrow> 't \<Rightarrow> bool"
  assumes sim: "good ns \<Longrightarrow> rel s t \<Longrightarrow> fst (nad1 ns n s) = fst (nad2 ns n t) \<and> rel (snd (nad1 ns n s)) (snd (nad2 ns n t))"
begin

lemma read_hosts_sim:
  "\<forall>r\<in>set nets. good (nr_Namespace r) \<Longrightarrow> rel s t \<Longrightarrow> fst (read_hosts L nad1 nets s) = fst (read_hosts L nad2 nets t) \<and>
     rel (snd (read_hosts L nad1 nets s)) (snd (read_hosts L nad2 nets t))"
proof (induction nets arbitrary: s t)
  case (Cons n nets)
  let ?a = "nad1 (nr_Namespace n) (nr_Name n) s" and ?b = "nad2 (nr_Namespace n) (nr_Name n) t"
  have r: "fst ?a = fst ?b" "rel (snd ?a) (snd ?b)" using sim [OF _ Cons.prems(2)] Cons.prems(1) by auto
  note IH = Cons.IH [OF _ r(2)]
  show ?case
  proof (cases "fst ?b")
    case (Inl e)
    then show ?thesis using r by (simp add: case_prod_unfold)
  next
    case (Inr cfg)
    show ?thesis
    proof (cases "Unmarshal_NetConf L cfg")
      case (Inl e)
      then show ?thesis using r Inr by (simp add: case_prod_unfold)
    next
      case (Inr nc)
      then show ?thesis
        using r IH Cons.prems(1) \<open>fst ?b = Inr cfg\<close>
        by (cases "fst (read_hosts L nad2 nets (snd ?b))") (simp_all add: case_prod_unfold)
    qed
  qed
qed simp

lemma desiredForPod_sim:
  assumes "\<forall>r\<in>set (parseNetworks (annotation pod netAnnotKey) (pod_Namespace pod)). good (nr_Namespace r)" and "rel s t"
  shows "fst (desiredForPod L nad1 pod s) = fst (desiredForPod L nad2 pod t) \<and>
    rel (snd (desiredForPod L nad1 pod s)) (snd (desiredForPod L nad2 pod t))"
proof -
  note h = read_hosts_sim [OF assms, of L]
  show ?thesis
    unfolding desiredForPod_def Let_def
    using assms h by (simp add: case_prod_unfold split: sum.split)
qed

lemma sync_pods_sim:
  "\<forall>pod\<in>set pods. \<forall>r\<in>set (parseNetworks (annotation pod netAnnotKey) (pod_Namespace pod)). good (nr_Namespace r) \<Longrightarrow>
   rel s t \<Longrightarrow> fst (sync_pods L nad1 pods d s) = fst (sync_pods L nad2 pods d t) \<and>
     rel (snd (sync_pods L nad1 pods d s)) (snd (sync_pods L nad2 pods d t))"
proof (induction pods arbitrary: d s t)
  case (Cons pod pods)
  let ?a = "desiredForPod L nad1 pod s" and ?b = "desiredForPod L nad2 pod t"
  have r: "fst ?a = fst ?b" "rel (snd ?a) (snd ?b)" using desiredForPod_sim [OF _ Cons.prems(2), of pod L] Cons.prems(1) by auto
  show ?case using r Cons.IH [OF _ r(2)] Cons.prems(1) by (cases "fst ?b") (simp_all add: case_prod_unfold)
qed simp

end

text \<open>
  The key of the cache is unambiguous for namespaces without a slash, as all namespaces of Kubernetes
  are.
\<close>

abbreviation plain_ns :: "string \<Rightarrow> bool" where
  "plain_ns ns \<equiv> slash \<notin> set ns"

definition plain_namespaces :: "Pod \<Rightarrow> bool" where
  "plain_namespaces pod \<longleftrightarrow> (\<forall>r\<in>set (parseNetworks (annotation pod netAnnotKey) (pod_Namespace pod)). plain_ns (nr_Namespace r))"

lemma nad_key_ns: "plain_ns ns \<Longrightarrow> takeWhile (\<lambda>c. c \<noteq> slash) (nad_key ns n) = ns"
  by (induction ns) (auto simp: nad_key_def)

lemma nad_key_inj: "plain_ns ns \<Longrightarrow> plain_ns ns' \<Longrightarrow> nad_key ns n = nad_key ns' n' \<longleftrightarrow> ns = ns' \<and> n = n'"
proof
  assume "plain_ns ns" "plain_ns ns'" and eq: "nad_key ns n = nad_key ns' n'"
  then have "ns = ns'" by (metis nad_key_ns)
  with eq show "ns = ns' \<and> n = n'" by (simp add: nad_key_def)
qed simp

text \<open>A request without a cache, to a cluster whose network definitions do not change during a \<open>Sync\<close>.\<close>

definition direct_get :: "(string \<Rightarrow> string \<Rightarrow> string result) \<Rightarrow> string \<Rightarrow> string \<Rightarrow> unit \<Rightarrow> string result \<times> unit" where
  "direct_get f ns n u = (f ns n, u)"

text \<open>The cache holds answers only.\<close>

definition answers :: "(string \<Rightarrow> bool) \<Rightarrow> (string \<Rightarrow> string \<Rightarrow> string result) \<Rightarrow> 'k lookup \<Rightarrow> bool" where
  "answers good f s \<longleftrightarrow> (\<forall>ns n. good ns \<longrightarrow>
     (\<forall>e. nadErr s (nad_key ns n) = Some e \<longrightarrow> f ns n = Inl e) \<and> (\<forall>c. nadCache s (nad_key ns n) = Some c \<longrightarrow> f ns n = Inr c))"

lemma nadLookup_answers:
  assumes key: "\<And>ns n ns' n'. good ns \<Longrightarrow> good ns' \<Longrightarrow> nad_key ns n = nad_key ns' n' \<Longrightarrow> f ns n = f ns' n'"
    and get: "\<And>ns n k. good ns \<Longrightarrow> fst (get ns n k) = f ns n" and "good ns" and ok: "answers good f s"
  shows "fst (nadLookup get ns n s) = f ns n \<and> answers good f (snd (nadLookup get ns n s))"
proof -
  obtain r k where g: "get ns n (lk_kst s) = (r, k)" by fastforce
  then have r: "f ns n = r" using get [OF \<open>good ns\<close>, of n "lk_kst s"] by simp
  have same: "good ns' \<Longrightarrow> nad_key ns' n' = nad_key ns n \<Longrightarrow> f ns' n' = r" for ns' n'
    using key [of ns' ns n' n] \<open>good ns\<close> r by simp
  show ?thesis
    using ok g r same \<open>good ns\<close>
    by (cases r; cases "nadErr s (nad_key ns n)"; cases "nadCache s (nad_key ns n)")
       (auto simp: nadLookup_def answers_def)
qed

lemma nadLookup_agrees:
  assumes "\<And>ns n ns' n'. good ns \<Longrightarrow> good ns' \<Longrightarrow> nad_key ns n = nad_key ns' n' \<Longrightarrow> f ns n = f ns' n'"
    and "\<And>ns n k. good ns \<Longrightarrow> fst (get ns n k) = f ns n"
  shows "lookup_sim good (nadLookup get) (direct_get f) (\<lambda>s u. answers good f s)"
  by unfold_locales (use nadLookup_answers [OF assms] in \<open>simp add: direct_get_def\<close>)

text \<open>A getter that writes down what it is asked for.\<close>

definition log_get ::
  "(string \<Rightarrow> string \<Rightarrow> string result) \<Rightarrow> string \<Rightarrow> string \<Rightarrow> (string \<times> string) list \<Rightarrow> string result \<times> (string \<times> string) list" where
  "log_get f ns n log = (f ns n, log @ [(ns, n)])"

text \<open>The cache holds answers only, and exactly those that were asked for, once each.\<close>

definition cache_ok :: "(string \<Rightarrow> string \<Rightarrow> string result) \<Rightarrow> ((string \<times> string) list) lookup \<Rightarrow> bool" where
  "cache_ok f s \<longleftrightarrow> answers plain_ns f s \<and> distinct (lk_kst s) \<and>
     (\<forall>ns n. plain_ns ns \<longrightarrow> ((ns, n) \<in> set (lk_kst s) \<longleftrightarrow> nadErr s (nad_key ns n) \<noteq> None \<or> nadCache s (nad_key ns n) \<noteq> None))"

lemma nadLookup_cache:
  assumes ok: "cache_ok f s" and ns: "plain_ns ns"
  shows "fst (nadLookup (log_get f) ns n s) = f ns n \<and> cache_ok f (snd (nadLookup (log_get f) ns n s)) \<and>
    set (lk_kst (snd (nadLookup (log_get f) ns n s))) = insert (ns, n) (set (lk_kst s))"
proof -
  let ?s = "snd (nadLookup (log_get f) ns n s)"
  have a: "fst (nadLookup (log_get f) ns n s) = f ns n \<and> answers plain_ns f ?s"
    by (rule nadLookup_answers [where good = plain_ns]) (use ns ok in \<open>auto simp: log_get_def cache_ok_def nad_key_inj\<close>)
  show ?thesis
  proof (cases "nadErr s (nad_key ns n) = None \<and> nadCache s (nad_key ns n) = None")
    case False
    then have "?s = s" by (auto simp: nadLookup_def split: option.splits)
    moreover have "(ns, n) \<in> set (lk_kst s)" using False ok ns by (auto simp: cache_ok_def)
    ultimately show ?thesis using a ok by auto
  next
    case True
    then have new: "(ns, n) \<notin> set (lk_kst s)" using ok ns by (auto simp: cache_ok_def)
    then show ?thesis
      using True ok a ns by (cases "f ns n") (auto simp: nadLookup_def log_get_def cache_ok_def nad_key_inj)
  qed
qed

interpretation cached: lookup_sim plain_ns "nadLookup (log_get f)" "log_get f" "\<lambda>s t. cache_ok f s \<and> set (lk_kst s) = set t" for f
  by unfold_locales (use nadLookup_cache in \<open>auto simp: log_get_def\<close>)

section \<open>The desired masters of a node\<close>

text \<open>What a \<open>Sync\<close> in this state asks for; nothing when the pods cannot be listed.\<close>

definition desired_masters :: "cni_lib \<Rightarrow> 'k Reconciler \<Rightarrow> 'k \<Rightarrow> Memif list" where
  "desired_masters L R k0 =
     (case rc_Pods R k0 of
        (Inl _, k) \<Rightarrow> []
      | (Inr pods, k) \<Rightarrow> fst (sync_pods L (nadLookup (rc_NADs R)) pods [] (empty_lookup k)))"

lemma desired_masters_run:
  assumes "rc_Pods R k0 = (Inr pods, k)" and "sync_pods L (nadLookup (rc_NADs R)) pods [] (empty_lookup k) = (desired, s)"
  shows "desired_masters L R k0 = desired"
  using assms by (simp add: desired_masters_def)

lemma desired_masters_direct:
  assumes "rc_Pods R k0 = (Inr pods, k)"
    and "\<And>ns n ns' n'. good ns \<Longrightarrow> good ns' \<Longrightarrow> nad_key ns n = nad_key ns' n' \<Longrightarrow> f ns n = f ns' n'"
    and "\<And>ns n k. good ns \<Longrightarrow> fst (rc_NADs R ns n k) = f ns n"
    and "\<forall>pod\<in>set pods. \<forall>r\<in>set (parseNetworks (annotation pod netAnnotKey) (pod_Namespace pod)). good (nr_Namespace r)"
  shows "desired_masters L R k0 = fst (sync_pods L (direct_get f) pods [] ())"
proof -
  have sim: "lookup_sim good (nadLookup (rc_NADs R)) (direct_get f) (\<lambda>s u. answers good f s)"
    by (rule nadLookup_agrees [OF assms(2,3)])
  have "answers good f (empty_lookup k)" by (simp add: answers_def)
  then have "fst (sync_pods L (nadLookup (rc_NADs R)) pods [] (empty_lookup k)) = fst (sync_pods L (direct_get f) pods [] ())"
    using lookup_sim.sync_pods_sim [OF sim assms(4), where s = "empty_lookup k" and t = "()" and L = L and d = "[]"] by blast
  then show ?thesis using assms(1) by (simp add: desired_masters_def)
qed

text \<open>Without a cache, the loop collects the masters of every pod that can be evaluated, and no others.\<close>

lemma sync_pods_set:
  fixes s :: unit
  shows "m \<in> set (fst (sync_pods L nad pods out s)) \<longleftrightarrow>
    m \<in> set out \<or> (\<exists>q\<in>set pods. \<exists>ms. fst (desiredForPod L nad q s) = Inr ms \<and> m \<in> set ms)"
proof (induction pods arbitrary: out)
  case (Cons pod pods)
  obtain r where "desiredForPod L nad pod s = (r, s)" by (metis (full_types) old.unit.exhaust prod.collapse)
  then show ?case using Cons.IH by (cases r) auto
qed simp

section \<open>Properties\<close>

text \<open>
  C24: The cache of a \<open>Sync\<close> changes nothing but the number of requests. Over a cluster whose answers
  depend on namespace and name only, and for pods whose networks are in namespaces without a slash,
  the desired masters collected through the cache are the ones collected with a request per network;
  the networks requested through the cache are those requested without it, each of them, readable or
  not, once.
\<close>

theorem nad_cache_transparent:
  assumes "\<forall>pod\<in>set pods. plain_namespaces pod"
  shows "fst (sync_pods L (nadLookup (log_get f)) pods [] (empty_lookup [])) = fst (sync_pods L (log_get f) pods [] []) \<and>
    set (lk_kst (snd (sync_pods L (nadLookup (log_get f)) pods [] (empty_lookup [])))) = set (snd (sync_pods L (log_get f) pods [] [])) \<and>
    distinct (lk_kst (snd (sync_pods L (nadLookup (log_get f)) pods [] (empty_lookup []))))"
proof -
  have "cache_ok f (empty_lookup [])" by (simp add: cache_ok_def answers_def)
  with cached.sync_pods_sim [of pods f "empty_lookup []" "[]" L "[]"] assms show ?thesis
    unfolding cache_ok_def plain_namespaces_def by simp
qed

text \<open>Two pods that name their networks alike in two namespaces, of which one has no such network, and the first pod again.\<close>

definition two_namespaces :: "string \<Rightarrow> string \<Rightarrow> string result" where
  "two_namespaces ns n = (if ns = ''default'' then Inr sample_nad else Inl (EKube ''not found''))"

lemma sample_plain_namespaces: "plain_namespaces sample_vpp_pod" "plain_namespaces prod_pod"
  using sample_pod_reads(1) [of sample_vpp_pod "''default''"] sample_pod_reads(1) [of prod_pod "''prod''"]
  by (simp_all add: plain_namespaces_def)

theorem nad_cache_transparent_witness:
  "let r = sync_pods sample_lib (nadLookup (log_get two_namespaces)) [sample_vpp_pod, prod_pod, sample_vpp_pod] [] (empty_lookup [])
   in fst r = [sample_desired, sample_desired] \<and> distinct (lk_kst (snd r)) \<and>
      set (lk_kst (snd r)) = {(''default'', ''vpp-net''), (''prod'', ''vpp-net'')}"
proof -
  let ?pods = "[sample_vpp_pod, prod_pod, sample_vpp_pod]"
  have v: "desiredForPod sample_lib (log_get two_namespaces) sample_vpp_pod s = (Inr [sample_desired], s @ [(''default'', ''vpp-net'')])" for s
    by (rule sample_desiredForPod) (simp add: log_get_def two_namespaces_def)
  have "\<exists>e. desiredForPod sample_lib (log_get two_namespaces) prod_pod s = (Inl e, s @ [(''prod'', ''vpp-net'')])" for s
    by (rule prod_desiredForPod) (simp add: log_get_def two_namespaces_def)
  then obtain e where p: "\<And>s. desiredForPod sample_lib (log_get two_namespaces) prod_pod s = (Inl (e s), s @ [(''prod'', ''vpp-net'')])"
    by metis
  have "sync_pods sample_lib (log_get two_namespaces) ?pods [] [] =
      ([sample_desired, sample_desired], [(''default'', ''vpp-net''), (''prod'', ''vpp-net''), (''default'', ''vpp-net'')])"
    by (simp add: v p)
  with nad_cache_transparent [of ?pods sample_lib two_namespaces] sample_plain_namespaces show ?thesis
    by (simp add: Let_def insert_commute del: sync_pods.simps)
qed

text \<open>
  C21: The gate keeps its promise exactly. The master of an orphan whose socket file exists is admitted
  for deletion in the \<open>Grace\<close>-th consecutive round after its first one, not before, and then, if it
  stays, every \<open>Grace\<close> rounds.
\<close>

theorem gc_after_grace:
  assumes "\<not> SocketGone m (fsys w)" and "0 < g" and "orphanSeen w (Socket m) = None"
  shows "gc_rounds g [m] n w = map (\<lambda>i. [int (Suc i) mod g = 0]) [0..<n]"
  using gc_rounds_streak [OF assms(1,2), of n] assms(2,3) by simp

definition sample_daemon :: "int \<Rightarrow> (sample, unit) daemon" where
  "sample_daemon r = \<lparr>vst = vst sample_files, fsys = fsys sample_files, clock = clock sample_files, kst = (),
     orphanSeen = (\<lambda>_. None), rc_round = r\<rparr>"

lemma sample_daemon_present: "\<not> SocketGone (sample_master sample_sock) (fsys (sample_daemon r))"
proof -
  have "fs_node (fsys sample_files) sample_sock \<noteq> None" by code_simp
  then show ?thesis using present_not_gone by (simp add: sample_daemon_def sample_master_def)
qed

theorem gc_after_grace_witness:
  "gc_rounds 3 [sample_master sample_sock] 4 (sample_daemon 0) = [[False], [False], [True], [False]]"
  using gc_after_grace [OF sample_daemon_present [of 0], of 3 4] by (simp add: sample_daemon_def upt_rec)

text \<open>
  C22: Two orphan masters on the same socket, whose file exists, are never admitted when \<open>Grace\<close> is
  three or more: both share one record, the visit of the second one finds it already updated in this
  round and takes that for a gap, so the count never passes two.
\<close>

theorem shared_socket_never_collected:
  assumes "\<not> SocketGone m1 (fsys w)" and "Socket m1 = Socket m2" and "3 \<le> g" and "orphanSeen w (Socket m1) = None"
  shows "gc_rounds g [m1, m2] n w = replicate n [False, False]"
  using gc_rounds_shared [OF assms(1-3)] assms(4) by simp

theorem shared_socket_never_collected_witness:
  "gc_rounds 3 [sample_master sample_sock, (sample_master sample_sock)\<lparr>SwIfIndex := 9\<rparr>] 100 (sample_daemon 0) =
     replicate 100 [False, False]"
  by (rule shared_socket_never_collected [OF sample_daemon_present]) (simp_all add: sample_master_def sample_daemon_def)

text \<open>
  A round of the daemon restores the masters of every pod it could evaluate: when \<open>Sync\<close> returns
  without an error, every socket that the pods of the node ask for is the socket of a master of VPP.
\<close>

theorem Sync_restores:
  fixes w :: "('v, 'k) daemon"
  assumes "vpp_channel V vinv" and "vinv (vst w)"
    and "\<forall>m\<in>set (desired_masters L R (kst w)). managed_socket pre (Socket m)"
    and "Sync L R (vppDataplane V pre) w = ((c, d, None), w')"
  shows "Socket ` set (desired_masters L R (kst w)) \<subseteq> snd ` vpp_view V pre (vst w')"
  using assms(4)
proof (cases rule: Sync_cases)
  case (reconcile pods k desired s)
  have dm: "desired_masters L R (kst w) = desired" using desired_masters_run [OF reconcile(1,2)] .
  have "dataplane.gate_frame (\<lambda>w. vinv (vst w)) (\<lambda>w. vpp_view V pre (vst w)) (Some (shouldGC (Grace R)))"
    by (rule vpp_channel.gate_frame_reads_only [OF assms(1) shouldGC_reads_only])
  from dataplane.Reconcile_restores [OF vpp_channel.vpp_dataplane [OF assms(1)] _ _ this reconcile(3)]
  show ?thesis unfolding dm using assms(2,3) dm by simp
qed simp

text \<open>
  In terms of the pods: every pod that can be evaluated gets its masters, whether or not others can.
\<close>

lemma Sync_restores_pod:
  fixes w :: "('v, 'k) daemon"
  assumes "vpp_channel V vinv" and "vinv (vst w)" and "rc_Pods R (kst w) = (Inr pods, k)"
    and get: "\<forall>ns n k. fst (rc_NADs R ns n k) = f ns n" and plain: "\<forall>q\<in>set pods. plain_namespaces q"
    and man: "\<forall>q\<in>set pods. \<forall>ms. fst (desiredForPod L (direct_get f) q ()) = Inr ms \<longrightarrow> (\<forall>m\<in>set ms. managed_socket pre (Socket m))"
    and run: "Sync L R (vppDataplane V pre) w = ((c, d, None), w')"
    and q: "q \<in> set pods" "fst (desiredForPod L (direct_get f) q ()) = Inr ms"
  shows "Socket ` set ms \<subseteq> snd ` vpp_view V pre (vst w')"
proof -
  have "desired_masters L R (kst w) = fst (sync_pods L (direct_get f) pods [] ())"
    by (rule desired_masters_direct [where good = plain_ns, OF assms(3)])
       (use get plain in \<open>auto simp: nad_key_inj plain_namespaces_def\<close>)
  then have mem: "m \<in> set (desired_masters L R (kst w)) \<longleftrightarrow>
      (\<exists>q\<in>set pods. \<exists>ms. fst (desiredForPod L (direct_get f) q ()) = Inr ms \<and> m \<in> set ms)" for m
    by (simp add: sync_pods_set)
  then have "\<forall>m\<in>set (desired_masters L R (kst w)). managed_socket pre (Socket m)" using man by blast
  from Sync_restores [OF assms(1,2) this run] mem q show ?thesis by blast
qed

definition sample_Reconciler :: "int \<Rightarrow> Pod list \<Rightarrow> unit Reconciler" where
  "sample_Reconciler g pods = \<lparr>rc_Pods = (\<lambda>k. (Inr pods, k)), rc_NADs = (\<lambda>ns n k. (Inr sample_nad, k)), Grace = g\<rparr>"

lemma sample_desired_masters: "desired_masters sample_lib (sample_Reconciler g [sample_vpp_pod]) () = [sample_desired]"
proof -
  let ?s = "empty_lookup ()"
  have "desiredForPod sample_lib (nadLookup (\<lambda>ns n k. (Inr sample_nad, k))) sample_vpp_pod ?s =
      (Inr [sample_desired], snd (nadLookup (\<lambda>ns n k. (Inr sample_nad, k)) ''default'' ''vpp-net'' ?s))"
    by (rule sample_desiredForPod) (simp add: nadLookup_def)
  then show ?thesis by (simp add: desired_masters_def sample_Reconciler_def)
qed

lemma sample_daemon_inv: "sample_ok (vst (sample_daemon r))"
  using sample_ok_two by (simp add: sample_daemon_def)

lemma sample_Sync:
  "Sync sample_lib (sample_Reconciler g [sample_vpp_pod]) dp w =
     Reconcile dp [sample_desired] (Some (shouldGC g)) (w\<lparr>rc_round := rc_round w + 1, kst := ()\<rparr>)"
proof -
  have "fst (sync_pods sample_lib (nadLookup (rc_NADs (sample_Reconciler g [sample_vpp_pod]))) [sample_vpp_pod] []
      (empty_lookup ())) = [sample_desired]"
    using sample_desired_masters [of g] by (simp add: desired_masters_def sample_Reconciler_def)
  then show ?thesis by (simp add: Sync_def sample_Reconciler_def Let_def case_prod_unfold del: sync_pods.simps)
qed

theorem Sync_restores_witness:
  "let w' = snd (Sync sample_lib (sample_Reconciler 0 [sample_vpp_pod]) (vppDataplane sample_vpp [''/run/vpp'']) (sample_daemon 0))
   in Socket sample_desired \<in> snd ` vpp_view sample_vpp [''/run/vpp''] (vst w')"
proof -
  let ?r = "Sync sample_lib (sample_Reconciler 0 [sample_vpp_pod]) (vppDataplane sample_vpp [''/run/vpp'']) (sample_daemon 0)"
  have "fst (Reconcile (vppDataplane sample_vpp [''/run/vpp'']) [sample_desired] (Some (shouldGC 0))
     ((sample_daemon 0)\<lparr>rc_round := rc_round (sample_daemon 0) + 1, kst := ()\<rparr>)) = (0, 0, None)" by code_simp
  then have run: "?r = ((0, 0, None), snd ?r)" unfolding sample_Sync by (metis prod.collapse)
  have "managed_socket [''/run/vpp''] (Socket sample_desired)" by code_simp
  then show ?thesis
    using Sync_restores [OF sample.vpp_channel_axioms sample_daemon_inv _ run] sample_desired_masters [of 0]
    by (simp add: Let_def)
qed

text \<open>
  C17: \<open>Sync\<close> never deletes the master of a live or starting pod too early. A managed master whose
  socket file exists survives a round, with its file, unless \<open>Grace\<close> is positive and the socket has
  now been an orphan for \<open>Grace\<close> consecutive rounds; a round makes its streak longer by one at most.
  With \<open>Grace\<close> zero it survives every round, whether or not its pod could be evaluated.
\<close>

theorem Sync_spares_young_orphans:
  fixes w :: "('v, 'k) daemon"
  assumes "vpp_channel V vinv" and "vinv (vst w)" and "seen_ok (Grace R) w"
    and "\<forall>m\<in>set (desired_masters L R (kst w)). managed_socket pre (Socket m)"
    and "\<forall>s \<in> snd ` vpp_view V pre (vst w). clean_path s"
    and "x \<in> vpp_view V pre (vst w)" and "fs_node (fsys w) (snd x) \<noteq> None"
    and "Grace R \<le> 0 \<or> streak (orphanSeen w) (rc_round w + 1) (snd x) + 1 < Grace R"
    and "Sync L R (vppDataplane V pre) w = (res, w')"
  shows "x \<in> vpp_view V pre (vst w') \<and> fs_node (fsys w') (snd x) \<noteq> None \<and>
    streak (orphanSeen w') (rc_round w' + 1) (snd x) \<le> streak (orphanSeen w) (rc_round w + 1) (snd x) + 1"
proof -
  let ?w = "w\<lparr>rc_round := rc_round w + 1\<rparr>" and ?c = "streak (orphanSeen w) (rc_round w + 1) (snd x)"
  have ok: "seen_ok (Grace R) ?w" using seen_ok_next [OF assms(3)] .
  have c: "0 \<le> ?c" using seen_ok_streak(1) [OF ok, of "snd x"] by simp
  have last: "orphanSeen w q = Some s \<Longrightarrow> or_lastRound s \<noteq> rc_round w + 1" for q s
    using seen_okD [OF assms(3)] by (fastforce simp: rec_ok_def)
  have y: "young (Grace R) (snd x) ?c (orphanSeen w) (rc_round w + 1)"
    using c assms(8) last by (auto simp: young_def streak_Some)
  show ?thesis
    using assms(9)
  proof (cases rule: Sync_cases)
    case (pods e k)
    have "streak (orphanSeen w') (rc_round w' + 1) (snd x) = 0"
      using seen_okD [OF assms(3), of "snd x"] pods(3)
      by (cases "orphanSeen w (snd x)") (auto simp: streak_Some rec_ok_def)
    then show ?thesis using pods(3) assms(6,7) c by simp
  next
    case (reconcile ps k desired s)
    have dm: "desired_masters L R (kst w) = desired" using desired_masters_run [OF reconcile(1,2)] .
    let ?w1 = "w\<lparr>rc_round := rc_round w + 1, kst := lk_kst s\<rparr>"
    have "seen_ok (Grace R) ?w1" "1 \<le> rc_round ?w1" using ok assms(3) by (simp_all add: seen_ok_def)
    note b = vpp_channel.Reconcile_books [OF assms(1) reconcile(3) this]
    note sv = vpp_channel.orphan_survives [OF assms(1) reconcile(3), of x ?c]
    have sv: "x \<in> vpp_view V pre (vst w') \<and> fs_node (fsys w') (snd x) \<noteq> None \<and>
        young (Grace R) (snd x) ?c (orphanSeen w') (rc_round w')"
      by (rule sv) (use assms(2,4-7) y dm in simp_all)
    have "streak (orphanSeen w') (rc_round w' + 1) (snd x) \<le> ?c + 1"
    proof (cases "orphanSeen w' (snd x)")
      case None
      then show ?thesis using c by simp
    next
      case (Some a)
      with b have "0 < Grace R" using seen_okD [of "Grace R" w'] by (force simp: rec_ok_def)
      then show ?thesis using sv Some c by (auto simp: young_def streak_Some)
    qed
    then show ?thesis using sv by simp
  qed
qed

lemma sample_seen_ok: "0 \<le> r \<Longrightarrow> seen_ok g (sample_daemon r)"
  by (simp add: seen_ok_def sample_daemon_def)

lemma sample_view_sock:
  "(1, sample_sock) \<in> vpp_view sample_vpp [''/run/vpp''] (vst sample_two)"
proof -
  let ?d = "hd (sp_memifs (vst sample_two))" and ?s = "sp_socks (vst sample_two) ! 1"
  have "sp_memifs (vst sample_two) \<noteq> []" "1 < length (sp_socks (vst sample_two))" by code_simp+
  then have "?d \<in> set (sp_memifs (vst sample_two))" "?s \<in> set (sp_socks (vst sample_two))" by simp_all
  moreover have "det_SocketID ?d = sd_SocketID ?s" "det_Role ?d = RoleMaster"
    "managed_socket [''/run/vpp''] (sd_SocketFilename ?s)" "det_SwIfIndex ?d = 1" "sd_SocketFilename ?s = sample_sock"
    by code_simp+
  ultimately show ?thesis using vpp_viewI [of ?d sample_vpp "vst sample_two" ?s "[''/run/vpp'']"] by simp
qed

theorem Sync_spares_young_orphans_witness:
  "let w' = snd (Sync sample_lib (sample_Reconciler 3 []) (vppDataplane sample_vpp [''/run/vpp'']) (sample_daemon 4))
   in (1, sample_sock) \<in> vpp_view sample_vpp [''/run/vpp''] (vst w')"
proof -
  let ?R = "sample_Reconciler 3 []"
  have "\<forall>s\<in>set (sp_socks (vst sample_two)). clean_path (sd_SocketFilename s)" by code_simp
  then have clean: "\<forall>s \<in> snd ` vpp_view sample_vpp [''/run/vpp''] (vst (sample_daemon 4)). clean_path s"
    using sample_two_view [of "[''/run/vpp'']"] by (auto simp: sample_daemon_def)
  have there: "fs_node (fsys (sample_daemon 4)) (snd (1::u32, sample_sock)) \<noteq> None" by code_simp
  have none: "desired_masters sample_lib ?R (kst (sample_daemon 4)) = []"
    by (simp add: desired_masters_def sample_Reconciler_def)
  show ?thesis
    using Sync_spares_young_orphans [OF sample.vpp_channel_axioms sample_daemon_inv sample_seen_ok _ clean _ there _
        prod.collapse [symmetric], where R = ?R and L = sample_lib] none sample_view_sock
    by (simp add: Let_def sample_daemon_def sample_Reconciler_def)
qed

text \<open>
  C23: The books of the gate stay consistent. A round keeps every record of an orphan below the
  threshold, dated with a round of the past and counting no more visits than there were rounds; and
  it advances the round by one, also when it fails.
\<close>

theorem Sync_keeps_books:
  fixes w :: "('v, 'k) daemon"
  assumes "vpp_channel V vinv" and "seen_ok (Grace R) w" and "Sync L R (vppDataplane V pre) w = (res, w')"
  shows "seen_ok (Grace R) w' \<and> rc_round w' = rc_round w + 1"
  using assms(3)
proof (cases rule: Sync_cases)
  case (pods e k)
  then show ?thesis using seen_ok_next [OF assms(2)] by (simp add: seen_ok_def)
next
  case (reconcile ps k desired s)
  let ?w1 = "w\<lparr>rc_round := rc_round w + 1, kst := lk_kst s\<rparr>"
  have "seen_ok (Grace R) ?w1" "1 \<le> rc_round ?w1"
    using seen_ok_next [OF assms(2)] assms(2) by (simp_all add: seen_ok_def)
  from vpp_channel.Reconcile_books [OF assms(1) reconcile(3) this] show ?thesis by simp
qed

theorem Sync_keeps_books_witness:
  "let w' = snd (Sync sample_lib (sample_Reconciler 3 []) (vppDataplane sample_vpp [''/run/vpp'']) (sample_daemon 4))
   in seen_ok 3 w' \<and> rc_round w' = 5"
proof -
  have "seen_ok (Grace (sample_Reconciler 3 [])) (sample_daemon 4)" by (rule sample_seen_ok) simp
  from Sync_keeps_books [OF sample.vpp_channel_axioms this prod.collapse [symmetric]]
  show ?thesis by (simp add: Let_def sample_Reconciler_def sample_daemon_def)
qed

text \<open>
  When the pods cannot be listed, a round does nothing: no master is created or deleted, VPP and the
  file system are as before, and the error is reported with its context. It still counts as a round:
  every streak of the gate starts again in the next one.
\<close>

theorem Sync_list_error:
  assumes "rc_Pods R (kst w) = (Inl e, k)" and "seen_ok (Grace R) w"
    and "Sync L R dp w = (res, w')"
  shows "res = (0, 0, Some (EWrap ''list node pods'' e)) \<and> vst w' = vst w \<and> fsys w' = fsys w \<and>
    streak (orphanSeen w') (rc_round w' + 1) q = 0"
  using assms(3)
proof (cases rule: Sync_cases)
  case (pods e' k')
  have "streak (orphanSeen w) (2 + rc_round w) q = 0"
    using seen_okD [OF assms(2), of q] by (cases "orphanSeen w q") (auto simp: streak_Some rec_ok_def)
  then show ?thesis using pods assms(1) by simp
qed (use assms(1) in simp)

theorem Sync_list_error_witness:
  "let R = \<lparr>rc_Pods = (\<lambda>k. (Inl (EKube ''timeout''), k)), rc_NADs = (\<lambda>ns n k. (Inr sample_nad, k)), Grace = 3\<rparr>
   in fst (Sync sample_lib R (vppDataplane sample_vpp []) (sample_daemon 4)) =
        (0, 0, Some (EWrap ''list node pods'' (EKube ''timeout'')))"
  using Sync_list_error [of "\<lparr>rc_Pods = (\<lambda>k. (Inl (EKube ''timeout''), k)), rc_NADs = (\<lambda>ns n k. (Inr sample_nad, k)), Grace = 3\<rparr>"
      "sample_daemon 4" "EKube ''timeout''", OF _ _ prod.collapse [symmetric]] sample_seen_ok [of 4 3]
  by (simp add: Let_def)

end
