(* ===== verification/Status.thy ===== *)
theory Status
  imports Daemon
begin

text \<open>
  The observability state of the restore daemon, \<open>pkg/daemon/status.go\<close>: connection flag, counters,
  result of the last reconcile, and the HTTP endpoints that show them. The counters are 64-bit words
  and wrap, as \<open>atomic.Int64\<close> does; they are printed as signed numbers.
\<close>

record Status =
  st_connected :: bool
  reconcileTotal :: "64 word"
  reconcileErrors :: "64 word"
  memifsCreated :: "64 word"
  memifsDeleted :: "64 word"
  lastReconcileOK :: bool
  sawReconcile :: bool

definition zero_Status :: Status where
  "zero_Status = \<lparr>st_connected = False, reconcileTotal = 0, reconcileErrors = 0, memifsCreated = 0,
     memifsDeleted = 0, lastReconcileOK = False, sawReconcile = False\<rparr>"

definition SetConnected :: "bool \<Rightarrow> Status \<Rightarrow> Status" where
  "SetConnected v s = s\<lparr>st_connected := v\<rparr>"

definition RecordReconcile :: "nat \<Rightarrow> nat \<Rightarrow> go_error option \<Rightarrow> Status \<Rightarrow> Status" where
  "RecordReconcile created deleted err s =
     s\<lparr>reconcileTotal := reconcileTotal s + 1,
       reconcileErrors := (if err \<noteq> None then reconcileErrors s + 1 else reconcileErrors s),
       memifsCreated := memifsCreated s + of_nat created,
       memifsDeleted := memifsDeleted s + of_nat deleted,
       lastReconcileOK := (err = None),
       sawReconcile := True\<rparr>"

definition ready :: "Status \<Rightarrow> bool" where
  "ready s = (if \<not> st_connected s then False else \<not> sawReconcile s \<or> lastReconcileOK s)"

section \<open>The endpoints\<close>

definition nl :: string where
  "nl = [CHR 0x0A]"

text \<open>One metric: its help line, its type line, and its value.\<close>

definition metric :: "string \<Rightarrow> string \<Rightarrow> string \<Rightarrow> string \<Rightarrow> string" where
  "metric name help kind v =
     ''# HELP '' @ name @ '' '' @ help @ nl @ ''# TYPE '' @ name @ '' '' @ kind @ nl @ name @ '' '' @ v @ nl"

definition metrics :: "Status \<Rightarrow> string" where
  "metrics s =
     metric ''userspace_cni_restore_vpp_connected'' ''VPP API connection state (1=connected).'' ''gauge''
       (if st_connected s then ''1'' else ''0'') @
     metric ''userspace_cni_restore_reconcile_total'' ''Reconciles run.'' ''counter'' (show_int (sint (reconcileTotal s))) @
     metric ''userspace_cni_restore_reconcile_errors_total'' ''Reconciles that returned an error.'' ''counter''
       (show_int (sint (reconcileErrors s))) @
     metric ''userspace_cni_restore_memifs_created_total'' ''memif masters (re)created.'' ''counter''
       (show_int (sint (memifsCreated s))) @
     metric ''userspace_cni_restore_memifs_deleted_total'' ''orphan memif masters GC'd.'' ''counter''
       (show_int (sint (memifsDeleted s)))"

text \<open>Status code and body; a path without a handler gives the reply of \<open>http.NotFound\<close>.\<close>

definition Handler :: "Status \<Rightarrow> string \<Rightarrow> nat \<times> string" where
  "Handler s path =
     (if path = ''/healthz'' then (200, ''ok'' @ nl)
      else if path = ''/readyz'' then
        (if ready s then (200, ''ready'' @ nl)
         else (503, ''not ready: VPP disconnected or last reconcile failed'' @ nl))
      else if path = ''/metrics'' then (200, metrics s)
      else (404, ''404 page not found'' @ nl))"

section \<open>Properties\<close>

text \<open>The results of a sequence of reconciles, recorded one after the other.\<close>

definition record_all :: "(nat \<times> nat \<times> go_error option) list \<Rightarrow> Status \<Rightarrow> Status" where
  "record_all rs s = fold (\<lambda>(c, d, e). RecordReconcile c d e) rs s"

lemma record_all_snoc [simp]:
  "record_all (rs @ [(c, d, e)]) s = RecordReconcile c d e (record_all rs s)" "record_all [] s = s"
  by (simp_all add: record_all_def)

lemma record_all_counts:
  "reconcileTotal (record_all rs s) = reconcileTotal s + of_nat (length rs) \<and>
   reconcileErrors (record_all rs s) = reconcileErrors s + of_nat (length (filter (\<lambda>(c, d, e). e \<noteq> None) rs)) \<and>
   memifsCreated (record_all rs s) = memifsCreated s + of_nat (\<Sum>(c, d, e)\<leftarrow>rs. c) \<and>
   memifsDeleted (record_all rs s) = memifsDeleted s + of_nat (\<Sum>(c, d, e)\<leftarrow>rs. d) \<and>
   st_connected (record_all rs s) = st_connected s \<and>
   (rs \<noteq> [] \<longrightarrow> sawReconcile (record_all rs s) \<and> (lastReconcileOK (record_all rs s) \<longleftrightarrow> snd (snd (last rs)) = None))"
proof (induction rs rule: rev_induct)
  case (snoc r rs)
  obtain c d e where r: "r = (c, d, e)" by (cases r) auto
  show ?case using snoc.IH unfolding r by (simp add: RecordReconcile_def algebra_simps)
qed simp

text \<open>
  The metrics add up. After any sequence of reconciles from the start of the daemon, with fewer than
  \<open>2^63\<close> of everything, the counters read as signed numbers are the number of reconciles, the number
  of failed ones, and the sums of the created and of the deleted masters; and the daemon is ready
  exactly when VPP is connected and the last reconcile, if there was one, succeeded.
\<close>

theorem status_counts:
  assumes "length rs < 2 ^ 63" and "(\<Sum>(c, d, e)\<leftarrow>rs. c) < 2 ^ 63" and "(\<Sum>(c, d, e)\<leftarrow>rs. d) < 2 ^ 63"
  shows "let s = record_all rs (SetConnected up zero_Status)
    in sint (reconcileTotal s) = int (length rs) \<and>
       sint (reconcileErrors s) = int (length (filter (\<lambda>(c, d, e). e \<noteq> None) rs)) \<and>
       sint (memifsCreated s) = int (\<Sum>(c, d, e)\<leftarrow>rs. c) \<and> sint (memifsDeleted s) = int (\<Sum>(c, d, e)\<leftarrow>rs. d) \<and>
       (ready s \<longleftrightarrow> up \<and> (rs = [] \<or> snd (snd (last rs)) = None))"
proof -
  let ?s = "record_all rs (SetConnected up zero_Status)"
  have sm: "sint (of_nat n :: 64 word) = int n" if "n < 2 ^ 63" for n
    using that by (simp add: signed_of_nat signed_take_bit_int_eq_self)
  have le: "length (filter (\<lambda>(c, d, e). e \<noteq> None) rs) < 2 ^ 63" using assms(1) length_filter_le le_less_trans by blast
  note c = record_all_counts [of rs "SetConnected up zero_Status"]
  have "sint (reconcileTotal ?s) = int (length rs)" using c sm [OF assms(1)] by (simp add: SetConnected_def zero_Status_def)
  moreover have "sint (reconcileErrors ?s) = int (length (filter (\<lambda>(c, d, e). e \<noteq> None) rs))"
    using c sm [OF le] by (simp add: SetConnected_def zero_Status_def)
  moreover have "sint (memifsCreated ?s) = int (\<Sum>(c, d, e)\<leftarrow>rs. c)"
    using c sm [OF assms(2)] by (simp add: SetConnected_def zero_Status_def)
  moreover have "sint (memifsDeleted ?s) = int (\<Sum>(c, d, e)\<leftarrow>rs. d)"
    using c sm [OF assms(3)] by (simp add: SetConnected_def zero_Status_def)
  moreover have "ready ?s \<longleftrightarrow> up \<and> (rs = [] \<or> snd (snd (last rs)) = None)"
  proof (cases "rs = []")
    case True
    then show ?thesis by (simp add: ready_def SetConnected_def zero_Status_def)
  next
    case False
    have "st_connected (SetConnected up zero_Status) = up" by (simp add: SetConnected_def)
    then show ?thesis using c False by (cases up) (simp_all add: ready_def)
  qed
  ultimately show ?thesis by (simp add: Let_def)
qed

theorem status_counts_witness:
  "let s = record_all [(2, 0, None), (0, 3, Some (EMsg ''x''))] (SetConnected True zero_Status)
   in sint (reconcileTotal s) = 2 \<and> sint (memifsDeleted s) = 3 \<and> \<not> ready s"
  using status_counts [of "[(2, 0, None), (0, 3, Some (EMsg ''x''))]" True] by (simp add: Let_def)

end
