(* ===== verification/Watch.thy ===== *)
theory Watch
  imports Status
begin

text \<open>
  The connection watcher of the restore daemon, \<open>pkg/daemon/watch_vpp.go\<close>: the loop of \<open>Run\<close> and the
  \<open>select\<close> loop of \<open>watchOnce\<close> as a step relation. A step is one case of a \<open>select\<close>, one pass of the
  outer loop, or a change of the environment: time passes, VPP restarts, the cluster changes. The
  duration of a step is not modelled. The connection library is a parameter: the events it delivers,
  and whether a connection and an API channel open, are free.
\<close>

section \<open>State\<close>

text \<open>The times of the code.\<close>

definition runRetryBackoff :: nat where "runRetryBackoff = 2 * time_Second"
definition reconcileDebounce :: nat where "reconcileDebounce = time_Second"
definition reconcilePeriod :: nat where "reconcilePeriod = 2 * 60 * time_Second"

datatype conn_state = Connected | Disconnected | Failed go_error

text \<open>
  Where \<open>Run\<close> is: at the head of its loop, in \<open>watchOnce\<close>, waiting before the next connection (until
  the given time), or returned.
\<close>

datatype phase = Head | Watching | Backoff nat | Stopped

record ('v, 'k) watcher =
  wt_d :: "('v, 'k) daemon"
  wt_status :: "Status option"
  wt_phase :: phase
  wt_connected :: bool
  wt_debounce :: "nat option"
  wt_ticker :: nat

text \<open>What does not change: the CNI library, the reconciler, the API of VPP and the socket prefix.\<close>

record ('v, 'k) watch_conf =
  wc_lib :: cni_lib
  wc_R :: "'k Reconciler"
  wc_V :: "'v vpp_api"
  wc_prefix :: string

section \<open>Operations\<close>

text \<open>\<open>r.Status\<close> may be nil.\<close>

definition set_connected :: "bool \<Rightarrow> ('v, 'k) watcher \<Rightarrow> ('v, 'k) watcher" where
  "set_connected v w = w\<lparr>wt_status := map_option (SetConnected v) (wt_status w)\<rparr>"

text \<open>\<open>ch\<close> is the error of \<open>NewAPIChannel\<close>.\<close>

definition onConnected :: "('v, 'k) watch_conf \<Rightarrow> go_error option \<Rightarrow> ('v, 'k) watcher \<Rightarrow> ('v, 'k) watcher" where
  "onConnected C ch w =
     (case ch of
        Some e \<Rightarrow> w
      | None \<Rightarrow>
          (case Sync (wc_lib C) (wc_R C) (NewVPPDataplane (wc_V C) (wc_prefix C)) (wt_d w) of
             ((created, deleted, err), d) \<Rightarrow>
               w\<lparr>wt_d := d, wt_status := map_option (RecordReconcile created deleted err) (wt_status w)\<rparr>))"

text \<open>The cases of the \<open>select\<close> in \<open>watchOnce\<close>.\<close>

definition on_event :: "conn_state \<Rightarrow> ('v, 'k) watcher \<Rightarrow> ('v, 'k) watcher" where
  "on_event ev w =
     (case ev of
        Connected \<Rightarrow> (set_connected True w)\<lparr>wt_connected := True,
          wt_debounce := Some (clock (wt_d w) + reconcileDebounce)\<rparr>
      | Disconnected \<Rightarrow> (set_connected False w)\<lparr>wt_connected := False, wt_debounce := None\<rparr>
      | Failed e \<Rightarrow> (set_connected False w)\<lparr>wt_phase := Backoff (clock (wt_d w) + runRetryBackoff)\<rparr>)"

definition on_debounce :: "('v, 'k) watch_conf \<Rightarrow> go_error option \<Rightarrow> ('v, 'k) watcher \<Rightarrow> ('v, 'k) watcher" where
  "on_debounce C ch w = onConnected C ch (w\<lparr>wt_debounce := None\<rparr>)"

text \<open>A ticker that was not read for several periods keeps one tick and drops the others.\<close>

definition next_tick :: "nat \<Rightarrow> nat \<Rightarrow> nat" where
  "next_tick due now = due + reconcilePeriod * ((now - due) div reconcilePeriod + 1)"

definition on_ticker :: "('v, 'k) watch_conf \<Rightarrow> go_error option \<Rightarrow> ('v, 'k) watcher \<Rightarrow> ('v, 'k) watcher" where
  "on_ticker C ch w =
     (let w1 = w\<lparr>wt_ticker := next_tick (wt_ticker w) (clock (wt_d w))\<rparr>
      in if wt_connected w then onConnected C ch w1 else w1)"

text \<open>The start of \<open>watchOnce\<close> once the connection is there.\<close>

definition start_watch :: "('v, 'k) watcher \<Rightarrow> ('v, 'k) watcher" where
  "start_watch w = w\<lparr>wt_phase := Watching, wt_connected := False, wt_debounce := None,
     wt_ticker := clock (wt_d w) + reconcilePeriod\<rparr>"

section \<open>The watcher\<close>

inductive watch_step :: "('v, 'k) watch_conf \<Rightarrow> ('v, 'k) watcher \<Rightarrow> ('v, 'k) watcher \<Rightarrow> bool" for C where
  connect: "wt_phase w = Head \<Longrightarrow> watch_step C w (start_watch w)"
| connect_failed: "wt_phase w = Head \<Longrightarrow> watch_step C w (w\<lparr>wt_phase := Backoff (clock (wt_d w) + runRetryBackoff)\<rparr>)"
| event: "wt_phase w = Watching \<Longrightarrow> watch_step C w (on_event ev w)"
| closed: "wt_phase w = Watching \<Longrightarrow> watch_step C w (w\<lparr>wt_phase := Backoff (clock (wt_d w) + runRetryBackoff)\<rparr>)"
| debounce: "wt_phase w = Watching \<Longrightarrow> wt_debounce w = Some t \<Longrightarrow> t \<le> clock (wt_d w) \<Longrightarrow>
    watch_step C w (on_debounce C ch w)"
| ticker: "wt_phase w = Watching \<Longrightarrow> wt_ticker w \<le> clock (wt_d w) \<Longrightarrow> watch_step C w (on_ticker C ch w)"
| retry: "wt_phase w = Backoff t \<Longrightarrow> t \<le> clock (wt_d w) \<Longrightarrow> watch_step C w (w\<lparr>wt_phase := Head\<rparr>)"
| cancel: "watch_step C w (w\<lparr>wt_phase := Stopped\<rparr>)"
| environment: "clock (wt_d w) \<le> now \<Longrightarrow>
    watch_step C w (w\<lparr>wt_d := (wt_d w)\<lparr>vst := v, fsys := f, clock := now, kst := k\<rparr>\<rparr>)"

inductive_cases watch_stepE [elim]: "watch_step C w w'"

definition fresh_watcher :: "Status option \<Rightarrow> 'v \<Rightarrow> fs \<Rightarrow> nat \<Rightarrow> 'k \<Rightarrow> ('v, 'k) watcher" where
  "fresh_watcher st v f now k = \<lparr>wt_d = \<lparr>vst = v, fsys = f, clock = now, kst = k, orphanSeen = (\<lambda>_. None), rc_round = 0\<rparr>,
     wt_status = st, wt_phase = Head, wt_connected = False, wt_debounce = None, wt_ticker = 0\<rparr>"

inductive watch_reach :: "('v, 'k) watch_conf \<Rightarrow> ('v, 'k) watcher \<Rightarrow> ('v, 'k) watcher \<Rightarrow> bool" for C where
  refl [intro]: "watch_reach C w w"
| step: "watch_reach C w w1 \<Longrightarrow> watch_step C w1 w2 \<Longrightarrow> watch_reach C w w2"

section \<open>A reconcile counts as one round\<close>

lemma Reconcile_round:
  fixes w :: "('v, 'k) daemon"
  assumes run: "Reconcile (vppDataplane V pre) desired (Some (shouldGC g)) w = (r, w')"
  shows "rc_round w' = rc_round w"
proof (rule Reconcile_preserves [where P = "\<lambda>t. rc_round t = rc_round w", OF _ _ _ _ _ run])
  fix m t e and t' :: "('v, 'k) daemon"
  assume "rc_round t = rc_round w" "CreateMaster (vppDataplane V pre) m t = (e, t')"
  then show "rc_round t' = rc_round w" using daemon_calls(3) [of V m t e t'] by simp
next
  fix m t0 t e and t' :: "('v, 'k) daemon"
  assume "rc_round t0 = rc_round w" "gate_call (Some (shouldGC g)) m t0 = (True, t)"
    "DeleteMaster (vppDataplane V pre) m t = (e, t')"
  then show "rc_round t' = rc_round w"
    using daemon_calls(6) [of V m t e t'] shouldGC_frame(5) [of g m t0 True t] by (simp add: gate_call_def)
next
  fix m and t t' :: "('v, 'k) daemon"
  assume "rc_round t = rc_round w" "gate_call (Some (shouldGC g)) m t = (False, t')"
  then show "rc_round t' = rc_round w" using shouldGC_frame(5) [of g m t False t'] by (simp add: gate_call_def)
next
  fix keep t r1 and t' :: "('v, 'k) daemon"
  assume "rc_round t = rc_round w" and sw: "SweepOrphanSockets (vppDataplane V pre) keep t = (r1, t')"
  have "world.more t' = world.more t"
    using sw by (auto simp: vpp_SweepOrphanSockets_def dest!: on_fs_more split: prod.splits)
  with \<open>rc_round t = rc_round w\<close> show "rc_round t' = rc_round w" using daemon_more(3) by metis
qed simp

lemma Sync_round:
  assumes "Sync L R (NewVPPDataplane V prefix) w = (r, w')"
  shows "rc_round w' = rc_round w + 1"
  using assms
proof (cases rule: Sync_cases)
  case (reconcile pods k desired s)
  then show ?thesis using Reconcile_round [OF reconcile(3) [unfolded NewVPPDataplane_def]] by simp
qed simp

lemma onConnected_frame:
  "rc_round (wt_d (onConnected C ch w)) = (if ch = None then rc_round (wt_d w) + 1 else rc_round (wt_d w))"
  "wt_phase (onConnected C ch w) = wt_phase w" "wt_connected (onConnected C ch w) = wt_connected w"
  "wt_debounce (onConnected C ch w) = wt_debounce w" "wt_ticker (onConnected C ch w) = wt_ticker w"
  using Sync_round [OF prod.collapse [symmetric], of "wc_lib C" "wc_R C" "wc_V C" "wc_prefix C" "wt_d w"]
  by (cases ch; simp add: onConnected_def case_prod_unfold)+

text \<open>Whether the status, if there is one, shows a connection.\<close>

definition shows_connected :: "('v, 'k) watcher \<Rightarrow> bool" where
  "shows_connected w \<longleftrightarrow> (\<forall>s. wt_status w = Some s \<longrightarrow> st_connected s)"

lemma shows_connected_set [simp]: "shows_connected (set_connected True w)"
  by (auto simp: shows_connected_def set_connected_def SetConnected_def)

lemma shows_connected_onConnected [simp]: "shows_connected (onConnected C ch w) = shows_connected w"
  by (cases ch; cases "wt_status w"; simp add: shows_connected_def onConnected_def RecordReconcile_def case_prod_unfold)

lemma shows_connected_upd [simp]:
  "shows_connected (w\<lparr>wt_d := d\<rparr>) = shows_connected w" "shows_connected (w\<lparr>wt_phase := p\<rparr>) = shows_connected w"
  "shows_connected (w\<lparr>wt_connected := c\<rparr>) = shows_connected w" "shows_connected (w\<lparr>wt_debounce := b\<rparr>) = shows_connected w"
  "shows_connected (w\<lparr>wt_ticker := n\<rparr>) = shows_connected w"
  by (simp_all add: shows_connected_def)

lemma set_connected_sel [simp]:
  "wt_d (set_connected v w) = wt_d w" "wt_phase (set_connected v w) = wt_phase w"
  "wt_connected (set_connected v w) = wt_connected w" "wt_debounce (set_connected v w) = wt_debounce w"
  by (simp_all add: set_connected_def)

section \<open>The invariant\<close>

definition watch_ok :: "('v, 'k) watcher \<Rightarrow> bool" where
  "watch_ok w \<longleftrightarrow> (wt_phase w = Watching \<longrightarrow>
     (wt_debounce w \<noteq> None \<longrightarrow> wt_connected w) \<and> (wt_connected w \<longrightarrow> shows_connected w))"

lemma watch_ok_step: "watch_step C w w' \<Longrightarrow> watch_ok w \<Longrightarrow> watch_ok w'"
  by (erule watch_step.cases)
     (auto simp: watch_ok_def start_watch_def on_event_def on_debounce_def on_ticker_def onConnected_frame Let_def
       split: conn_state.splits if_splits)

lemma watch_ok_reach: "watch_reach C w w' \<Longrightarrow> watch_ok w \<Longrightarrow> watch_ok w'"
  by (induction rule: watch_reach.induct) (auto intro: watch_ok_step)

lemma watch_ok_fresh: "watch_ok (fresh_watcher st v f now k)"
  by (simp add: watch_ok_def fresh_watcher_def)

section \<open>Properties\<close>

text \<open>
  C19: The watcher reconciles only while VPP is connected. In every state that \<open>Run\<close> can reach, whatever
  VPP, the cluster and the clock do in between, a step that starts a reconcile is taken in
  \<open>watchOnce\<close> with the connection up, and the status shows it; the step runs exactly one.
\<close>

theorem sync_only_when_connected:
  assumes "watch_reach C (fresh_watcher st v f now k) w" and "watch_step C w w'"
    and "rc_round (wt_d w') \<noteq> rc_round (wt_d w)"
  shows "wt_phase w = Watching \<and> wt_connected w \<and> shows_connected w \<and> rc_round (wt_d w') = rc_round (wt_d w) + 1"
proof -
  have ok: "watch_ok w" using watch_ok_reach [OF assms(1) watch_ok_fresh] .
  from assms(2) show ?thesis
  proof (cases rule: watch_step.cases)
    case (event ev)
    then show ?thesis using assms(3) by (auto simp: on_event_def split: conn_state.splits)
  next
    case (debounce t ch)
    then show ?thesis using assms(3) ok by (auto simp: watch_ok_def on_debounce_def onConnected_frame split: if_splits)
  next
    case (ticker ch)
    then show ?thesis
      using assms(3) ok by (auto simp: watch_ok_def on_ticker_def onConnected_frame Let_def split: if_splits)
  qed (use assms(3) in \<open>auto simp: start_watch_def\<close>)
qed

text \<open>Time passes and nothing else changes.\<close>

definition wait :: "nat \<Rightarrow> ('v, 'k) watcher \<Rightarrow> ('v, 'k) watcher" where
  "wait t w = w\<lparr>wt_d := (wt_d w)\<lparr>clock := clock (wt_d w) + t\<rparr>\<rparr>"

lemma wait_step: "watch_step C w (wait t w)"
proof -
  have "watch_step C w (w\<lparr>wt_d := (wt_d w)\<lparr>vst := vst (wt_d w), fsys := fsys (wt_d w), clock := clock (wt_d w) + t,
      kst := kst (wt_d w)\<rparr>\<rparr>)" by (rule watch_step.environment) simp
  moreover have "(wt_d w)\<lparr>vst := vst (wt_d w), fsys := fsys (wt_d w), clock := clock (wt_d w) + t, kst := kst (wt_d w)\<rparr> =
      (wt_d w)\<lparr>clock := clock (wt_d w) + t\<rparr>" by (cases "wt_d w") simp
  ultimately show ?thesis by (simp add: wait_def)
qed

lemma watch_reach_trans: "watch_reach C w1 w2 \<Longrightarrow> watch_reach C w0 w1 \<Longrightarrow> watch_reach C w0 w2"
  by (induction rule: watch_reach.induct) (auto intro: watch_reach.intros)

lemma wait_sel [simp]:
  "wt_phase (wait t w) = wt_phase w" "wt_connected (wait t w) = wt_connected w" "wt_debounce (wait t w) = wt_debounce w"
  "wt_ticker (wait t w) = wt_ticker w" "rc_round (wt_d (wait t w)) = rc_round (wt_d w)" "clock (wt_d (wait t w)) = clock (wt_d w) + t"
  by (simp_all add: wait_def)

text \<open>
  VPP flaps: connection events at given distances in time. The state after them, if nothing but the
  events is served.
\<close>

definition flap :: "(nat \<times> conn_state) list \<Rightarrow> ('v, 'k) watcher \<Rightarrow> ('v, 'k) watcher" where
  "flap es w = fold (\<lambda>(gap, ev) u. on_event ev (wait gap u)) es w"

lemma flap_Nil [simp]: "flap [] w = w"
  by (simp add: flap_def)

lemma flap_snoc [simp]: "flap (es @ [(gap, ev)]) w = on_event ev (wait gap (flap es w))"
  by (simp add: flap_def)

lemma on_event_sel [simp]:
  "wt_d (on_event ev w) = wt_d w" "wt_ticker (on_event ev w) = wt_ticker w"
  "ev \<in> {Connected, Disconnected} \<Longrightarrow> wt_phase (on_event ev w) = wt_phase w"
  "ev \<in> {Connected, Disconnected} \<Longrightarrow> wt_connected (on_event ev w) = (ev = Connected)"
  "ev \<in> {Connected, Disconnected} \<Longrightarrow>
     wt_debounce (on_event ev w) = (if ev = Connected then Some (clock (wt_d w) + reconcileDebounce) else None)"
  by (auto simp: on_event_def set_connected_def split: conn_state.split)

lemma flap_frame:
  assumes "snd ` set es \<subseteq> {Connected, Disconnected}"
  shows "wt_phase (flap es w) = wt_phase w" "wt_ticker (flap es w) = wt_ticker w" "rc_round (wt_d (flap es w)) = rc_round (wt_d w)"
    "clock (wt_d (flap es w)) = clock (wt_d w) + sum_list (map fst es)"
  using assms by (induction es rule: rev_induct) auto

lemma flap_timer:
  assumes "snd ` set es \<subseteq> {Connected, Disconnected}" and "es \<noteq> []"
  shows "wt_connected (flap es w) = (snd (last es) = Connected)"
    "wt_debounce (flap es w) = (if snd (last es) = Connected then Some (clock (wt_d (flap es w)) + reconcileDebounce) else None)"
  using assms by (cases es rule: rev_cases; auto)+

text \<open>From the start of the daemon to a first connect event.\<close>

lemma first_connect:
  fixes w :: "('v, 'k) watcher" and st v f now k
  defines "w \<equiv> on_event Connected (start_watch (fresh_watcher st v f now k))"
  shows "watch_reach C (fresh_watcher st v f now k) w" "wt_phase w = Watching" "wt_connected w"
    "wt_debounce w = Some (now + reconcileDebounce)" "clock (wt_d w) = now" "rc_round (wt_d w) = 0"
    "wt_status w = map_option (SetConnected True) st"
proof -
  let ?start = "fresh_watcher st v f now k"
  have "watch_step C ?start (start_watch ?start)" by (rule watch_step.connect) (simp add: fresh_watcher_def)
  with watch_reach.refl have "watch_reach C ?start (start_watch ?start)" by (rule watch_reach.step)
  moreover have "watch_step C (start_watch ?start) w" unfolding w_def by (rule watch_step.event) (simp add: start_watch_def)
  ultimately show "watch_reach C ?start w" by (rule watch_reach.step)
qed (simp_all add: w_def start_watch_def fresh_watcher_def on_event_def set_connected_def)

lemma flap_reach:
  assumes "wt_phase w = Watching" and "snd ` set es \<subseteq> {Connected, Disconnected}"
  shows "watch_reach C w (flap es w)"
  using assms(2)
proof (induction es rule: rev_induct)
  case (snoc e es)
  obtain gap ev where e: "e = (gap, ev)" by fastforce
  have es: "snd ` set es \<subseteq> {Connected, Disconnected}" using snoc.prems by auto
  from snoc.IH [OF es] wait_step have "watch_reach C w (wait gap (flap es w))" by (rule watch_reach.step)
  moreover have "watch_step C (wait gap (flap es w)) (on_event ev (wait gap (flap es w)))"
    by (rule watch_step.event) (use flap_frame(1) [OF es, of w] assms(1) in simp)
  ultimately show ?case unfolding e flap_snoc by (rule watch_reach.step)
qed auto

text \<open>Before the timer and the tick are due no step starts a reconcile.\<close>

lemma quiet_step:
  assumes "watch_step C w w'" and "\<forall>t. wt_debounce w = Some t \<longrightarrow> clock (wt_d w) < t" and "clock (wt_d w) < wt_ticker w"
  shows "rc_round (wt_d w') = rc_round (wt_d w)"
  using assms by (cases rule: watch_step.cases) (auto simp: start_watch_def)

text \<open>When only the timer is due, a step that starts a reconcile is the timer's, and turns it off.\<close>

lemma timer_step:
  assumes "watch_step C w w'" and "clock (wt_d w) < wt_ticker w" and "rc_round (wt_d w') \<noteq> rc_round (wt_d w)"
  shows "rc_round (wt_d w') = rc_round (wt_d w) + 1 \<and> wt_debounce w' = None"
  using assms by (cases rule: watch_step.cases) (auto simp: start_watch_def on_debounce_def onConnected_frame split: if_splits)

text \<open>
  C20: A flapping VPP costs one reconcile. Let a watcher without a pending timer serve any sequence of
  connect and disconnect events, at any distances in time, that ends with a connect and during which
  the periodic tick is not due. Then no step starts a reconcile at a moment less than the debounce
  time after the latest event: none during a burst, whose events follow each other faster than that.
  When the debounce time has passed after the last event, a reconcile can start; it is one
  reconcile, and none is left over: until the next event or tick no step starts another one.
\<close>

theorem reconnect_coalesces:
  fixes w :: "('v, 'k) watcher"
  assumes "wt_phase w = Watching" and "wt_debounce w = None"
    and "snd ` set es \<subseteq> {Connected, Disconnected}" and "es \<noteq> []" and "snd (last es) = Connected"
    and "clock (wt_d w) + sum_list (map fst es) + reconcileDebounce < wt_ticker w"
  shows "watch_reach C w (flap es w) \<and>
    (\<forall>i\<le>length es. \<forall>t<reconcileDebounce. \<forall>w'. watch_step C (wait t (flap (take i es) w)) w' \<longrightarrow>
       rc_round (wt_d w') = rc_round (wt_d w)) \<and>
    (\<exists>w'. watch_step C (wait reconcileDebounce (flap es w)) w' \<and> rc_round (wt_d w') = rc_round (wt_d w) + 1) \<and>
    (\<forall>w'. watch_step C (wait reconcileDebounce (flap es w)) w' \<longrightarrow> rc_round (wt_d w') \<noteq> rc_round (wt_d w) \<longrightarrow>
       rc_round (wt_d w') = rc_round (wt_d w) + 1 \<and>
       (\<forall>t w''. clock (wt_d w') + t < wt_ticker w' \<longrightarrow> watch_step C (wait t w') w'' \<longrightarrow> rc_round (wt_d w'') = rc_round (wt_d w')))"
proof (intro conjI allI impI)
  note fr = flap_frame [OF assms(3), of w] and ti = flap_timer(2) [OF assms(3,4), of w, unfolded assms(5), simplified]
  let ?w = "wait reconcileDebounce (flap es w)"
  have early: "clock (wt_d ?w) < wt_ticker ?w" using fr assms(6) by simp
  show "watch_reach C w (flap es w)" using flap_reach [OF assms(1,3)] .
  show "rc_round (wt_d w') = rc_round (wt_d w)"
    if "i \<le> length es" "t < reconcileDebounce" "watch_step C (wait t (flap (take i es) w)) w'" for i t w'
  proof -
    have sub: "snd ` set (take i es) \<subseteq> {Connected, Disconnected}" using assms(3) set_take_subset by fastforce
    have "sum_list (map fst (take i es)) \<le> sum_list (map fst es)"
      by (metis append_take_drop_id le_add1 map_append sum_list_append)
    then have "clock (wt_d (wait t (flap (take i es) w))) < wt_ticker (wait t (flap (take i es) w))"
      using flap_frame [OF sub, of w] assms(6) that(2) by simp
    moreover have "\<forall>d. wt_debounce (wait t (flap (take i es) w)) = Some d \<longrightarrow> clock (wt_d (wait t (flap (take i es) w))) < d"
      using flap_timer(2) [OF sub, of w] assms(2) that(2) by (cases "take i es = []") auto
    ultimately show ?thesis using quiet_step [OF that(3)] flap_frame(3) [OF sub] by simp
  qed
  have "watch_step C ?w (on_debounce C None ?w)"
    by (rule watch_step.debounce [where t = "clock (wt_d (flap es w)) + reconcileDebounce"]) (use fr ti assms(1) in simp_all)
  then show "\<exists>w'. watch_step C ?w w' \<and> rc_round (wt_d w') = rc_round (wt_d w) + 1"
    using fr by (intro exI [of _ "on_debounce C None ?w"]) (simp add: on_debounce_def onConnected_frame)
  fix w' assume step: "watch_step C ?w w'" "rc_round (wt_d w') \<noteq> rc_round (wt_d w)"
  then have one: "rc_round (wt_d w') = rc_round (wt_d ?w) + 1 \<and> wt_debounce w' = None"
    using timer_step [OF step(1) early] fr by simp
  then show "rc_round (wt_d w') = rc_round (wt_d w) + 1" using fr by simp
  show "rc_round (wt_d w'') = rc_round (wt_d w')" if "clock (wt_d w') + t < wt_ticker w'" "watch_step C (wait t w') w''" for t w''
    using quiet_step [OF that(2)] that(1) one by simp
qed

definition sample_conf :: "int \<Rightarrow> Pod list \<Rightarrow> (sample, unit) watch_conf" where
  "sample_conf g pods = \<lparr>wc_lib = sample_lib, wc_R = sample_Reconciler g pods, wc_V = sample_vpp, wc_prefix = ''/run/vpp''\<rparr>"

definition sample_watch :: "(sample, unit) watcher" where
  "sample_watch = \<lparr>wt_d = sample_daemon 0, wt_status = Some zero_Status, wt_phase = Watching, wt_connected = False,
     wt_debounce = None, wt_ticker = clock (sample_daemon 0) + reconcilePeriod\<rparr>"

text \<open>Connected, lost after 0.7 s, back after 0.6 s, and connected again after 0.8 s.\<close>

theorem reconnect_coalesces_witness:
  "let C = sample_conf 0 []; w = flap [(0, Connected), (7, Disconnected), (6, Connected), (8, Connected)] sample_watch
   in watch_reach C sample_watch w \<and>
      (\<forall>w'. watch_step C (wait 9 (flap [(0, Connected), (7, Disconnected), (6, Connected)] sample_watch)) w' \<longrightarrow> rc_round (wt_d w') = 0) \<and>
      (\<forall>w'. watch_step C (wait 9 w) w' \<longrightarrow> rc_round (wt_d w') = 0) \<and>
      (\<exists>w'. watch_step C (wait 10 w) w' \<and> rc_round (wt_d w') = 1)"
proof -
  let ?es = "[(0 :: nat, Connected), (7, Disconnected), (6, Connected), (8, Connected)]"
  have s: "wt_phase sample_watch = Watching" "wt_debounce sample_watch = None" "rc_round (wt_d sample_watch) = 0"
    "clock (wt_d sample_watch) + sum_list (map fst ?es) + reconcileDebounce < wt_ticker sample_watch"
    "reconcileDebounce = 10"
    by (simp_all add: sample_watch_def sample_daemon_def reconcileDebounce_def reconcilePeriod_def time_Second_def)
  have ev: "snd ` set ?es \<subseteq> {Connected, Disconnected}" "?es \<noteq> []" "snd (last ?es) = Connected" by auto
  note r = reconnect_coalesces [OF s(1,2) ev s(4), of "sample_conf 0 []"]
  have quiet: "rc_round (wt_d w') = 0"
    if "i \<le> length ?es" "watch_step (sample_conf 0 []) (wait 9 (flap (take i ?es) sample_watch)) w'" for i w'
    using conjunct1 [OF conjunct2 [OF r], rule_format, OF that(1) _ that(2)] s(3,5) by simp
  have "\<exists>w'. watch_step (sample_conf 0 []) (wait 10 (flap ?es sample_watch)) w' \<and> rc_round (wt_d w') = 1"
    using conjunct1 [OF conjunct2 [OF conjunct2 [OF r]]] unfolding s(3,5) by simp
  with quiet [of 3] quiet [of 4] conjunct1 [OF r] show ?thesis by (simp add: Let_def)
qed

theorem sync_only_when_connected_witness:
  "\<exists>w w'. watch_reach (sample_conf 0 []) (fresh_watcher None (vst sample_two) sample_fs 0 ()) w \<and>
     watch_step (sample_conf 0 []) w w' \<and> rc_round (wt_d w') = 1 \<and> wt_connected w"
proof -
  let ?C = "sample_conf 0 []" and ?start = "fresh_watcher None (vst sample_two) sample_fs 0 ()"
  let ?up = "on_event Connected (start_watch ?start)"
  let ?w = "wait reconcileDebounce ?up"
  note up = first_connect [where st = None and v = "vst sample_two" and f = sample_fs and now = 0 and k = "()"]
  from up(1) wait_step have r: "watch_reach ?C ?start ?w" by (rule watch_reach.step)
  have s: "watch_step ?C ?w (on_debounce ?C None ?w)"
    by (rule watch_step.debounce [where t = "0 + reconcileDebounce"]) (use up(2-5) in simp_all)
  have one: "rc_round (wt_d (on_debounce ?C None ?w)) = 1" "rc_round (wt_d ?w) = 0"
    using up(6) by (simp_all add: on_debounce_def onConnected_frame)
  then have "wt_connected ?w" using sync_only_when_connected [OF r s] by simp
  with r s one(1) show ?thesis by blast
qed

text \<open>
  C18: The watcher and the reconciler together restore the node, pod by pod. Let a connected watcher open an
  API channel and reconcile, while the network definitions do not change, and let the reconcile be
  recorded as successful. Then, for every pod of the node that the daemon can evaluate, every socket
  of its desired masters is the socket of a master of VPP, whatever the other pods are like. A pod
  that cannot be evaluated, because a network of it or its annotation cannot be read, is skipped: for
  its sockets nothing is claimed. The namespaces of networks contain no slash, and the desired
  sockets are under the configured prefixes.
\<close>

theorem onConnected_restores:
  fixes w :: "('v, 'k) watcher"
  assumes "vpp_channel (wc_V C) vinv" and "vinv (vst (wt_d w))"
    and "rc_Pods (wc_R C) (kst (wt_d w)) = (Inr pods, k)" and "\<forall>ns n k. fst (rc_NADs (wc_R C) ns n k) = f ns n"
    and "\<forall>q\<in>set pods. plain_namespaces q"
    and "\<forall>q\<in>set pods. \<forall>ms. fst (desiredForPod (wc_lib C) (direct_get f) q ()) = Inr ms \<longrightarrow>
      (\<forall>m\<in>set ms. managed_socket (parse_prefixes (wc_prefix C)) (Socket m))"
    and "wt_status w = Some s" and "wt_status (onConnected C None w) = Some s'" and "lastReconcileOK s'"
    and "q \<in> set pods" and "fst (desiredForPod (wc_lib C) (direct_get f) q ()) = Inr ms"
  shows "Socket ` set ms \<subseteq> snd ` vpp_view (wc_V C) (parse_prefixes (wc_prefix C)) (vst (wt_d (onConnected C None w)))"
proof -
  obtain c d e d' where run: "Sync (wc_lib C) (wc_R C) (NewVPPDataplane (wc_V C) (wc_prefix C)) (wt_d w) = ((c, d, e), d')"
    by (metis prod.collapse)
  have on: "onConnected C None w = w\<lparr>wt_d := d', wt_status := Some (RecordReconcile c d e s)\<rparr>"
    using run assms(7) by (simp add: onConnected_def)
  then have e: "e = None" using assms(8,9) by (auto simp: RecordReconcile_def)
  have "wt_d (onConnected C None w) = d'" by (simp add: on)
  with Sync_restores_pod [OF assms(1-6) run [unfolded e NewVPPDataplane_def] assms(10,11)] show ?thesis by simp
qed

definition sample_ready :: "(sample, unit) watcher" where
  "sample_ready = sample_watch\<lparr>wt_status := Some (SetConnected True zero_Status), wt_connected := True\<rparr>"

text \<open>Two pods, of which the first cannot be evaluated.\<close>

definition sample_two_pods :: "(sample, unit) watch_conf" where
  "sample_two_pods = \<lparr>wc_lib = sample_lib,
     wc_R = \<lparr>rc_Pods = (\<lambda>k. (Inr [prod_pod, sample_vpp_pod], k)), rc_NADs = (\<lambda>ns n k. (two_namespaces ns n, k)), Grace = 0\<rparr>,
     wc_V = sample_vpp, wc_prefix = ''/run/vpp''\<rparr>"

lemma sample_two_pods_desired:
  "fst (desiredForPod sample_lib (direct_get two_namespaces) sample_vpp_pod ()) = Inr [sample_desired]"
  "\<exists>e. fst (desiredForPod sample_lib (direct_get two_namespaces) prod_pod ()) = Inl e"
  "desired_masters sample_lib (wc_R sample_two_pods) () = [sample_desired]"
proof -
  let ?get = "direct_get two_namespaces"
  have v: "desiredForPod sample_lib ?get sample_vpp_pod () = (Inr [sample_desired], ())"
    by (rule sample_desiredForPod) (simp add: direct_get_def two_namespaces_def)
  obtain e where p: "desiredForPod sample_lib ?get prod_pod () = (Inl e, ())"
    using prod_desiredForPod [of ?get "()" "EKube ''not found''" "()"] by (auto simp: direct_get_def two_namespaces_def)
  show "fst (desiredForPod sample_lib ?get sample_vpp_pod ()) = Inr [sample_desired]"
    "\<exists>e. fst (desiredForPod sample_lib ?get prod_pod ()) = Inl e" using v p by simp_all
  have "desired_masters sample_lib (wc_R sample_two_pods) () = fst (sync_pods sample_lib ?get [prod_pod, sample_vpp_pod] [] ())"
    by (rule desired_masters_direct [where good = plain_ns])
       (use sample_plain_namespaces in \<open>auto simp: sample_two_pods_def nad_key_inj plain_namespaces_def\<close>)
  then show "desired_masters sample_lib (wc_R sample_two_pods) () = [sample_desired]" using v p by simp
qed

lemma sample_two_pods_status:
  "wt_status (onConnected sample_two_pods None sample_ready) = Some (RecordReconcile 0 0 None (SetConnected True zero_Status))"
proof -
  let ?C = sample_two_pods
  have pre: "parse_prefixes ''/run/vpp'' = [''/run/vpp'']" by code_simp
  have d: "wt_d sample_ready = sample_daemon 0" by (simp add: sample_ready_def sample_watch_def)
  have "fst (sync_pods sample_lib (nadLookup (rc_NADs (wc_R ?C))) [prod_pod, sample_vpp_pod] [] (empty_lookup ())) = [sample_desired]"
    using sample_two_pods_desired(3) by (simp add: desired_masters_def sample_two_pods_def)
  then have "Sync (wc_lib ?C) (wc_R ?C) dp (sample_daemon 0) =
      Reconcile dp [sample_desired] (Some (shouldGC 0)) ((sample_daemon 0)\<lparr>rc_round := rc_round (sample_daemon 0) + 1, kst := ()\<rparr>)" for dp
    by (simp add: Sync_def sample_two_pods_def Let_def case_prod_unfold del: sync_pods.simps)
  moreover have "fst (Reconcile (vppDataplane sample_vpp [''/run/vpp'']) [sample_desired] (Some (shouldGC 0))
     ((sample_daemon 0)\<lparr>rc_round := rc_round (sample_daemon 0) + 1, kst := ()\<rparr>)) = (0, 0, None)" by code_simp
  ultimately have "fst (Sync (wc_lib ?C) (wc_R ?C) (NewVPPDataplane (wc_V ?C) (wc_prefix ?C)) (wt_d sample_ready)) = (0, 0, None)"
    by (simp add: d NewVPPDataplane_def pre sample_two_pods_def)
  then show ?thesis by (simp add: onConnected_def sample_ready_def case_prod_unfold)
qed

theorem onConnected_restores_witness:
  "Socket sample_desired \<in> snd ` vpp_view sample_vpp [''/run/vpp''] (vst (wt_d (onConnected sample_two_pods None sample_ready)))"
proof -
  let ?C = sample_two_pods
  have pre: "parse_prefixes ''/run/vpp'' = [''/run/vpp'']" by code_simp
  have sel: "wc_lib ?C = sample_lib" "wc_V ?C = sample_vpp" "wc_prefix ?C = ''/run/vpp''" by (simp_all add: sample_two_pods_def)
  have d: "wt_d sample_ready = sample_daemon 0" by (simp add: sample_ready_def sample_watch_def)
  have "managed_socket [''/run/vpp''] (Socket sample_desired)" by code_simp
  then have man: "\<forall>q\<in>set [prod_pod, sample_vpp_pod]. \<forall>ms. fst (desiredForPod (wc_lib ?C) (direct_get two_namespaces) q ()) = Inr ms \<longrightarrow>
      (\<forall>m\<in>set ms. managed_socket (parse_prefixes (wc_prefix ?C)) (Socket m))"
    unfolding sel pre using sample_two_pods_desired(1,2) by auto
  have ch: "vpp_channel (wc_V ?C) sample_ok" unfolding sel by (rule sample.vpp_channel_axioms)
  have inv: "sample_ok (vst (wt_d sample_ready))" unfolding d by (rule sample_daemon_inv)
  have pods: "rc_Pods (wc_R ?C) (kst (wt_d sample_ready)) = (Inr [prod_pod, sample_vpp_pod], kst (wt_d sample_ready))"
    "\<forall>ns n k. fst (rc_NADs (wc_R ?C) ns n k) = two_namespaces ns n" by (simp_all add: sample_two_pods_def)
  have plain: "\<forall>q\<in>set [prod_pod, sample_vpp_pod]. plain_namespaces q" using sample_plain_namespaces by simp
  have s: "wt_status sample_ready = Some (SetConnected True zero_Status)" by (simp add: sample_ready_def)
  have "Socket ` set [sample_desired] \<subseteq> snd ` vpp_view (wc_V ?C) (parse_prefixes (wc_prefix ?C)) (vst (wt_d (onConnected ?C None sample_ready)))"
    by (rule onConnected_restores [OF ch inv pods plain man s sample_two_pods_status, where q = sample_vpp_pod])
       (use sample_two_pods_desired(1) in \<open>simp_all add: sel RecordReconcile_def\<close>)
  then show ?thesis unfolding sel pre by simp
qed

text \<open>
  C28: Readiness is reported too early and kept too long. From every start of the daemon a state is
  reachable in which \<open>/readyz\<close> answers 200 although no reconcile has run yet, and although the event
  stream has closed and the daemon is waiting to connect again.
\<close>

theorem ready_without_reconcile:
  "\<exists>w s. watch_reach C (fresh_watcher (Some zero_Status) v f now k) w \<and> wt_status w = Some s \<and>
     fst (Handler s ''/readyz'') = 200 \<and> rc_round (wt_d w) = 0 \<and> wt_phase w = Backoff (now + runRetryBackoff)"
proof -
  let ?up = "on_event Connected (start_watch (fresh_watcher (Some zero_Status) v f now k)) :: ('a, 'b) watcher"
  let ?over = "?up\<lparr>wt_phase := Backoff (clock (wt_d ?up) + runRetryBackoff)\<rparr>"
  note up = first_connect [where st = "Some zero_Status" and v = v and f = f and now = now and k = k]
  have "watch_step C ?up ?over" by (rule watch_step.closed) (rule up(2))
  with up(1) have "watch_reach C (fresh_watcher (Some zero_Status) v f now k) ?over" by (rule watch_reach.step)
  moreover have "wt_status ?over = Some (SetConnected True zero_Status)" using up(7) by simp
  moreover have "fst (Handler (SetConnected True zero_Status) ''/readyz'') = 200"
    by (simp add: Handler_def ready_def SetConnected_def zero_Status_def)
  moreover have "rc_round (wt_d ?over) = 0" "wt_phase ?over = Backoff (now + runRetryBackoff)" using up(5,6) by simp_all
  ultimately show ?thesis by blast
qed

end
