(* ===== verification/Logging.thy ===== *)
theory Logging
  imports Go_FS
begin

text \<open>
  The log of the plugin, \<open>logging/logging.go\<close>: a level, a switch for the standard error and an open file.
  The state also holds what has been written to the two. The time stamp and the text of a message
  after formatting are arguments. The other theories leave log messages out, since nothing reads them;
  the commands set the log up from the configuration, which may create a file.
\<close>

section \<open>Levels\<close>

datatype Level = PanicLevel | ErrorLevel | WarningLevel | InfoLevel | DebugLevel | VerboseLevel | MaxLevel | UnknownLevel

text \<open>The number of the constant.\<close>

fun level_num :: "Level \<Rightarrow> nat" where
  "level_num PanicLevel = 0"
| "level_num ErrorLevel = 1"
| "level_num WarningLevel = 2"
| "level_num InfoLevel = 3"
| "level_num DebugLevel = 4"
| "level_num VerboseLevel = 5"
| "level_num MaxLevel = 6"
| "level_num UnknownLevel = 7"

lemma level_num_inject: "level_num a = level_num b \<Longrightarrow> a = b"
  by (cases a; cases b) simp_all

instantiation Level :: linorder
begin

definition less_eq_Level :: "Level \<Rightarrow> Level \<Rightarrow> bool" where
  "less_eq_Level a b \<longleftrightarrow> level_num a \<le> level_num b"

definition less_Level :: "Level \<Rightarrow> Level \<Rightarrow> bool" where
  "less_Level a b \<longleftrightarrow> level_num a < level_num b"

instance
  by standard (auto simp: less_eq_Level_def less_Level_def dest: level_num_inject)

end

lemmas Level_order = less_eq_Level_def less_Level_def

fun Level_String :: "Level \<Rightarrow> string" where
  "Level_String PanicLevel = ''panic''"
| "Level_String ErrorLevel = ''error''"
| "Level_String WarningLevel = ''warning''"
| "Level_String InfoLevel = ''info''"
| "Level_String DebugLevel = ''debug''"
| "Level_String VerboseLevel = ''verbose''"
| "Level_String _ = ''unknown''"

section \<open>State\<close>

record logger =
  loggingStderr :: bool
  loggingFp :: "string option"
  loggingLevel :: Level
  lg_stderr :: string
  lg_file :: string

text \<open>The state after the package's \<open>init\<close>.\<close>

definition init_logger :: logger where
  "init_logger = \<lparr>loggingStderr = True, loggingFp = None, loggingLevel = WarningLevel, lg_stderr = [], lg_file = []\<rparr>"

abbreviation newline :: string where
  "newline \<equiv> [CHR 0x0A]"

section \<open>Messages\<close>

definition log_line :: "string \<Rightarrow> Level \<Rightarrow> string \<Rightarrow> string" where
  "log_line ts level msg = ts @ '' ['' @ Level_String level @ ''] '' @ msg @ newline"

definition Printf :: "string \<Rightarrow> Level \<Rightarrow> string \<Rightarrow> logger \<Rightarrow> logger" where
  "Printf ts level msg g =
     (if level > loggingLevel g then g
      else
        g\<lparr>lg_stderr := lg_stderr g @ (if loggingStderr g then log_line ts level msg else []),
          lg_file := lg_file g @ (if loggingFp g \<noteq> None then log_line ts level msg else [])\<rparr>)"

definition Verbosef :: "string \<Rightarrow> string \<Rightarrow> logger \<Rightarrow> logger" where
  "Verbosef ts msg g = Printf ts VerboseLevel msg g"

definition Debugf :: "string \<Rightarrow> string \<Rightarrow> logger \<Rightarrow> logger" where
  "Debugf ts msg g = Printf ts DebugLevel msg g"

definition Infof :: "string \<Rightarrow> string \<Rightarrow> logger \<Rightarrow> logger" where
  "Infof ts msg g = Printf ts InfoLevel msg g"

definition Warningf :: "string \<Rightarrow> string \<Rightarrow> logger \<Rightarrow> logger" where
  "Warningf ts msg g = Printf ts WarningLevel msg g"

definition Errorf :: "string \<Rightarrow> string \<Rightarrow> logger \<Rightarrow> go_error \<times> logger" where
  "Errorf ts msg g = (EMsg msg, Printf ts ErrorLevel msg g)"

text \<open>\<open>trace\<close> is the text of the error with its stack.\<close>

definition Panicf :: "string \<Rightarrow> string \<Rightarrow> string \<Rightarrow> logger \<Rightarrow> logger" where
  "Panicf ts trace msg g =
     foldl (\<lambda>g m. Printf ts PanicLevel m g) g
       [msg, ''========= Stack trace output ========'', trace, ''========= Stack trace output end ========'']"

section \<open>Set-up\<close>

definition GetLoggingLevel :: "string \<Rightarrow> logger \<Rightarrow> Level \<times> logger" where
  "GetLoggingLevel levelStr g =
     (let s = toLower levelStr
      in if s = ''verbose'' then (VerboseLevel, g)
         else if s = ''debug'' then (DebugLevel, g)
         else if s = ''info'' then (InfoLevel, g)
         else if s = ''warning'' then (WarningLevel, g)
         else if s = ''error'' then (ErrorLevel, g)
         else if s = ''panic'' then (PanicLevel, g)
         else (UnknownLevel,
               g\<lparr>lg_stderr := lg_stderr g @ ''Userspace-CNI logging: cannot set logging level to '' @ levelStr @ newline\<rparr>))"

definition SetLogLevel :: "string \<Rightarrow> logger \<Rightarrow> logger" where
  "SetLogLevel levelStr g =
     (case GetLoggingLevel levelStr g of (level, g1) \<Rightarrow> if level < MaxLevel then g1\<lparr>loggingLevel := level\<rparr> else g1)"

definition SetLogStderr :: "bool \<Rightarrow> logger \<Rightarrow> logger" where
  "SetLogStderr enable g = g\<lparr>loggingStderr := enable\<rparr>"

text \<open>Opening a file to append to it creates it when it is missing.\<close>

definition os_OpenAppend :: "nat \<Rightarrow> string \<Rightarrow> fs \<Rightarrow> errno option \<times> fs" where
  "os_OpenAppend now p f =
     (if deny f OpWrite p then (Some EOTHER, f)
      else if is_dir f p then (Some EOTHER, f)
      else if fs_node f p \<noteq> None then (None, f)
      else if p = [] \<or> \<not> is_dir f (pathDir p) then (Some ENOENT, f)
      else (None, fs_put f p (FileNode [] now)))"

definition SetLogFile :: "nat \<Rightarrow> string \<Rightarrow> logger \<Rightarrow> fs \<Rightarrow> logger \<times> fs" where
  "SetLogFile now filename g f =
     (if filename = [] then (g, f)
      else
        (case os_OpenAppend now filename f of
           (Some _, f1) \<Rightarrow>
             (g\<lparr>loggingFp := None, lg_stderr := lg_stderr g @ ''Userspace-CNI logging: cannot open '' @ filename\<rparr>, f1)
         | (None, f1) \<Rightarrow> (g\<lparr>loggingFp := Some filename\<rparr>, f1)))"

section \<open>What opening a log file does to the file system\<close>

lemma SetLogFile_frame:
  assumes "SetLogFile now p g f = (g', f')"
  shows "deny f' = deny f" and "fs_node f q \<noteq> None \<Longrightarrow> fs_node f' q = fs_node f q"
  using assms fs_put_new [of p f q]
  by (auto simp: SetLogFile_def os_OpenAppend_def split: if_splits)

section \<open>Properties\<close>

text \<open>
  The level that the configuration names, in any case, decides what is written: after
  \<open>SetLogLevel\<close> with the name of a level, a message is appended to the standard error and to the
  file, as far as they are switched on, exactly if its level is at most that one.
\<close>

theorem log_threshold:
  assumes "lv < MaxLevel" and "toLower s = Level_String lv"
  shows "lg_stderr (Printf ts l msg (SetLogLevel s g)) = lg_stderr g @ (if l \<le> lv \<and> loggingStderr g then log_line ts l msg else []) \<and>
    lg_file (Printf ts l msg (SetLogLevel s g)) = lg_file g @ (if l \<le> lv \<and> loggingFp g \<noteq> None then log_line ts l msg else [])"
proof -
  have "SetLogLevel s g = g\<lparr>loggingLevel := lv\<rparr>"
    using assms by (cases lv) (simp_all add: SetLogLevel_def GetLoggingLevel_def Level_order)
  then show ?thesis by (cases "l \<le> lv") (auto simp: Printf_def)
qed

theorem log_threshold_witness:
  "lg_stderr (Printf ''t'' DebugLevel ''m'' (SetLogLevel ''Info'' init_logger)) = [] \<and>
   lg_stderr (Printf ''t'' ErrorLevel ''m'' (SetLogLevel ''Info'' init_logger)) = ''t [error] m'' @ newline"
proof -
  have i: "InfoLevel < MaxLevel" "toLower ''Info'' = Level_String InfoLevel" by code_simp+
  have "\<not> DebugLevel \<le> InfoLevel" "ErrorLevel \<le> InfoLevel" by code_simp+
  then show ?thesis
    using log_threshold [OF i, of "''t''" DebugLevel "''m''" init_logger] log_threshold [OF i, of "''t''" ErrorLevel "''m''" init_logger]
    by (simp add: init_logger_def log_line_def)
qed

end
