(* ===== verification/Daemon_Main.thy ===== *)
theory Daemon_Main
  imports Watch Logging
begin

text \<open>
  The restore daemon as a program, \<open>cmd/daemon/main.go\<close>: what it makes of its flags, its environment
  and the access to the cluster before it runs the watcher, and the code it exits with. The parsing of
  flags is Go's, so the parsed flags are an argument. The three calls that give access to the cluster
  are a parameter, the error of each. The server of the endpoints runs beside the watcher and shows
  the status (theory \<open>Status\<close>); listening and signals are not modelled, a signal is the step \<open>cancel\<close>
  of the watcher. Two messages of level info are left out: one is written by the server, the other
  only repeats the flags.
\<close>

section \<open>Start\<close>

record daemon_flags =
  fl_apiSocket :: string
  fl_socketPrefix :: string
  fl_logLevel :: string
  fl_metricsAddr :: string
  fl_gcGrace :: int

definition default_flags :: daemon_flags where
  "default_flags = \<lparr>fl_apiSocket = [], fl_socketPrefix = [], fl_logLevel = ''info'', fl_metricsAddr = '':9101'', fl_gcGrace = 2\<rparr>"

record cluster_access =
  ca_InClusterConfig :: "go_error option"
  ca_NewClientset :: "go_error option"
  ca_NewDynamic :: "go_error option"

text \<open>The log at the time of the first message.\<close>

definition daemon_log :: "daemon_flags \<Rightarrow> logger \<Rightarrow> logger" where
  "daemon_log fl g = SetLogLevel (fl_logLevel fl) (SetLogStderr True g)"

text \<open>
  The code before \<open>Run\<close>: the exit code 1 with a message, or the configuration of the watcher and the
  status. \<open>txt\<close> gives the text of an error, \<open>ts\<close> the time stamps.
\<close>

definition daemon_start ::
  "cni_lib \<Rightarrow> 'v vpp_api \<Rightarrow> 'k kube_api \<Rightarrow> cluster_access \<Rightarrow> (go_error \<Rightarrow> string) \<Rightarrow> string \<Rightarrow> daemon_flags \<Rightarrow> string \<Rightarrow> logger \<Rightarrow>
   (nat + ('v, 'k) watch_conf \<times> Status) \<times> logger" where
  "daemon_start L V K A txt ts fl nodeName g0 =
     (let g = daemon_log fl g0
      in if nodeName = [] then
           (Inl 1, snd (Errorf ts ''restore-daemon: NODE_NAME env is required (set it from the downward API)'' g))
         else
           (case ca_InClusterConfig A of
              Some e \<Rightarrow> (Inl 1, snd (Errorf ts (''restore-daemon: in-cluster config: '' @ txt e) g))
            | None \<Rightarrow>
                (case ca_NewClientset A of
                   Some e \<Rightarrow> (Inl 1, snd (Errorf ts (''restore-daemon: kubernetes client: '' @ txt e) g))
                 | None \<Rightarrow>
                     (case ca_NewDynamic A of
                        Some e \<Rightarrow> (Inl 1, snd (Errorf ts (''restore-daemon: dynamic client: '' @ txt e) g))
                      | None \<Rightarrow>
                          (Inr (\<lparr>wc_lib = L, wc_R = k8s_Reconciler K nodeName (fl_gcGrace fl), wc_V = V, wc_prefix = fl_socketPrefix fl\<rparr>,
                             zero_Status), g)))))"

section \<open>End\<close>

definition Canceled :: go_error where
  "Canceled = EMsg ''context canceled''"

text \<open>\<open>Run\<close> returns only when its context ends, with the error of the context.\<close>

definition run_result :: "('v, 'k) watcher \<Rightarrow> go_error option option" where
  "run_result w = (if wt_phase w = Stopped then Some (Some Canceled) else None)"

definition daemon_stop :: "(go_error \<Rightarrow> string) \<Rightarrow> string \<Rightarrow> go_error option \<Rightarrow> logger \<Rightarrow> nat \<times> logger" where
  "daemon_stop txt ts err g =
     (case err of
        None \<Rightarrow> (0, Infof ts ''restore-daemon: stopped'' g)
      | Some e \<Rightarrow>
          if e \<noteq> Canceled then (1, snd (Errorf ts (''restore-daemon: exited with error: '' @ txt e) g))
          else (0, Infof ts ''restore-daemon: stopped'' g))"

text \<open>The runs of the program that end, with their exit code.\<close>

inductive daemon_exits ::
  "cni_lib \<Rightarrow> 'v vpp_api \<Rightarrow> 'k kube_api \<Rightarrow> cluster_access \<Rightarrow> daemon_flags \<Rightarrow> string \<Rightarrow> nat \<Rightarrow> bool" where
  refused: "fst (daemon_start L V K A txt ts fl node g) = Inl n \<Longrightarrow> daemon_exits L V K A fl node n"
| stopped: "fst (daemon_start L V K A txt ts fl node g) = Inr (C, st) \<Longrightarrow>
    watch_reach C (fresh_watcher (Some st) v f now k) w \<Longrightarrow> run_result w = Some err \<Longrightarrow>
    daemon_exits L V K A fl node (fst (daemon_stop txt ts err g1))"

definition can_start :: "cluster_access \<Rightarrow> string \<Rightarrow> bool" where
  "can_start A node \<longleftrightarrow> node \<noteq> [] \<and> ca_InClusterConfig A = None \<and> ca_NewClientset A = None \<and> ca_NewDynamic A = None"

lemma daemon_start_cases:
  "fst (daemon_start L V K A txt ts fl node g) =
     (if can_start A node
      then Inr (\<lparr>wc_lib = L, wc_R = k8s_Reconciler K node (fl_gcGrace fl), wc_V = V, wc_prefix = fl_socketPrefix fl\<rparr>, zero_Status)
      else Inl 1)"
  by (simp add: daemon_start_def can_start_def Let_def split: option.split)

text \<open>
  The exit code tells whether the daemon could start: it is 1 when it could not, and 0 otherwise; no
  failure of VPP or of the cluster ends a daemon that has started.
\<close>

theorem daemon_exit_code: "daemon_exits L V K A fl node n \<Longrightarrow> n = (if can_start A node then 0 else 1)"
  by (induction rule: daemon_exits.induct)
     (auto simp: daemon_start_cases run_result_def daemon_stop_def split: if_splits)

section \<open>What a running daemon leaves alone\<close>

context vpp_channel
begin

lemma Sync_foreign_kept:
  fixes w :: "('v, 'k) daemon"
  assumes "vinv (vst w)" and run: "Sync L R (vppDataplane V pre) w = (r, w')"
    and "d \<in> set (memifs V (vst w))" and "det_SwIfIndex d \<notin> fst ` vpp_view V pre (vst w)"
  shows "d \<in> set (memifs V (vst w'))"
  using run
proof (cases rule: Sync_cases)
  case (pods e k)
  then show ?thesis using assms(3) by simp
next
  case (reconcile pods k desired s)
  show ?thesis by (rule foreign_kept [OF _ shouldGC_reads_only reconcile(3)]) (use assms in simp_all)
qed

lemma onConnected_foreign_kept:
  fixes w :: "('v, 'k) watcher"
  assumes "wc_V C = V" and "vinv (vst (wt_d w))"
    and "d \<in> set (memifs V (vst (wt_d w)))" and "det_SwIfIndex d \<notin> fst ` vpp_view V (parse_prefixes (wc_prefix C)) (vst (wt_d w))"
  shows "d \<in> set (memifs V (vst (wt_d (onConnected C ch w))))"
proof (cases ch)
  case None
  obtain r w' where "Sync (wc_lib C) (wc_R C) (vppDataplane V (parse_prefixes (wc_prefix C))) (wt_d w) = (r, w')" by fastforce
  from Sync_foreign_kept [OF assms(2) this assms(3,4)] this None assms(1) show ?thesis
    by (cases r) (simp add: onConnected_def NewVPPDataplane_def)
next
  case (Some e)
  then show ?thesis using assms(3) by (simp add: onConnected_def)
qed

end

section \<open>Properties\<close>

text \<open>
  C3: The daemon touches only what its flag admits. For a daemon that \<open>main\<close> has started, in every state of
  its watcher and for every event, timer and tick that it reacts to, a memif of VPP that is not a
  master, or is on a socket under none of the prefixes of the flag, keeps its row in VPP.
\<close>

theorem daemon_leaves_foreign:
  fixes w :: "('v, 'k) watcher"
  assumes "vpp_channel V vinv" and "fst (daemon_start L V K A txt ts fl node g) = Inr (C, st)" and "vinv (vst (wt_d w))"
    and "d \<in> set (memifs V (vst (wt_d w)))"
    and "det_Role d \<noteq> RoleMaster \<or> (\<forall>s\<in>set (socks V (vst (wt_d w))). sd_SocketID s = det_SocketID d \<longrightarrow>
      \<not> managed_socket (parse_prefixes (fl_socketPrefix fl)) (sd_SocketFilename s))"
    and "w' \<in> {start_watch w, on_event ev w, on_debounce C ch w, on_ticker C ch w}"
  shows "d \<in> set (memifs V (vst (wt_d w')))"
proof -
  have C: "wc_V C = V" "wc_prefix C = fl_socketPrefix fl" using assms(2) by (auto simp: daemon_start_cases split: if_splits)
  have idx: "det_SwIfIndex d \<notin> fst ` vpp_view V (parse_prefixes (wc_prefix C)) (vst (wt_d w))"
    unfolding C(2) by (rule foreign_index [OF vpp_channel.inv_wf [OF assms(1,3)] assms(4,5)])
  have on: "d \<in> set (memifs V (vst (wt_d (onConnected C ch u))))" if "wt_d u = wt_d w" for u :: "('v, 'k) watcher" and ch
    by (rule vpp_channel.onConnected_foreign_kept [OF assms(1) C(1)]) (use that assms(3,4) idx in simp_all)
  have "wt_d (start_watch w) = wt_d w" "wt_d (on_event ev w) = wt_d w"
    by (simp_all add: start_watch_def on_event_def set_connected_def split: conn_state.split)
  moreover have "d \<in> set (memifs V (vst (wt_d (on_debounce C ch w))))" unfolding on_debounce_def by (rule on) simp
  moreover have "d \<in> set (memifs V (vst (wt_d (on_ticker C ch w))))"
    using on [of "w\<lparr>wt_ticker := next_tick (wt_ticker w) (clock (wt_d w))\<rparr>" ch] assms(4) by (simp add: on_ticker_def Let_def)
  ultimately show ?thesis using assms(4,6) by auto
qed

text \<open>A cluster without pods.\<close>

definition idle_kube :: "unit kube_api" where
  "idle_kube = \<lparr>kube_get_pod = (\<lambda>ns n s. ((bare_pod, Some (EKube ''not found'')), s)), kube_update_status = (\<lambda>p s. ((p, None), s)),
     kube_is_conflict = (\<lambda>e. False), kube_retry_steps = 5, kube_list_pods = (\<lambda>n s. (Inr [], s)),
     kube_get_nad = (\<lambda>ns n s. (Inl (EKube ''not found''), s)), kube_load_args = (\<lambda>s. Inl EJson), kube_config_ok = (\<lambda>s. None),
     kube_in_cluster = True, kube_in_cluster_err = None\<rparr>"

definition sample_access :: cluster_access where
  "sample_access = \<lparr>ca_InClusterConfig = None, ca_NewClientset = None, ca_NewDynamic = None\<rparr>"

definition sample_flags :: daemon_flags where
  "sample_flags = default_flags\<lparr>fl_socketPrefix := ''/srv/a, /srv/b''\<rparr>"

text \<open>Two masters of another prefix, and a tick of a connected daemon.\<close>

theorem daemon_leaves_foreign_witness:
  "\<exists>C st. fst (daemon_start sample_lib sample_vpp idle_kube sample_access (\<lambda>_. []) [] sample_flags ''n1'' init_logger) = Inr (C, st) \<and>
     set (memifs sample_vpp (vst sample_two)) \<subseteq> set (memifs sample_vpp (vst (wt_d (on_ticker C None (sample_watch\<lparr>wt_connected := True\<rparr>)))))"
proof -
  let ?s = "daemon_start sample_lib sample_vpp idle_kube sample_access (\<lambda>_. []) [] sample_flags ''n1'' init_logger"
  obtain C st where s: "fst ?s = Inr (C, st)" by (simp add: daemon_start_cases can_start_def sample_access_def)
  have "list_all (\<lambda>s. \<not> managed_socket (parse_prefixes (fl_socketPrefix sample_flags)) (sd_SocketFilename s)) (sp_socks (vst sample_two))"
    by code_simp
  then have f: "\<forall>s\<in>set (socks sample_vpp (vst sample_two)). \<not> managed_socket (parse_prefixes (fl_socketPrefix sample_flags)) (sd_SocketFilename s)"
    by (simp add: list_all_iff)
  let ?w = "sample_watch\<lparr>wt_connected := True\<rparr>"
  have w: "vst (wt_d ?w) = vst sample_two" by (simp add: sample_watch_def sample_daemon_def)
  have "d \<in> set (memifs sample_vpp (vst (wt_d (on_ticker C None ?w))))" if "d \<in> set (memifs sample_vpp (vst sample_two))" for d
    by (rule daemon_leaves_foreign [OF sample.vpp_channel_axioms s, where w = ?w and ch = None and ev = Connected]) (use that f w sample_ok_two in simp_all)
  with s show ?thesis by blast
qed

end
