(* ===== verification/Vpp_Dump.thy ===== *)
theory Vpp_Dump
  imports Vpp_Channel Logging
begin

text \<open>
  The dumps for debugging in \<open>cnivpp/api/\<close>: \<open>DumpMemif\<close> and \<open>DumpMemifSocket\<close> of \<open>memif/memif.go\<close>, which
  write to the log, \<open>DumpBridge\<close> of \<open>bridge/bridge.go\<close> and \<open>DumpVhostUser\<close> of \<open>vhostuser/vhostuser.go\<close>,
  which print. They send one request and change nothing, so each takes what VPP answers: for a multi
  request the replies up to the last one, each with the error of its reception. The loops go on after
  an error and show and count the reply all the same. The texts of errors and of hardware
  addresses come from the library and are parameters; \<open>ts\<close> gives the time stamp of each message.
\<close>

section \<open>Messages of VPP\<close>

text \<open>The replies with all the fields that the dumps show.\<close>

record memif_dump_reply = memif_details +
  det_IfName :: string
  det_HwAddr :: "u8 list"
  det_RingSize :: u32

record bd_port =
  bp_SwIfIndex :: u32
  bp_Shg :: u8

record bd_dump_reply =
  bdr_Flood :: bool
  bdr_UuFlood :: bool
  bdr_Forward :: bool
  bdr_Learn :: bool
  bdr_ArpTerm :: bool
  bdr_MacAge :: u8
  bdr_BviSwIfIndex :: u32
  bdr_NSwIfs :: u32
  bdr_BdTag :: string
  bdr_SwIfDetails :: "bd_port list"

record vhost_dump_reply =
  vd_SwIfIndex :: u32
  vd_IsServer :: bool
  vd_InterfaceName :: string
  vd_NumRegions :: u32
  vd_SockErrno :: u32
  vd_FeaturesFirst32 :: u32
  vd_FeaturesLast32 :: u32
  vd_VirtioNetHdrSz :: u32
  vd_SockFilename :: string

section \<open>Formatting\<close>

definition show_word :: "'a::len word \<Rightarrow> string" where
  "show_word n = show_nat (unat n)"

definition show_bool :: "bool \<Rightarrow> string" where
  "show_bool b = (if b then ''true'' else ''false'')"

definition modeStr :: "string list" where
  "modeStr = [''eth'', ''ip '', ''pnt'']"

definition roleStr :: "string list" where
  "roleStr = [''master'', ''slave '']"

text \<open>Messages in order, each with its own time stamp.\<close>

fun log_all :: "(nat \<Rightarrow> string) \<Rightarrow> string list \<Rightarrow> logger \<Rightarrow> logger" where
  "log_all ts [] g = g"
| "log_all ts (m # ms) g = log_all (\<lambda>i. ts (Suc i)) ms (Verbosef (ts 0) m g)"

section \<open>memif\<close>

text \<open>A role or a mode beyond the tables of names makes the index panic.\<close>

definition memif_line :: "(u8 list \<Rightarrow> string) \<Rightarrow> memif_dump_reply \<Rightarrow> string option" where
  "memif_line mac d =
     (if unat (det_Role d) < length roleStr \<and> unat (det_Mode d) < length modeStr
      then Some (''    SwIfId='' @ show_word (det_SwIfIndex d) @ '' ID='' @ show_word (det_ID d) @
        '' Socket='' @ show_word (det_SocketID d) @ '' Role='' @ roleStr ! unat (det_Role d) @
        '' Mode='' @ modeStr ! unat (det_Mode d) @ '' IfName='' @ det_IfName d @ '' HwAddr='' @ mac (det_HwAddr d) @
        '' RingSz='' @ show_word (det_RingSize d) @ '' '')
      else None)"

text \<open>The messages of the loop and the count at its exit; \<^const>\<open>None\<close> after a panic.\<close>

fun memif_lines ::
  "(go_error \<Rightarrow> string) \<Rightarrow> (u8 list \<Rightarrow> string) \<Rightarrow> (memif_dump_reply \<times> go_error option) list \<Rightarrow> nat \<Rightarrow> string list \<times> nat option" where
  "memif_lines err mac [] count = ([], Some count)"
| "memif_lines err mac ((d, e) # ds) count =
     (let em = (case e of None \<Rightarrow> [] | Some x \<Rightarrow> [''Error dumping memif interface: '' @ err x])
      in (case memif_line mac d of
            None \<Rightarrow> (em, None)
          | Some l \<Rightarrow> (case memif_lines err mac ds (count + 1) of (ms, n) \<Rightarrow> (em @ l # ms, n))))"

definition DumpMemif ::
  "(go_error \<Rightarrow> string) \<Rightarrow> (u8 list \<Rightarrow> string) \<Rightarrow> (nat \<Rightarrow> string) \<Rightarrow> (memif_dump_reply \<times> go_error option) list \<Rightarrow> logger \<Rightarrow>
   go_error option \<times> logger" where
  "DumpMemif err mac ts replies g =
     (case memif_lines err mac replies 0 of
        (ms, None) \<Rightarrow> (Some EPanic, log_all ts (''Memif Interface List:'' # ms) g)
      | (ms, Some n) \<Rightarrow>
          (None, log_all ts (''Memif Interface List:'' # ms @ [''  Interface Count: '' @ show_nat n]) g))"

fun socket_lines :: "(go_error \<Rightarrow> string) \<Rightarrow> (socket_details \<times> go_error option) list \<Rightarrow> nat \<Rightarrow> string list \<times> nat" where
  "socket_lines err [] count = ([], count)"
| "socket_lines err ((d, e) # ds) count =
     (case socket_lines err ds (count + 1) of
        (ms, n) \<Rightarrow>
          ((case e of None \<Rightarrow> [] | Some x \<Rightarrow> [''Error dumping memif socket: '' @ err x]) @
           (''    SocketId='' @ show_word (sd_SocketID d) @ '' Filename='' @ sd_SocketFilename d) # ms, n))"

definition DumpMemifSocket ::
  "(go_error \<Rightarrow> string) \<Rightarrow> (nat \<Rightarrow> string) \<Rightarrow> (socket_details \<times> go_error option) list \<Rightarrow> logger \<Rightarrow> logger" where
  "DumpMemifSocket err ts replies g =
     (case socket_lines err replies 0 of
        (ms, n) \<Rightarrow> log_all ts (''Memif Socket List:'' # ms @ [''  Socket Count: '' @ show_nat n]) g)"

section \<open>Bridges and vhost-user\<close>

text \<open>
  The loop over the ports counts to the number in the reply and reads the list of the reply; when the
  list is shorter the index panics after the last port. Results: the text, and whether it panicked.
\<close>

definition port_line :: "bd_port \<Rightarrow> string" where
  "port_line p = ''      SwId='' @ show_word (bp_SwIfIndex p) @ '' Shg='' @ show_word (bp_Shg p) @ newline"

definition DumpBridge :: "u32 \<Rightarrow> bd_dump_reply result \<Rightarrow> string \<times> go_error option" where
  "DumpBridge bridgeDomain reply =
     (case reply of
        Inl _ \<Rightarrow> (''Bridge Domain '' @ show_word bridgeDomain @ '' does NOT Exist.'' @ newline, None)
      | Inr r \<Rightarrow>
          (''    Bridge Domain '' @ show_word bridgeDomain @ '': Fld='' @ show_bool (bdr_Flood r) @ '' UuFld='' @ show_bool (bdr_UuFlood r) @
           '' Fwd='' @ show_bool (bdr_Forward r) @ '' Lrn='' @ show_bool (bdr_Learn r) @ '' Arp='' @ show_bool (bdr_ArpTerm r) @
           '' Mac='' @ show_word (bdr_MacAge r) @ '' Bvi='' @ show_word (bdr_BviSwIfIndex r) @ '' NSwId='' @ show_word (bdr_NSwIfs r) @
           '' BdTag='' @ bdr_BdTag r @ newline @
           concat (map port_line (take (unat (bdr_NSwIfs r)) (bdr_SwIfDetails r))),
           if unat (bdr_NSwIfs r) \<le> length (bdr_SwIfDetails r) then None else Some EPanic))"

definition vhost_line :: "vhost_dump_reply \<Rightarrow> string" where
  "vhost_line d =
     ''    SwIfId='' @ show_word (vd_SwIfIndex d) @ '' Mode='' @ show_bool (vd_IsServer d) @ '' IfName='' @ vd_InterfaceName d @
     '' NumReg='' @ show_word (vd_NumRegions d) @ '' SockErrno='' @ show_int (sint (vd_SockErrno d)) @
     '' FeaturesFirst32='' @ show_word (vd_FeaturesFirst32 d) @ '' FeaturesLast32='' @ show_word (vd_FeaturesLast32 d) @
     '' HdrSz='' @ show_word (vd_VirtioNetHdrSz d) @ '' SockFile='' @ vd_SockFilename d @ newline"

fun vhost_lines :: "(go_error \<Rightarrow> string) \<Rightarrow> (vhost_dump_reply \<times> go_error option) list \<Rightarrow> nat \<Rightarrow> string \<times> nat" where
  "vhost_lines err [] count = ([], count)"
| "vhost_lines err ((d, e) # ds) count =
     (case vhost_lines err ds (count + 1) of
        (s, n) \<Rightarrow>
          ((case e of None \<Rightarrow> [] | Some x \<Rightarrow> ''Error dumping vhostUser interface: '' @ err x @ newline) @ vhost_line d @ s, n))"

definition DumpVhostUser :: "(go_error \<Rightarrow> string) \<Rightarrow> (vhost_dump_reply \<times> go_error option) list \<Rightarrow> string" where
  "DumpVhostUser err replies =
     (case vhost_lines err replies 0 of
        (s, n) \<Rightarrow> ''Vhost-User Interface List:'' @ newline @ s @ ''  Interface Count: '' @ show_nat n @ newline)"

section \<open>What the dumps show\<close>

text \<open>A reply that the tables of names cover.\<close>

definition showable :: "('m) memif_details_scheme \<Rightarrow> bool" where
  "showable d \<longleftrightarrow> det_Role d \<le> 1 \<and> det_Mode d \<le> 2"

lemma memif_line_None: "memif_line mac d = None \<longleftrightarrow> \<not> showable d"
proof -
  have "unat (det_Role d) < 2 \<longleftrightarrow> det_Role d \<le> 1" "unat (det_Mode d) < 3 \<longleftrightarrow> det_Mode d \<le> 2"
    by (auto simp: word_le_nat_alt)
  then show ?thesis by (auto simp: memif_line_def roleStr_def modeStr_def showable_def)
qed

lemma memif_lines_count:
  "snd (memif_lines err mac ds n) =
     (if \<forall>(d, e)\<in>set ds. showable d then Some (n + length ds) else None)"
proof (induction ds arbitrary: n)
  case (Cons x ds)
  obtain d e where x: "x = (d, e)" by fastforce
  show ?case
    using Cons.IH [of "n + 1"] memif_line_None [of mac d]
    by (cases "memif_line mac d") (auto simp: x Let_def split: prod.splits if_splits)
qed simp

lemma socket_lines_count: "snd (socket_lines err ds n) = n + length ds"
  by (induction err ds n rule: socket_lines.induct) (auto split: prod.splits)

lemma vhost_lines_count: "snd (vhost_lines err ds n) = n + length ds"
  by (induction err ds n rule: vhost_lines.induct) (auto split: prod.splits)

text \<open>Below the level verbose a dump leaves the log alone.\<close>

lemma log_all_silent: "loggingLevel g < VerboseLevel \<Longrightarrow> log_all ts ms g = g"
  by (induction ms arbitrary: ts) (simp_all add: Verbosef_def Printf_def)

text \<open>
  The dump of the memifs panics exactly when VPP reports a role or a mode that has no name; otherwise
  it ends with a line that counts the replies, and it writes only at the level verbose.
\<close>

theorem DumpMemif_total:
  "fst (DumpMemif err mac ts replies g) = (if \<forall>(d, e)\<in>set replies. showable d then None else Some EPanic) \<and>
   (loggingLevel g < VerboseLevel \<longrightarrow> snd (DumpMemif err mac ts replies g) = g)"
proof -
  obtain ms c where m: "memif_lines err mac replies 0 = (ms, c)" by fastforce
  then have "c = (if \<forall>(d, e)\<in>set replies. showable d then Some (length replies) else None)"
    using memif_lines_count [of err mac replies 0] by simp
  then show ?thesis by (auto simp: DumpMemif_def m log_all_silent simp del: log_all.simps split: if_splits)
qed

text \<open>The request of a creation gives a memif that the dump can show.\<close>

lemma created_showable:
  "rq_Role r \<le> 1 \<Longrightarrow> rq_Mode r \<le> 2 \<Longrightarrow> showable (details_of r i)"
  by (simp add: showable_def details_of_def)

end
