(* ===== verification/Vpp_Infra.thy ===== *)
theory Vpp_Infra
  imports Go_Prelude
begin

text \<open>
  The connection to VPP, \<open>cnivpp/api/infra/infra.go\<close>: opening a connection with a channel, and closing
  what was opened. The library \<open>govpp\<close> is a parameter, the error of each of its two calls; the state is
  the sequence of the calls that took effect.
\<close>

section \<open>Opening and closing\<close>

datatype vpp_event = Connected | ChannelOpened | ReplyTimeout nat | ChannelClosed | Disconnected

record govpp =
  gv_Connect :: "go_error option"
  gv_NewAPIChannel :: "go_error option"

record ConnectionData =
  disconnectFlag :: bool
  closeFlag :: bool

text \<open>In seconds.\<close>

definition replyTimeout :: nat where
  "replyTimeout = 5"

text \<open>The argument is a copy, so the flags that are reset here do not change for the caller.\<close>

definition VppCloseCh :: "ConnectionData \<Rightarrow> vpp_event list \<Rightarrow> vpp_event list" where
  "VppCloseCh vppCh tr =
     tr @ (if closeFlag vppCh then [ChannelClosed] else []) @ (if disconnectFlag vppCh then [Disconnected] else [])"

definition VppOpenCh :: "govpp \<Rightarrow> vpp_event list \<Rightarrow> (ConnectionData \<times> go_error option) \<times> vpp_event list" where
  "VppOpenCh G tr =
     (let vppCh = \<lparr>disconnectFlag = False, closeFlag = False\<rparr>
      in (case gv_Connect G of
            Some e \<Rightarrow> ((vppCh, Some e), tr)
          | None \<Rightarrow>
              (let vppCh1 = vppCh\<lparr>disconnectFlag := True\<rparr>; tr1 = tr @ [Connected]
               in (case gv_NewAPIChannel G of
                     Some e \<Rightarrow> ((vppCh1, Some e), VppCloseCh vppCh1 tr1)
                   | None \<Rightarrow> ((vppCh1\<lparr>closeFlag := True\<rparr>, None), tr1 @ [ChannelOpened, ReplyTimeout replyTimeout])))))"

text \<open>
  The way the engine uses them: an error of opening is returned, otherwise the channel is closed when
  the operation returns, whatever it returns.
\<close>

definition with_channel :: "govpp \<Rightarrow> (go_error option \<Rightarrow> 'w \<Rightarrow> 'r \<times> 'w) \<Rightarrow> 'w \<Rightarrow> vpp_event list \<Rightarrow> ('r \<times> 'w) \<times> vpp_event list" where
  "with_channel G op w tr =
     (case VppOpenCh G tr of
        ((vppCh, err), tr1) \<Rightarrow> (op err w, if err = None then VppCloseCh vppCh tr1 else tr1))"

section \<open>Properties\<close>

text \<open>
  No call leaks a connection. However opening goes, a call that uses VPP closes each channel and each
  connection that it opened, once and in the order channel before connection, and sets the time-out
  of the replies between opening and use.
\<close>

theorem vpp_session_balanced:
  "snd (with_channel G op w tr) \<in>
     {tr, tr @ [Connected, Disconnected],
      tr @ [Connected, ChannelOpened, ReplyTimeout 5, ChannelClosed, Disconnected]} \<and>
   fst (with_channel G op w tr) = op (snd (fst (VppOpenCh G tr))) w"
  by (cases "gv_Connect G"; cases "gv_NewAPIChannel G")
     (simp_all add: with_channel_def VppOpenCh_def VppCloseCh_def replyTimeout_def)

end
