(* ===== verification/Config_Data.thy ===== *)
theory Config_Data
  imports Annotations Vpp_Channel
begin

text \<open>
  The configuration that the host hands to a container, \<open>pkg/configdata/configdata.go\<close>: completing the
  container's half of a configuration from the host's half, storing it in the pod's annotation or in a
  file of the shared directory, the clean-up of files, and the container's side, which reads it back.
\<close>

section \<open>Clean-up\<close>

text \<open>
  Reading one entry of an opened directory: \<open>io.EOF\<close> only when it is an empty directory.
\<close>

definition empty_dir :: "fs \<Rightarrow> string \<Rightarrow> bool" where
  "empty_dir f d \<longleftrightarrow> os_ReadDir f d = Inr [] \<and> \<not> deny f OpOpen d"

definition FileCleanup :: "string \<Rightarrow> string \<Rightarrow> fs \<Rightarrow> go_error option \<times> fs" where
  "FileCleanup directory filepath f =
     (case (if filepath \<noteq> [] then os_Remove filepath f else (None, f)) of
        (Some e, f1) \<Rightarrow> (Some (EWrap ''ERROR: Failed to delete file'' (EFs e)), f1)
      | (None, f1) \<Rightarrow>
          if directory \<noteq> [] \<and> empty_dir f1 directory then
            (case os_Remove directory f1 of (e, f2) \<Rightarrow> (map_option EFs e, f2))
          else (None, f1))"

definition CleanupRemoteConfig :: "string \<Rightarrow> fs \<Rightarrow> fs" where
  "CleanupRemoteConfig sharedDir f = snd (os_RemoveAll sharedDir f)"

section \<open>The container's configuration\<close>

text \<open>The container's memif gets the opposite role, and its vhost-user port the opposite mode.\<close>

definition complete_memif :: "MemifConf \<Rightarrow> MemifConf \<Rightarrow> MemifConf" where
  "complete_memif host c =
     c\<lparr>mc_Role := (if mc_Role c = [] then (if mc_Role host = ''master'' then ''slave'' else ''master'') else mc_Role c),
       mc_Mode := (if mc_Mode c = [] then mc_Mode host else mc_Mode c),
       mc_Socketfile := mc_Socketfile host\<rparr>"

definition complete_vhost :: "VhostConf \<Rightarrow> VhostConf \<Rightarrow> VhostConf" where
  "complete_vhost host c =
     c\<lparr>vc_Mode := (if vc_Mode c = [] then (if vc_Mode host = ''client'' then ''server'' else ''client'') else vc_Mode c),
       vc_Socketfile := vc_Socketfile host\<rparr>"

definition container_conf :: "NetConf \<Rightarrow> Result option \<Rightarrow> UserSpaceConf" where
  "container_conf conf ipResult =
     (let host = HostConf conf;
          c0 = ContainerConf conf;
          c1 = (if IfType c0 = [] then c0\<lparr>IfType := IfType host\<rparr> else c0);
          c2 = (if NetType c1 = [] \<and> ipResult \<noteq> None then c1\<lparr>NetType := ''interface''\<rparr> else c1)
      in if IfType c2 = ''memif'' then c2\<lparr>uc_MemifConf := complete_memif (uc_MemifConf host) (uc_MemifConf c2)\<rparr>
         else if IfType c2 = ''vhostuser'' then c2\<lparr>uc_VhostConf := complete_vhost (uc_VhostConf host) (uc_VhostConf c2)\<rparr>
         else c2)"

definition remote_data :: "NetConf \<Rightarrow> CmdArgs \<Rightarrow> Result option \<Rightarrow> ConfigurationData" where
  "remote_data conf args ipResult =
     \<lparr>cd_ContainerId = ContainerID args, cd_IfName = ca_IfName args, cd_Name = nc_Name conf,
      cd_Config = container_conf conf ipResult,
      cd_IPResult = (case ipResult of None \<Rightarrow> zero_Result | Some r \<Rightarrow> r)\<rparr>"

section \<open>Storing it\<close>

text \<open>The file that holds the configuration data without a Kubernetes client.\<close>

definition remote_file :: "string \<Rightarrow> CmdArgs \<Rightarrow> string option" where
  "remote_file sharedDir args =
     map_option (\<lambda>cid. pathJoin sharedDir (''configData-'' @ cid @ ''-'' @ ca_IfName args @ ''.json''))
       (slice12 (ContainerID args))"

text \<open>
  The directory is made when it is missing. A container id of fewer than 12 bytes makes the slice
  expression panic.
\<close>

definition save_file :: "cni_lib \<Rightarrow> nat \<Rightarrow> string \<Rightarrow> CmdArgs \<Rightarrow> ConfigurationData \<Rightarrow> fs \<Rightarrow> go_error option \<times> fs" where
  "save_file L now sharedDir args d f =
     (case (case os_Stat f sharedDir of
              Inr _ \<Rightarrow> (None, f)
            | Inl ENOENT \<Rightarrow> os_MkdirAll sharedDir f
            | Inl EOTHER \<Rightarrow> (Some EOTHER, f)) of
        (Some e, f1) \<Rightarrow> (Some (EFs e), f1)
      | (None, f1) \<Rightarrow>
          (case remote_file sharedDir args of
             None \<Rightarrow> (Some EPanic, f1)
           | Some path \<Rightarrow>
               (case os_WriteFile now path (Marshal (enc_ConfigurationData L d)) f1 of
                  (e, f2) \<Rightarrow> (map_option EFs e, f2))))"

text \<open>The state: the world of the node, extended by the state of the cluster.\<close>

record ('v, 'k) node = "'v world" +
  nkst :: 'k

definition on_kube :: "('k \<Rightarrow> 'a \<times> 'k) \<Rightarrow> ('v, 'k, 'm) node_scheme \<Rightarrow> 'a \<times> ('v, 'k, 'm) node_scheme" where
  "on_kube req w = (case req (nkst w) of (r, k) \<Rightarrow> (r, w\<lparr>nkst := k\<rparr>))"

definition SaveRemoteConfig ::
  "'k kube_api \<Rightarrow> cni_lib \<Rightarrow> NetConf option \<Rightarrow> CmdArgs option \<Rightarrow> bool \<Rightarrow> string \<Rightarrow> Pod option \<Rightarrow> Result option \<Rightarrow>
   ('v, 'k, 'm) node_scheme \<Rightarrow> (Pod option \<times> go_error option) \<times> ('v, 'k, 'm) node_scheme" where
  "SaveRemoteConfig K L conf args client sharedDir pod ipResult w =
     (case conf of
        None \<Rightarrow> ((pod, Some (EMsg ''SaveRemoteConfig(): Error conf is set to: nil'')), w)
      | Some conf \<Rightarrow>
          (case args of
             None \<Rightarrow> ((pod, Some (EMsg ''SaveRemoteConfig(): Error args is set to: nil'')), w)
           | Some args \<Rightarrow>
               if pod = None then ((pod, Some (EMsg ''SaveRemoteConfig(): Error pod is set to: nil'')), w)
               else
                 (let d = remote_data conf args ipResult
                  in if client then on_kube (WritePodAnnotation K L client pod (Some d)) w
                     else
                       (case on_fs (save_file L (clock w) sharedDir args d) w of (e, w1) \<Rightarrow> ((pod, e), w1)))))"

section \<open>Reading it in the container\<close>

record InterfaceData =
  id_Args :: CmdArgs
  id_NetConf :: NetConf
  id_IPResult :: Result

definition zero_CmdArgs :: CmdArgs where
  "zero_CmdArgs = \<lparr>ContainerID = [], Netns = [], ca_IfName = [], ca_Args = [], StdinData = []\<rparr>"

definition iface_data :: "ConfigurationData \<Rightarrow> InterfaceData" where
  "iface_data d =
     \<lparr>id_Args = zero_CmdArgs\<lparr>ContainerID := cd_ContainerId d, ca_IfName := cd_IfName d\<rparr>,
      id_NetConf = zero_NetConf\<lparr>nc_Name := cd_Name d, HostConf := cd_Config d\<rparr>,
      id_IPResult = cd_IPResult d\<rparr>"

text \<open>A \<open>null\<close> in the list is a nil pointer, whose fields cannot be read.\<close>

fun iface_list :: "ConfigurationData option list \<Rightarrow> InterfaceData list \<Rightarrow> (InterfaceData list) result" where
  "iface_list [] out = Inr out"
| "iface_list (None # ds) out = Inl EPanic"
| "iface_list (Some d # ds) out = iface_list ds (out @ [iface_data d])"

definition GetRemoteConfig ::
  "(string \<Rightarrow> (string \<times> string) list) \<Rightarrow> cni_lib \<Rightarrow> fs \<Rightarrow> string \<Rightarrow> (InterfaceData list \<times> string) result" where
  "GetRemoteConfig logfmt L f annotFile =
     (case GetFileAnnotationMappedDir logfmt f annotFile of
        Inl e \<Rightarrow> Inl e
      | Inr mappedDir \<Rightarrow>
          (case GetFileAnnotationConfigData logfmt L f annotFile of
             Inl e \<Rightarrow> Inl e
           | Inr ds \<Rightarrow>
               (case iface_list ds [] of Inl e \<Rightarrow> Inl e | Inr ifs \<Rightarrow> Inr (ifs, mappedDir))))"

section \<open>What clean-up leaves alone\<close>

text \<open>No file but the named one is lost, and a directory only when it was empty.\<close>

lemma FileCleanup_keeps:
  assumes "FileCleanup d p f = (e, f')" and "fs_node f q = Some (FileNode b t)" and "p = [] \<or> pathClean q \<noteq> pathClean p"
    and "\<not> base_dir q"
  shows "fs_node f' q = Some (FileNode b t)"
proof -
  obtain e1 f1 where r: "(if p \<noteq> [] then os_Remove p f else (None, f)) = (e1, f1)" by fastforce
  have f1: "fs_node f1 q = Some (FileNode b t)"
    using r assms(2,3) os_Remove_other [of p f e1 f1 q] by (auto split: if_splits)
  show ?thesis
  proof (cases "e1 = None \<and> d \<noteq> [] \<and> empty_dir f1 d")
    case False
    then show ?thesis using assms(1) r f1 by (auto simp: FileCleanup_def split: option.splits)
  next
    case True
    obtain e2 f2 where r2: "os_Remove d f1 = (e2, f2)" by fastforce
    have f': "f' = f2" using True assms(1) r r2 by (simp add: FileCleanup_def)
    show ?thesis
    proof (cases "pathClean q = pathClean d")
      case False
      with os_Remove_other [OF r2] f1 f' show ?thesis by simp
    next
      case same: True
      have "q \<noteq> []" using f1 by (auto simp: fs_node_def)
      then have "fs_node f1 d = fs_node f1 q" using same True by (simp add: fs_node_def)
      then have here: "fs_node f1 d = Some (FileNode b t)" using f1 by simp
      have "is_dir f1 d" using True by (auto simp: empty_dir_def os_ReadDir_def split: if_splits)
      then have base: "base_dir d" using here by (auto simp: is_dir_def)
      then show ?thesis using assms(4) same by (simp add: base_dir_def)
    qed
  qed
qed

section \<open>Properties\<close>

lemma container_conf_sel:
  "IfType (container_conf conf r) = (if IfType (ContainerConf conf) = [] then IfType (HostConf conf) else IfType (ContainerConf conf))"
  "IfType (container_conf conf r) = ''memif'' \<Longrightarrow>
     uc_MemifConf (container_conf conf r) = complete_memif (uc_MemifConf (HostConf conf)) (uc_MemifConf (ContainerConf conf))"
  "IfType (container_conf conf r) = ''vhostuser'' \<Longrightarrow>
     uc_VhostConf (container_conf conf r) = complete_vhost (uc_VhostConf (HostConf conf)) (uc_VhostConf (ContainerConf conf))"
  by (auto simp: container_conf_def Let_def split: if_splits)

text \<open>
  The two ends of a connection fit together. The container's configuration uses the socket file of
  the host's; unless the user chose them, its memif role is the opposite of the host's role, master or
  slave, and its vhost-user mode is the opposite of the host's.
\<close>

theorem container_conf_complements:
  "(IfType (container_conf conf r) = ''memif'' \<longrightarrow>
      (let h = uc_MemifConf (HostConf conf); c = uc_MemifConf (container_conf conf r)
       in mc_Socketfile c = mc_Socketfile h \<and>
          (mc_Role (uc_MemifConf (ContainerConf conf)) = [] \<longrightarrow> mc_Role c \<in> {''master'', ''slave''} \<and> mc_Role c \<noteq> mc_Role h) \<and>
          (mc_Mode (uc_MemifConf (ContainerConf conf)) = [] \<longrightarrow> mc_Mode c = mc_Mode h))) \<and>
   (IfType (container_conf conf r) = ''vhostuser'' \<longrightarrow>
      (let h = uc_VhostConf (HostConf conf); c = uc_VhostConf (container_conf conf r)
       in vc_Socketfile c = vc_Socketfile h \<and>
          (vc_Mode (uc_VhostConf (ContainerConf conf)) = [] \<longrightarrow>
             vc_Mode c \<in> {''client'', ''server''} \<and> (vc_Mode c = ''client'' \<longleftrightarrow> vc_Mode h \<noteq> ''client''))))"
  by (auto simp: container_conf_sel(2,3) complete_memif_def complete_vhost_def Let_def)

definition sample_netconf :: NetConf where
  "sample_netconf = zero_NetConf\<lparr>nc_Name := ''vpp-net'', HostConf := zero_UserSpaceConf\<lparr>Engine := ''vpp'', IfType := ''memif'',
     NetType := ''bridge'', uc_MemifConf := zero_MemifConf\<lparr>mc_Role := ''master'', mc_Socketfile := ''m.sock''\<rparr>,
     uc_BridgeConf := zero_BridgeConf\<lparr>BridgeName := ''7''\<rparr>\<rparr>\<rparr>"

theorem container_conf_complements_witness:
  "mc_Role (uc_MemifConf (container_conf sample_netconf None)) \<noteq> ''master'' \<and>
   mc_Socketfile (uc_MemifConf (container_conf sample_netconf None)) = ''m.sock''"
proof -
  have "IfType (container_conf sample_netconf None) = ''memif''" by code_simp
  with container_conf_complements [of sample_netconf None] show ?thesis
    by (simp add: Let_def sample_netconf_def zero_defs)
qed

lemma iface_list_Some: "iface_list (map Some ds) out = Inr (out @ map iface_data ds)"
  by (induction ds arbitrary: out) simp_all

lemma config_text_marks: "\<exists>c\<in>set (config_text L ds). c = CHR ''['' \<or> c = CHR ''{'' \<or> c = CHR 0x22"
  by (simp add: config_text_def)

text \<open>
  C38: The container reads what the host wrote. After the host has added the configuration data of the
  interfaces of a pod to its annotation, one after the other, a container that finds the two
  annotations in its file gets one entry per interface, in order, with the container id, the
  interface name and the network name of its ADD, the container's half of the configuration as the
  host completed it, and the addresses of its result; every other field is empty.
\<close>

theorem remote_config_roundtrip:
  assumes "pod_Annotations p AnnotKeyUsrspConfigData = None" and "adds \<noteq> []"
    and "\<forall>(conf, args, r)\<in>set adds. entry_ok L (remote_data conf args r)"
    and "foldl (\<lambda>q (conf, args, r). snd (setPodAnnotationConfigData L q (Some (remote_data conf args r)))) (Some p) adds = Some p'"
    and "os_ReadFile f file = Inr text"
    and "find (\<lambda>kv. fst kv = AnnotKeyUsrspConfigData) (logfmt text) =
      Some (AnnotKeyUsrspConfigData, annotation p' AnnotKeyUsrspConfigData)"
    and "find (\<lambda>kv. fst kv = AnnotKeyUsrspMappedDir) (logfmt text) = Some (AnnotKeyUsrspMappedDir, dir)"
  shows "GetRemoteConfig logfmt L f file =
    Inr (map (\<lambda>(conf, args, r).
      \<lparr>id_Args = \<lparr>ContainerID = ContainerID args, Netns = [], ca_IfName = ca_IfName args, ca_Args = [], StdinData = []\<rparr>,
       id_NetConf = zero_NetConf\<lparr>nc_Name := nc_Name conf, HostConf := container_conf conf r\<rparr>,
       id_IPResult = (case r of None \<Rightarrow> zero_Result | Some ips \<Rightarrow> ips)\<rparr>) adds, dir)"
proof -
  let ?ds = "map (\<lambda>(conf, args, r). remote_data conf args r) adds"
  have ok: "\<forall>d\<in>set ?ds. entry_ok L d" using assms(3) by auto
  have fold: "foldl (\<lambda>q d. snd (setPodAnnotationConfigData L q (Some d))) (Some p) ?ds = Some p'"
    using assms(4) by (simp add: foldl_map case_prod_unfold)
  have "annotation p' AnnotKeyUsrspConfigData = config_text L ?ds"
    using foldl_set_config [of p "[]" L ?ds] assms(1,2) fold by (auto simp: annotation_def)
  then have "GetFileAnnotationConfigData logfmt L f file = Inr (map Some ?ds)"
    using assms(5,6) Unmarshal_config_text(2) [OF ok] config_text_marks [of L ?ds]
    by (simp add: GetFileAnnotationConfigData_def getFileAnnotation_def)
  moreover have "GetFileAnnotationMappedDir logfmt f file = Inr dir"
    using assms(5,7) by (simp add: GetFileAnnotationMappedDir_def getFileAnnotation_def)
  moreover have "map iface_data ?ds = map (\<lambda>(conf, args, r).
      \<lparr>id_Args = \<lparr>ContainerID = ContainerID args, Netns = [], ca_IfName = ca_IfName args, ca_Args = [], StdinData = []\<rparr>,
       id_NetConf = zero_NetConf\<lparr>nc_Name := nc_Name conf, HostConf := container_conf conf r\<rparr>,
       id_IPResult = (case r of None \<Rightarrow> zero_Result | Some ips \<Rightarrow> ips)\<rparr>) adds"
    by (auto simp: iface_data_def remote_data_def zero_CmdArgs_def)
  ultimately show ?thesis by (simp add: GetRemoteConfig_def iface_list_Some del: map_map)
qed

definition sample_args :: CmdArgs where
  "sample_args = zero_CmdArgs\<lparr>ContainerID := ''0123456789abcdef'', ca_IfName := ''net1''\<rparr>"

definition sample_annot_fs :: fs where
  "sample_annot_fs = \<lparr>nodes = [(''/etc/podinfo/annotations'', FileNode ''x'' 0)], deny = (\<lambda>_ _. False)\<rparr>"

theorem remote_config_roundtrip_witness:
  "GetRemoteConfig (\<lambda>_. [(AnnotKeyUsrspMappedDir, ''/var/run/vpp''),
      (AnnotKeyUsrspConfigData, config_text sample_lib [remote_data sample_netconf sample_args None])])
     sample_lib sample_annot_fs ''/etc/podinfo/annotations'' =
   Inr ([\<lparr>id_Args = \<lparr>ContainerID = ''0123456789abcdef'', Netns = [], ca_IfName = ''net1'', ca_Args = [], StdinData = []\<rparr>,
      id_NetConf = zero_NetConf\<lparr>nc_Name := ''vpp-net'', HostConf := container_conf sample_netconf None\<rparr>,
      id_IPResult = zero_Result\<rparr>], ''/var/run/vpp'')"
proof -
  let ?d = "remote_data sample_netconf sample_args None"
  have "conf_ok (cd_Config ?d)" by code_simp
  moreover have "cd_IPResult ?d = zero_Result" by (simp add: remote_data_def)
  ultimately have ok: "entry_ok sample_lib ?d" by (simp add: entry_ok_def sample_lib_def)
  have none: "pod_Annotations sample_pod AnnotKeyUsrspConfigData = None" by (simp add: sample_pod_def)
  obtain p' where p': "foldl (\<lambda>q (conf, args, r). snd (setPodAnnotationConfigData sample_lib q (Some (remote_data conf args r))))
      (Some sample_pod) [(sample_netconf, sample_args, None)] = Some p'"
    "annotation p' AnnotKeyUsrspConfigData = config_text sample_lib [?d]"
    using foldl_set_config [of sample_pod "[]" sample_lib "[?d]"] none by (auto simp: annotation_def)
  have rd: "os_ReadFile sample_annot_fs ''/etc/podinfo/annotations'' = Inr ''x''" by code_simp
  from remote_config_roundtrip [OF none _ _ p'(1) rd, of "\<lambda>_. [(AnnotKeyUsrspMappedDir, ''/var/run/vpp''),
      (AnnotKeyUsrspConfigData, config_text sample_lib [?d])]"] ok p'(2)
  show ?thesis
    by (simp add: AnnotKeyUsrspMappedDir_def AnnotKeyUsrspConfigData_def sample_args_def zero_CmdArgs_def sample_netconf_def)
qed

end
