(* ===== verification/Saved_Db.thy ===== *)
theory Saved_Db
  imports Config_Data
begin

text \<open>
  The data that an ADD saves for the DEL of the same interface: \<open>cnivpp/localdb.go\<close> and
  \<open>cniovs/localdb.go\<close>. Both write a JSON file in the plugin's data directory, named after container
  and interface, and both read it back and delete it. The locale \<open>saved_db\<close> is what the two engines
  rely on; it is interpreted for both.
\<close>

section \<open>The file\<close>

definition local_name :: "CmdArgs \<Rightarrow> string option" where
  "local_name args =
     map_option (\<lambda>cid. ''local-'' @ cid @ ''-'' @ ca_IfName args @ ''.json'') (slice12 (ContainerID args))"

definition local_path :: "CmdArgs \<Rightarrow> string option" where
  "local_path args = map_option (pathJoin DefaultLocalCNIDir) (local_name args)"

text \<open>What both save functions do with the text of their data.\<close>

definition save_local :: "nat \<Rightarrow> CmdArgs \<Rightarrow> string \<Rightarrow> fs \<Rightarrow> go_error option \<times> fs" where
  "save_local now args bytes f =
     (case local_path args of
        None \<Rightarrow> (Some EPanic, f)
      | Some path \<Rightarrow>
          (case (case os_Stat f DefaultLocalCNIDir of
                   Inr _ \<Rightarrow> (None, f)
                 | Inl ENOENT \<Rightarrow> os_MkdirAll DefaultLocalCNIDir f
                 | Inl EOTHER \<Rightarrow> (Some EOTHER, f)) of
             (Some e, f1) \<Rightarrow> (Some (EFs e), f1)
           | (None, f1) \<Rightarrow> (case os_WriteFile now path bytes f1 of (e, f2) \<Rightarrow> (map_option EFs e, f2))))"

text \<open>
  What both load functions do: \<open>dec\<close> stores the text into the caller's variable, which holds
  \<open>zero\<close>; \<open>what\<close> names the data in messages. Whatever \<open>os.Stat\<close> fails with counts as no file.
\<close>

definition load_local :: "(string \<Rightarrow> 'd result) \<Rightarrow> 'd \<Rightarrow> string \<Rightarrow> CmdArgs \<Rightarrow> fs \<Rightarrow> 'd result \<times> fs" where
  "load_local dec zero what args f =
     (case local_path args of
        None \<Rightarrow> (Inl EPanic, f)
      | Some path \<Rightarrow>
          (case os_Stat f path of
             Inl _ \<Rightarrow> (Inr zero, snd (FileCleanup DefaultLocalCNIDir [] f))
           | Inr _ \<Rightarrow>
               (case os_ReadFile f path of
                  Inl e \<Rightarrow> (Inl (EWrap (''ERROR: Failed to read '' @ what @ '' saved data'') (EFs e)), f)
                | Inr bytes \<Rightarrow>
                    (case dec bytes of
                       Inl e \<Rightarrow> (Inl (EWrap (''ERROR: Failed to parse '' @ what @ '' saved data'') e), f)
                     | Inr d \<Rightarrow> (Inr d, snd (FileCleanup DefaultLocalCNIDir path f))))))"

section \<open>VPP\<close>

record VppSavedData =
  InterfaceSwIfIndex :: u32
  MemifSocketId :: u32

definition zero_VppSavedData :: VppSavedData where
  "zero_VppSavedData = \<lparr>InterfaceSwIfIndex = 0, MemifSocketId = 0\<rparr>"

definition enc_VppSavedData :: "VppSavedData \<Rightarrow> json" where
  "enc_VppSavedData d = JObj [(''swIfIndex'', JNum (show_int (uint (InterfaceSwIfIndex d)))),
     (''memifSocketId'', JNum (show_int (uint (MemifSocketId d))))]"

definition vpp_saved_fields :: "VppSavedData fields" where
  "vpp_saved_fields = [
     (''swIfIndex'', field InterfaceSwIfIndex (\<lambda>y. InterfaceSwIfIndex_update (\<lambda>_. y)) dec_word),
     (''memifSocketId'', field MemifSocketId (\<lambda>y. MemifSocketId_update (\<lambda>_. y)) dec_word)]"

definition SaveVppConfig :: "nat \<Rightarrow> CmdArgs \<Rightarrow> VppSavedData \<Rightarrow> fs \<Rightarrow> go_error option \<times> fs" where
  "SaveVppConfig now args data f = save_local now args (Marshal (enc_VppSavedData data)) f"

definition LoadVppConfig :: "CmdArgs \<Rightarrow> fs \<Rightarrow> VppSavedData result \<times> fs" where
  "LoadVppConfig args f =
     load_local (\<lambda>s. Unmarshal (dec_struct vpp_saved_fields) s zero_VppSavedData) zero_VppSavedData ''VPP'' args f"

section \<open>OVS\<close>

record OvsSavedData =
  Vhostname :: string
  VhostMac :: string
  IfMac :: string

definition zero_OvsSavedData :: OvsSavedData where
  "zero_OvsSavedData = \<lparr>Vhostname = [], VhostMac = [], IfMac = []\<rparr>"

definition enc_OvsSavedData :: "OvsSavedData \<Rightarrow> json" where
  "enc_OvsSavedData d = JObj [(''vhostname'', JStr (Vhostname d)), (''vhostmac'', JStr (VhostMac d)), (''ifmac'', JStr (IfMac d))]"

definition ovs_saved_fields :: "OvsSavedData fields" where
  "ovs_saved_fields = [
     (''vhostname'', field Vhostname (\<lambda>y. Vhostname_update (\<lambda>_. y)) dec_string),
     (''vhostmac'', field VhostMac (\<lambda>y. VhostMac_update (\<lambda>_. y)) dec_string),
     (''ifmac'', field IfMac (\<lambda>y. IfMac_update (\<lambda>_. y)) dec_string)]"

definition SaveConfig :: "nat \<Rightarrow> CmdArgs \<Rightarrow> OvsSavedData \<Rightarrow> fs \<Rightarrow> go_error option \<times> fs" where
  "SaveConfig now args data f = save_local now args (Marshal (enc_OvsSavedData data)) f"

definition LoadConfig :: "CmdArgs \<Rightarrow> fs \<Rightarrow> OvsSavedData result \<times> fs" where
  "LoadConfig args f =
     load_local (\<lambda>s. Unmarshal (dec_struct ovs_saved_fields) s zero_OvsSavedData) zero_OvsSavedData ''OVS'' args f"

section \<open>Decoding the saved text\<close>

lemma vpp_saved_decode:
  "Unmarshal (dec_struct vpp_saved_fields) (Marshal (enc_VppSavedData d)) zero_VppSavedData = Inr d"
proof -
  have "json_parse (Marshal (enc_VppSavedData d)) = Some (enc_VppSavedData d)"
    by (rule json_parse_Marshal) (auto simp: enc_VppSavedData_def)
  then show ?thesis
    by (simp add: Unmarshal_def enc_VppSavedData_def vpp_saved_fields_def find_field_def field_def
        dec_word_show zero_VppSavedData_def del: dec_word.simps)
qed

lemma ovs_saved_decode:
  "Unmarshal (dec_struct ovs_saved_fields) (Marshal (enc_OvsSavedData d)) zero_OvsSavedData = Inr d"
proof -
  have "json_parse (Marshal (enc_OvsSavedData d)) = Some (enc_OvsSavedData d)"
    by (rule json_parse_Marshal) (simp add: enc_OvsSavedData_def)
  then show ?thesis
    by (simp add: Unmarshal_def enc_OvsSavedData_def ovs_saved_fields_def find_field_def field_def zero_OvsSavedData_def)
qed

section \<open>The file system under save and load\<close>

lemma deny_FileCleanup: "FileCleanup d p f = (e, f') \<Longrightarrow> deny f' = deny f"
  by (auto simp: FileCleanup_def dest!: deny_os_Remove split: prod.splits option.splits if_splits)

lemma FileCleanup_shrinks:
  assumes "FileCleanup d p f = (e, f')" and "fs_node f' q \<noteq> None"
  shows "fs_node f' q = fs_node f q"
proof -
  obtain e1 f1 where r: "(if p \<noteq> [] then os_Remove p f else (None, f)) = (e1, f1)" by fastforce
  have one: "fs_node f1 q \<noteq> None \<Longrightarrow> fs_node f1 q = fs_node f q"
    using r os_Remove_shrinks [of p f e1 f1 q] by (auto split: if_splits)
  obtain e2 f2 where r2: "os_Remove d f1 = (e2, f2)" by fastforce
  have "f' = f1 \<or> f' = f2" using assms(1) r r2 by (auto simp: FileCleanup_def split: option.splits if_splits)
  then show ?thesis using one assms(2) os_Remove_shrinks [OF r2, of q] by metis
qed

lemma FileCleanup_removes:
  assumes "FileCleanup d p f = (e, f')" and "fs_node f p = Some (FileNode b t)" and "\<not> deny f OpRemove p"
  shows "fs_node f' p = None"
proof -
  have p: "p \<noteq> []" using assms(2) by (auto simp: fs_node_def)
  have "os_Remove p f = (None, fs_del f p)" by (rule os_Remove_file [OF assms(2,3)])
  then have "FileCleanup d p f = FileCleanup d [] (fs_del f p)" using p by (simp add: FileCleanup_def)
  with assms(1) have "FileCleanup d [] (fs_del f p) = (e, f')" by simp
  then show ?thesis using FileCleanup_shrinks [of d "[]" "fs_del f p" e f' p] by (force simp: fs_lookup)
qed

lemma save_local_run:
  assumes "save_local now args b f = (e, f')" and "local_path args = Some p"
  shows "deny f' = deny f" and "e = None \<Longrightarrow> fs_node f' p = Some (FileNode b now)"
    and "pathClean q \<noteq> pathClean p \<Longrightarrow> fs_node f q \<noteq> None \<Longrightarrow> fs_node f' q = fs_node f q"
proof -
  obtain e1 f1 where m: "(case os_Stat f DefaultLocalCNIDir of Inr _ \<Rightarrow> (None, f)
      | Inl ENOENT \<Rightarrow> os_MkdirAll DefaultLocalCNIDir f | Inl EOTHER \<Rightarrow> (Some EOTHER, f)) = (e1, f1)" by fastforce
  have f1: "deny f1 = deny f" "fs_node f q \<noteq> None \<Longrightarrow> fs_node f1 q = fs_node f q"
    using m deny_os_MkdirAll os_MkdirAll_keeps by (auto split: sum.splits errno.splits)
  obtain e2 f2 where w: "os_WriteFile now p b f1 = (e2, f2)" by fastforce
  have cases: "(e1 \<noteq> None \<and> f' = f1 \<and> e \<noteq> None) \<or> (e1 = None \<and> f' = f2 \<and> (e = None \<longleftrightarrow> e2 = None))"
    using assms m w by (auto simp: save_local_def split: option.splits)
  note w2 = deny_os_WriteFile [OF w] os_WriteFile_other [OF w, of q] fs_node_os_WriteFile [of now p b f1 f2]
  show "deny f' = deny f" using cases f1(1) w2(1) by auto
  show "fs_node f' p = Some (FileNode b now)" if "e = None" using that cases w w2(3) by auto
  show "fs_node f' q = fs_node f q" if "pathClean q \<noteq> pathClean p" "fs_node f q \<noteq> None"
    using that cases f1(2) w2(2) by auto
qed

lemma deny_load_local: "deny (snd (load_local dec zero what args f)) = deny f"
proof -
  have "deny (snd (FileCleanup d p f)) = deny f" for d p using deny_FileCleanup by (metis prod.collapse)
  then show ?thesis by (simp add: load_local_def split: option.splits sum.splits)
qed

section \<open>The contract\<close>

text \<open>The file of an interface is reachable: its name is a plain one and no call on it is denied.\<close>

definition reachable_file :: "CmdArgs \<Rightarrow> fs \<Rightarrow> bool" where
  "reachable_file args f \<longleftrightarrow> (\<exists>n. local_name args = Some n \<and> plain_name n) \<and>
     (\<forall>p. local_path args = Some p \<longrightarrow> \<not> deny f OpStat p \<and> \<not> deny f OpRead p \<and> \<not> deny f OpRemove p)"

lemma reachable_file_deny: "deny f' = deny f \<Longrightarrow> reachable_file args f' = reachable_file args f"
  by (simp add: reachable_file_def)

lemma load_local_file:
  assumes "reachable_file args f" and "local_path args = Some p" and "fs_node f p = Some (FileNode b t)" and "dec b = Inr d"
  shows "\<exists>f2. load_local dec zero what args f = (Inr d, f2) \<and> fs_node f2 p = None"
proof -
  have a: "\<not> deny f OpStat p" "\<not> deny f OpRead p" "\<not> deny f OpRemove p"
    using assms(1,2) by (auto simp: reachable_file_def)
  obtain e f2 where c: "FileCleanup DefaultLocalCNIDir p f = (e, f2)" by fastforce
  have "fs_node f2 p = None" by (rule FileCleanup_removes [OF c assms(3) a(3)])
  moreover have "load_local dec zero what args f = (Inr d, f2)"
    using assms(2-4) a c by (simp add: load_local_def os_Stat_def os_ReadFile_def)
  ultimately show ?thesis by blast
qed

lemma load_local_none:
  assumes "reachable_file args f" and "local_path args = Some p" and "fs_node f p = None"
  shows "fst (load_local dec zero what args f) = Inr zero"
proof -
  obtain n where n: "local_name args = Some n" "plain_name n" using assms(1) by (auto simp: reachable_file_def)
  then have "\<not> base_dir p" using assms(2) pathJoin_not_dir(2) [of DefaultLocalCNIDir n]
    by (auto simp: local_path_def DefaultLocalCNIDir_def)
  then show ?thesis using assms by (auto simp: load_local_def os_Stat_def split: sum.splits)
qed

locale saved_db =
  fixes save :: "nat \<Rightarrow> CmdArgs \<Rightarrow> 'd \<Rightarrow> fs \<Rightarrow> go_error option \<times> fs"
    and load :: "CmdArgs \<Rightarrow> fs \<Rightarrow> 'd result \<times> fs" and zero :: 'd
  assumes load_saved: "save now args d f = (None, f1) \<Longrightarrow> reachable_file args f \<Longrightarrow>
      \<exists>f2. load args f1 = (Inr d, f2) \<and> (\<forall>p. local_path args = Some p \<longrightarrow> fs_node f2 p = None)"
    and load_none: "local_path args = Some p \<Longrightarrow> reachable_file args f \<Longrightarrow> fs_node f p = None \<Longrightarrow>
      fst (load args f) = Inr zero"
    and load_reachable: "reachable_file args f \<Longrightarrow> reachable_file args (snd (load args f))"
    and save_reachable: "reachable_file args f \<Longrightarrow> reachable_file args (snd (save now args d f))"
    and save_other: "save now args d f = (e, f1) \<Longrightarrow> local_path args = Some p \<Longrightarrow> pathClean q \<noteq> pathClean p \<Longrightarrow>
      fs_node f q \<noteq> None \<Longrightarrow> fs_node f1 q = fs_node f q"
begin

text \<open>What was saved is loaded once: the next load finds nothing and gives the zero value.\<close>

lemma load_once:
  assumes "save now args d f = (None, f1)" and "reachable_file args f"
  obtains f2 where "load args f1 = (Inr d, f2)" and "fst (load args f2) = Inr zero"
proof -
  obtain f2 where f2: "load args f1 = (Inr d, f2)" "\<forall>p. local_path args = Some p \<longrightarrow> fs_node f2 p = None"
    using load_saved [OF assms] by blast
  obtain p where p: "local_path args = Some p" using assms(2) by (auto simp: reachable_file_def local_path_def)
  have "reachable_file args f1" using save_reachable [OF assms(2), of now d] assms(1) by simp
  then have "reachable_file args f2" using load_reachable [of args f1] f2(1) by simp
  then show ?thesis using that [OF f2(1)] load_none [OF p] f2(2) p by simp
qed

text \<open>Saving for one interface leaves the data of the others alone.\<close>

lemma save_separate:
  assumes "save now args d f = (e, f1)" and "local_path args = Some p" and "local_path args' = Some q"
    and "pathClean p \<noteq> pathClean q" and "fs_node f q \<noteq> None"
  shows "fs_node f1 q = fs_node f q"
  using save_other [OF assms(1,2)] assms(4,5) by metis

end

section \<open>Both engines keep it\<close>

lemma saved_db_local:
  assumes "\<And>d. dec (enc d) = Inr d"
  shows "saved_db (\<lambda>now args d. save_local now args (enc d)) (load_local dec zero what) zero"
proof
  fix now args d f f1 assume s: "save_local now args (enc d) f = (None, f1)" and r: "reachable_file args f"
  obtain p where p: "local_path args = Some p" using r by (auto simp: reachable_file_def local_path_def)
  have "reachable_file args f1" using r unfolding reachable_file_deny [OF save_local_run(1) [OF s p]] .
  from load_local_file [OF this p save_local_run(2) [OF s p refl], of dec d zero what, OF assms]
  obtain f2 where "load_local dec zero what args f1 = (Inr d, f2)" "fs_node f2 p = None" by blast
  moreover from this p have "\<forall>q. local_path args = Some q \<longrightarrow> fs_node f2 q = None" by simp
  ultimately show "\<exists>f2. load_local dec zero what args f1 = (Inr d, f2) \<and> (\<forall>p. local_path args = Some p \<longrightarrow> fs_node f2 p = None)"
    by blast
next
  fix args p f assume "local_path args = Some p" "reachable_file args f" "fs_node f p = None"
  then show "fst (load_local dec zero what args f) = Inr zero" by (intro load_local_none)
next
  fix args f assume "reachable_file args f"
  then show "reachable_file args (snd (load_local dec zero what args f))"
    unfolding reachable_file_deny [OF deny_load_local] .
next
  fix args f now d assume r: "reachable_file args f"
  obtain p where p: "local_path args = Some p" using r by (auto simp: reachable_file_def local_path_def)
  obtain e f1 where s: "save_local now args (enc d) f = (e, f1)" by fastforce
  show "reachable_file args (snd (save_local now args (enc d) f))"
    using r reachable_file_deny [OF save_local_run(1) [OF s p]] s by simp
next
  fix now args d f e f1 p q assume "save_local now args (enc d) f = (e, f1)" "local_path args = Some p"
    "pathClean q \<noteq> pathClean p" "fs_node f q \<noteq> None"
  then show "fs_node f1 q = fs_node f q" by (rule save_local_run(3))
qed

interpretation vpp_db: saved_db SaveVppConfig LoadVppConfig zero_VppSavedData
proof -
  have save: "SaveVppConfig = (\<lambda>now args d. save_local now args (Marshal (enc_VppSavedData d)))"
    by (intro ext) (simp add: SaveVppConfig_def)
  have load: "LoadVppConfig = load_local (\<lambda>s. Unmarshal (dec_struct vpp_saved_fields) s zero_VppSavedData) zero_VppSavedData ''VPP''"
    by (intro ext) (simp add: LoadVppConfig_def)
  show "saved_db SaveVppConfig LoadVppConfig zero_VppSavedData"
    unfolding save load by (rule saved_db_local) (rule vpp_saved_decode)
qed

interpretation ovs_db: saved_db SaveConfig LoadConfig zero_OvsSavedData
proof -
  have save: "SaveConfig = (\<lambda>now args d. save_local now args (Marshal (enc_OvsSavedData d)))"
    by (intro ext) (simp add: SaveConfig_def)
  have load: "LoadConfig = load_local (\<lambda>s. Unmarshal (dec_struct ovs_saved_fields) s zero_OvsSavedData) zero_OvsSavedData ''OVS''"
    by (intro ext) (simp add: LoadConfig_def)
  show "saved_db SaveConfig LoadConfig zero_OvsSavedData"
    unfolding save load by (rule saved_db_local) (rule ovs_saved_decode)
qed

section \<open>Properties\<close>

text \<open>
  C37: What an ADD of the VPP engine saves, the DEL of the same interface gets back, once: the load returns
  the interface index and the socket id that were saved, and a further load finds nothing and returns
  zero values. The same holds for the names and addresses that the OVS engine saves.
\<close>

theorem saved_data_roundtrip:
  assumes "reachable_file args f"
  shows "(SaveVppConfig now args d f = (None, f1) \<longrightarrow>
      (\<exists>f2. LoadVppConfig args f1 = (Inr d, f2) \<and> fst (LoadVppConfig args f2) = Inr zero_VppSavedData)) \<and>
    (SaveConfig now args o' f = (None, f1') \<longrightarrow>
      (\<exists>f2. LoadConfig args f1' = (Inr o', f2) \<and> fst (LoadConfig args f2) = Inr zero_OvsSavedData))"
  using vpp_db.load_once [OF _ assms] ovs_db.load_once [OF _ assms] by metis

theorem saved_data_roundtrip_witness:
  "\<exists>f1 f2. SaveVppConfig 7 sample_args \<lparr>InterfaceSwIfIndex = 5, MemifSocketId = 1\<rparr> sample_annot_fs = (None, f1) \<and>
     LoadVppConfig sample_args f1 = (Inr \<lparr>InterfaceSwIfIndex = 5, MemifSocketId = 1\<rparr>, f2)"
proof -
  have r: "reachable_file sample_args sample_annot_fs"
    by (simp add: reachable_file_def local_name_def slice12_def sample_args_def sample_annot_fs_def zero_CmdArgs_def
        plain_name_def)
  have "fst (SaveVppConfig 7 sample_args \<lparr>InterfaceSwIfIndex = 5, MemifSocketId = 1\<rparr> sample_annot_fs) = None" by code_simp
  then obtain f1 where "SaveVppConfig 7 sample_args \<lparr>InterfaceSwIfIndex = 5, MemifSocketId = 1\<rparr> sample_annot_fs = (None, f1)"
    by (metis prod.collapse)
  with saved_data_roundtrip [OF r, of 7 "\<lparr>InterfaceSwIfIndex = 5, MemifSocketId = 1\<rparr>" f1] show ?thesis by blast
qed

end
