(* ===== verification/Cni_Vpp.thy ===== *)
theory Cni_Vpp
  imports Saved_Db Vpp_Memif Vpp_Bridge Vpp_Iface
begin

text \<open>
  The VPP engine of the plugin, \<open>cnivpp/cnivpp.go\<close>: adding an interface on the host and handing the
  other end to the container, and taking both away again. The functions change the configuration they
  are given (socket file and mode), which the container's half is then derived from, so they return it.
  Whether the connection to VPP opens is an argument; so is the group database of the operating
  system. A slice beyond the end of a container id panics.
\<close>

section \<open>Socket files\<close>

definition getMemifSocketfileName :: "NetConf \<Rightarrow> string \<Rightarrow> string \<Rightarrow> string \<Rightarrow> string \<times> NetConf" where
  "getMemifSocketfileName conf sharedDir containerID ifName =
     (let name = SocketFileName (mc_Socketfile (host_memif conf)) containerID ifName
      in (pathJoin sharedDir name, set_memif conf ((host_memif conf)\<lparr>mc_Socketfile := name\<rparr>)))"

definition getVhostSocketfileName :: "NetConf \<Rightarrow> string \<Rightarrow> string \<Rightarrow> string \<Rightarrow> (string \<times> NetConf) option" where
  "getVhostSocketfileName conf sharedDir containerID ifName =
     (if vc_Socketfile (host_vhost conf) \<noteq> [] then Some (pathJoin sharedDir (vc_Socketfile (host_vhost conf)), conf)
      else
        (case slice12 containerID of
           None \<Rightarrow> None
         | Some cid \<Rightarrow>
             (let name = cid @ ''-'' @ ifName
              in Some (pathJoin sharedDir name, set_vhost conf ((host_vhost conf)\<lparr>vc_Socketfile := name\<rparr>)))))"

section \<open>Local devices\<close>

definition chgrpSocket :: "(string \<Rightarrow> string result) \<Rightarrow> string \<Rightarrow> string \<Rightarrow> fs \<Rightarrow> go_error option" where
  "chgrpSocket groups socketPath grp f =
     (case groups grp of
        Inl e \<Rightarrow> Some e
      | Inr gid \<Rightarrow>
          (case parseInt gid of
             Inl e \<Rightarrow> Some (ENum e)
           | Inr _ \<Rightarrow> map_option EFs (os_Chown socketPath f)))"

text \<open>The role and the mode of the host's memif; an empty mode becomes ethernet in the configuration too.\<close>

definition memif_role :: "string \<Rightarrow> u32 result" where
  "memif_role role =
     (if role = ''master'' then Inr RoleMaster else if role = ''slave'' then Inr RoleSlave
      else Inl (EMsg (''ERROR: Invalid MEMIF Role: '' @ role)))"

definition memif_mode :: "string \<Rightarrow> u32 result" where
  "memif_mode mode =
     (if mode = ''ethernet'' then Inr ModeEthernet else if mode = ''ip'' then Inr ModeIP
      else if mode = ''inject-punt'' then Inr ModePuntInject
      else Inl (EMsg (''ERROR: Invalid MEMIF Mode: '' @ mode)))"

definition memif_params :: "NetConf \<Rightarrow> u32 \<Rightarrow> u32 \<Rightarrow> u32 \<Rightarrow> CreateParams" where
  "memif_params conf socketID role mode =
     (let c = host_memif conf
      in \<lparr>cp_SocketID = socketID, cp_Role = role, cp_Mode = mode, cp_RxQueues = mc_RxQueues c,
          cp_TxQueues = mc_TxQueues c, cp_RingSize = mc_RingSize c, cp_BufferSize = mc_BufferSize c,
          cp_Secret = mc_Secret c, cp_NoZeroCopy = mc_NoZeroCopy c, cp_UseDma = mc_UseDma c,
          cp_HwAddr = MAC (HostConf conf)\<rparr>)"

text \<open>The functions below return the saved data or an error, and the configuration.\<close>

definition addLocalDeviceMemif ::
  "'v vpp_api \<Rightarrow> NetConf \<Rightarrow> CmdArgs \<Rightarrow> string \<Rightarrow> ('v, 'm) world_scheme \<Rightarrow>
   (VppSavedData result \<times> NetConf) \<times> ('v, 'm) world_scheme" where
  "addLocalDeviceMemif V conf args sharedDir w =
     (case getMemifSocketfileName conf sharedDir (ContainerID args) (ca_IfName args) of
        (path, conf1) \<Rightarrow>
          (case memif_role (mc_Role (host_memif conf1)) of
             Inl e \<Rightarrow> ((Inl e, conf1), w)
           | Inr role \<Rightarrow>
               (let conf2 = (if mc_Mode (host_memif conf1) = []
                             then set_memif conf1 ((host_memif conf1)\<lparr>mc_Mode := ''ethernet''\<rparr>) else conf1)
                in (case memif_mode (mc_Mode (host_memif conf2)) of
                      Inl e \<Rightarrow> ((Inl e, conf2), w)
                    | Inr mode \<Rightarrow>
                        (case CreateMemifSocket V path w of
                           (Inl e, w1) \<Rightarrow> ((Inl e, conf2), w1)
                         | (Inr socketID, w1) \<Rightarrow>
                             (case CreateMemifInterface V (memif_params conf2 socketID role mode) w1 of
                                (Inl e, w2) \<Rightarrow> ((Inl e, conf2), w2)
                              | (Inr i, w2) \<Rightarrow>
                                  ((Inr \<lparr>InterfaceSwIfIndex = i, MemifSocketId = socketID\<rparr>, conf2), w2)))))))"

definition addLocalDeviceVhostUser ::
  "'v vpp_api \<Rightarrow> NetConf \<Rightarrow> CmdArgs \<Rightarrow> string \<Rightarrow> ('v, 'm) world_scheme \<Rightarrow>
   (VppSavedData result \<times> NetConf) \<times> ('v, 'm) world_scheme" where
  "addLocalDeviceVhostUser V conf args sharedDir w =
     (case getVhostSocketfileName conf sharedDir (ContainerID args) (ca_IfName args) of
        None \<Rightarrow> ((Inl EPanic, conf), w)
      | Some (path, conf1) \<Rightarrow>
          (let c = host_vhost conf1
           in (case CreateVhostUserInterface V
                      \<lparr>vp_IsServer = (vc_Mode c \<noteq> ''client''), vp_SockFilename = path, vp_EnableGso = vc_EnableGso c,
                       vp_EnablePacked = vc_EnablePacked c, vp_EnableEventIdx = vc_EnableEventIdx c,
                       vp_MAC = MAC (HostConf conf1)\<rparr> w of
                 (Inl e, w1) \<Rightarrow> ((Inl e, conf1), w1)
               | (Inr i, w1) \<Rightarrow> ((Inr (zero_VppSavedData\<lparr>InterfaceSwIfIndex := i\<rparr>), conf1), w1))))"

text \<open>
  In server mode the group of the socket is set; a failure is logged only and the ownership of files is
  not part of the state, so \<^const>\<open>chgrpSocket\<close> has no effect on it.
\<close>

definition delLocalDeviceVhostUser ::
  "'v vpp_api \<Rightarrow> NetConf \<Rightarrow> CmdArgs \<Rightarrow> string \<Rightarrow> VppSavedData \<Rightarrow> ('v, 'm) world_scheme \<Rightarrow>
   go_error option \<times> ('v, 'm) world_scheme" where
  "delLocalDeviceVhostUser V conf args sharedDir data w =
     (case DeleteVhostUserInterface V (InterfaceSwIfIndex data) w of
        (Some e, w1) \<Rightarrow> (Some e, w1)
      | (None, w1) \<Rightarrow>
          (case getVhostSocketfileName conf sharedDir (ContainerID args) (ca_IfName args) of
             None \<Rightarrow> (Some EPanic, w1)
           | Some (path, _) \<Rightarrow> (None, snd (on_fs (FileCleanup [] path) w1))))"

text \<open>The socket file is cleaned up when the function returns, whatever VPP answered.\<close>

definition delLocalDeviceMemif ::
  "'v vpp_api \<Rightarrow> NetConf \<Rightarrow> CmdArgs \<Rightarrow> string \<Rightarrow> VppSavedData \<Rightarrow> bool \<Rightarrow> ('v, 'm) world_scheme \<Rightarrow>
   go_error option \<times> ('v, 'm) world_scheme" where
  "delLocalDeviceMemif V conf args sharedDir data memifGone w =
     (case getMemifSocketfileName conf sharedDir (ContainerID args) (ca_IfName args) of
        (path, _) \<Rightarrow>
          (case (if memifGone then (None, w)
                 else
                   (case DeleteMemifInterface V (InterfaceSwIfIndex data) w of
                      (Some e, w1) \<Rightarrow> (Some (EWrap ''delLocalDeviceMemif(vpp): Error deleting memif inteface'' e), w1)
                    | (None, w1) \<Rightarrow> (None, w1))) of
             (e, w1) \<Rightarrow> (e, snd (on_fs (FileCleanup [] path) w1))))"

section \<open>ADD\<close>

text \<open>The bridge domain of an ADD: the name wins over the deprecated id.\<close>

definition add_bridge_domain :: "BridgeConf \<Rightarrow> u32 result" where
  "add_bridge_domain b =
     (if BridgeName b \<noteq> [] then
        (case parseUint32 (BridgeName b) of Inl e \<Rightarrow> Inl (ENum e) | Inr n \<Rightarrow> Inr (word_of_int n))
      else Inr (word_of_int (BridgeId b)))"

text \<open>Joining the interface to its network.\<close>

definition add_network ::
  "'v vpp_api \<Rightarrow> UserSpaceConf \<Rightarrow> u32 \<Rightarrow> Result option \<Rightarrow> ('v, 'm) world_scheme \<Rightarrow>
   go_error option \<times> ('v, 'm) world_scheme" where
  "add_network V host i ipResult w =
     (if NetType host = ''bridge'' then
        (case add_bridge_domain (uc_BridgeConf host) of
           Inl e \<Rightarrow> (Some e, w)
         | Inr bd \<Rightarrow> AddBridgeInterface V bd i w)
      else if NetType host = ''interface'' then
        (case ipResult of
           None \<Rightarrow> (None, w)
         | Some r \<Rightarrow> if IPs r = [] then (None, w) else AddDelIpAddress V i True r w)
      else if NetType host \<noteq> [] then (Some (EMsg (''ERROR: Unknown HostConf.NetType:'' @ NetType host)), w)
      else (Some (EMsg ''ERROR: NetType must be provided''), w))"

definition vpp_AddOnHost ::
  "'v vpp_api \<Rightarrow> go_error option \<Rightarrow> NetConf \<Rightarrow> CmdArgs \<Rightarrow> string \<Rightarrow> Result option \<Rightarrow> ('v, 'm) world_scheme \<Rightarrow>
   (go_error option \<times> NetConf) \<times> ('v, 'm) world_scheme" where
  "vpp_AddOnHost V openCh conf args sharedDir ipResult w =
     (case slice12 (ContainerID args) of
        None \<Rightarrow> ((Some EPanic, conf), w)
      | Some _ \<Rightarrow>
          (case openCh of
             Some e \<Rightarrow> ((Some e, conf), w)
           | None \<Rightarrow>
               (case (if IfType (HostConf conf) = ''memif'' then addLocalDeviceMemif V conf args sharedDir w
                      else if IfType (HostConf conf) = ''vhostuser'' then addLocalDeviceVhostUser V conf args sharedDir w
                      else ((Inl (EMsg (''ERROR: Unknown HostConf.IfType:'' @ IfType (HostConf conf))), conf), w)) of
                  ((Inl e, conf1), w1) \<Rightarrow> ((Some e, conf1), w1)
                | ((Inr data, conf1), w1) \<Rightarrow>
                    (case SetState V (InterfaceSwIfIndex data) 1 w1 of
                       (Some e, w2) \<Rightarrow> ((Some e, conf1), w2)
                     | (None, w2) \<Rightarrow>
                         (case (if 0 < MTU (HostConf conf1)
                                then SetMtu V (InterfaceSwIfIndex data) (word_of_int (MTU (HostConf conf1))) w2
                                else (None, w2)) of
                            (Some e, w3) \<Rightarrow> ((Some e, conf1), w3)
                          | (None, w3) \<Rightarrow>
                              (case add_network V (HostConf conf1) (InterfaceSwIfIndex data) ipResult w3 of
                                 (Some e, w4) \<Rightarrow> ((Some e, conf1), w4)
                               | (None, w4) \<Rightarrow>
                                   (case on_fs (SaveVppConfig (clock w4) args data) w4 of
                                      (e, w5) \<Rightarrow> ((e, conf1), w5))))))))"

definition vpp_AddOnContainer ::
  "'k kube_api \<Rightarrow> cni_lib \<Rightarrow> NetConf \<Rightarrow> CmdArgs \<Rightarrow> bool \<Rightarrow> string \<Rightarrow> Pod option \<Rightarrow> Result option \<Rightarrow>
   ('v, 'k, 'm) node_scheme \<Rightarrow> (Pod option \<times> go_error option) \<times> ('v, 'k, 'm) node_scheme" where
  "vpp_AddOnContainer K L conf args client sharedDir pod ipResult w =
     (case slice12 (ContainerID args) of
        None \<Rightarrow> ((None, Some EPanic), w)
      | Some _ \<Rightarrow> SaveRemoteConfig K L (Some conf) (Some args) client sharedDir pod ipResult w)"

section \<open>DEL\<close>

text \<open>The interface that the socket of the configuration has now, for a memif.\<close>

definition current_index ::
  "'v vpp_api \<Rightarrow> NetConf \<Rightarrow> CmdArgs \<Rightarrow> string \<Rightarrow> VppSavedData \<Rightarrow> 'v \<Rightarrow> (VppSavedData \<times> bool) \<times> NetConf" where
  "current_index V conf args sharedDir data v =
     (if IfType (HostConf conf) = ''memif'' then
        (case getMemifSocketfileName conf sharedDir (ContainerID args) (ca_IfName args) of
           (path, conf1) \<Rightarrow>
             (case FindMemifBySocket V v path of
                (i, True) \<Rightarrow> ((data\<lparr>InterfaceSwIfIndex := i\<rparr>, False), conf1)
              | (_, False) \<Rightarrow> ((data, True), conf1)))
      else ((data, False), conf))"

definition vpp_DelFromHost ::
  "'v vpp_api \<Rightarrow> go_error option \<Rightarrow> NetConf \<Rightarrow> CmdArgs \<Rightarrow> string \<Rightarrow> ('v, 'm) world_scheme \<Rightarrow>
   go_error option \<times> ('v, 'm) world_scheme" where
  "vpp_DelFromHost V openCh conf args sharedDir w =
     (case slice12 (ContainerID args) of
        None \<Rightarrow> (Some EPanic, w)
      | Some _ \<Rightarrow>
          (case openCh of
             Some e \<Rightarrow> (Some e, w)
           | None \<Rightarrow>
               (case on_fs (LoadVppConfig args) w of
                  (Inl e, w1) \<Rightarrow> (Some e, w1)
                | (Inr data0, w1) \<Rightarrow>
                    (case current_index V conf args sharedDir data0 (vst w1) of
                       ((data, memifGone), conf1) \<Rightarrow>
                         (let w2 = (if NetType (HostConf conf1) = ''bridge'' \<and> \<not> memifGone
                                    then snd (RemoveBridgeInterface V (word_of_int (BridgeId (uc_BridgeConf (HostConf conf1))))
                                                (InterfaceSwIfIndex data) w1)
                                    else w1)
                          in if IfType (HostConf conf1) = ''memif''
                             then delLocalDeviceMemif V conf1 args sharedDir data memifGone w2
                             else if IfType (HostConf conf1) = ''vhostuser''
                             then delLocalDeviceVhostUser V conf1 args sharedDir data w2
                             else (Some (EMsg (''ERROR: Unknown HostConf.IfType: '' @ IfType (HostConf conf1))), w2))))))"

definition vpp_DelFromContainer :: "CmdArgs \<Rightarrow> string \<Rightarrow> ('v, 'm) world_scheme \<Rightarrow> go_error option \<times> ('v, 'm) world_scheme" where
  "vpp_DelFromContainer args sharedDir w =
     (case slice12 (ContainerID args) of
        None \<Rightarrow> (Some EPanic, w)
      | Some _ \<Rightarrow> (None, snd (on_fs (FileCleanup sharedDir []) w)))"

section \<open>What the calls do to the memif tables\<close>

lemma FindMemifBySocket_True:
  assumes wf: "vpp_wf V v" and run: "FindMemifBySocket V v f = (i, True)"
  obtains s d where "s \<in> set (socks V v)" "sd_SocketFilename s = f" "d \<in> set (memifs V v)"
    "det_SocketID d = sd_SocketID s" "det_SwIfIndex d = i"
proof (rule findMemifSocket_cases [OF wf, of f])
  fix s assume s: "s \<in> set (socks V v)" "sd_SocketFilename s = f" "findMemifSocket V v f = (True, sd_SocketID s)"
  with run obtain d where d: "find (\<lambda>d. det_SocketID d = sd_SocketID s) (memifs V v) = Some d" "det_SwIfIndex d = i"
    by (auto simp: FindMemifBySocket_clean [OF wf] split: option.splits)
  from d(1) have "d \<in> set (memifs V v)" "det_SocketID d = sd_SocketID s" by (auto simp: find_Some_iff)
  with s d(2) that show thesis by blast
next
  fix k assume "findMemifSocket V v f = (False, k)"
  with run show thesis by (simp add: FindMemifBySocket_clean [OF wf])
qed

text \<open>The socket that an interface of this configuration has.\<close>

definition own_socket :: "NetConf \<Rightarrow> CmdArgs \<Rightarrow> string \<Rightarrow> string" where
  "own_socket conf args sharedDir = fst (getMemifSocketfileName conf sharedDir (ContainerID args) (ca_IfName args))"

lemma SocketFileName_again:
  "SocketFileName (SocketFileName name cid ifn) cid ifn = SocketFileName name cid ifn" "SocketFileName name cid ifn \<noteq> []"
  by (simp_all add: SocketFileName_def)

lemma getMemifSocketfileName_again:
  "getMemifSocketfileName conf dir cid ifn = (p, conf1) \<Longrightarrow> fst (getMemifSocketfileName conf1 dir cid ifn) = p"
  "getMemifSocketfileName conf dir cid ifn = (p, conf1) \<Longrightarrow> IfType (HostConf conf1) = IfType (HostConf conf)"
  by (auto simp: getMemifSocketfileName_def Let_def set_memif_def SocketFileName_again)

definition on_socket :: "'v vpp_api \<Rightarrow> 'v \<Rightarrow> string \<Rightarrow> memif_details set" where
  "on_socket V v f = {d \<in> set (memifs V v). \<exists>s\<in>set (socks V v). sd_SocketID s = det_SocketID d \<and> sd_SocketFilename s = f}"

context vpp_channel
begin

lemma delLocalDeviceMemif_tables:
  assumes inv: "vinv (vst w)" and run: "delLocalDeviceMemif V conf args dir data gone w = (e, w')"
  shows "vinv (vst w')" and "gone \<Longrightarrow> vst w' = vst w \<and> e = None"
    and "\<not> gone \<Longrightarrow> set (memifs V (vst w')) = set (memifs V (vst w)) \<or>
      set (memifs V (vst w')) = {x \<in> set (memifs V (vst w)). det_SwIfIndex x \<noteq> InterfaceSwIfIndex data}"
    and "\<not> gone \<Longrightarrow> e = None \<Longrightarrow>
      set (memifs V (vst w')) = {x \<in> set (memifs V (vst w)). det_SwIfIndex x \<noteq> InterfaceSwIfIndex data}"
proof -
  obtain e1 w1 where d: "DeleteMemifInterface V (InterfaceSwIfIndex data) w = (e1, w1)" by fastforce
  have v: "vst w' = (if gone then vst w else vst w1)" and e: "e = None \<longleftrightarrow> gone \<or> e1 = None"
    using run d by (auto simp: delLocalDeviceMemif_def on_fs_def split: prod.splits option.splits if_splits)
  have "vinv (vst w1)" "set (memifs V (vst w1)) = set (memifs V (vst w)) \<or>
      set (memifs V (vst w1)) = {x \<in> set (memifs V (vst w)). det_SwIfIndex x \<noteq> InterfaceSwIfIndex data}"
    "e1 = None \<Longrightarrow> set (memifs V (vst w1)) = {x \<in> set (memifs V (vst w)). det_SwIfIndex x \<noteq> InterfaceSwIfIndex data}"
    using DeleteMemifInterface_ok(1,2) [OF inv, of "InterfaceSwIfIndex data" w1]
      DeleteMemifInterface_err(1,2) [OF inv, of "InterfaceSwIfIndex data" _ w1] d by (cases e1; auto)+
  with v e inv show "vinv (vst w')" "gone \<Longrightarrow> vst w' = vst w \<and> e = None"
    "\<not> gone \<Longrightarrow> set (memifs V (vst w')) = set (memifs V (vst w)) \<or>
      set (memifs V (vst w')) = {x \<in> set (memifs V (vst w)). det_SwIfIndex x \<noteq> InterfaceSwIfIndex data}"
    "\<not> gone \<Longrightarrow> e = None \<Longrightarrow>
      set (memifs V (vst w')) = {x \<in> set (memifs V (vst w)). det_SwIfIndex x \<noteq> InterfaceSwIfIndex data}"
    by simp_all
qed

text \<open>A DEL of a memif: it fails before it touches VPP, or finds no interface, or deletes the one it finds.\<close>

lemma DelFromHost_memif:
  assumes inv: "vinv (vst w)" and ty: "IfType (HostConf conf) = ''memif''"
    and run: "vpp_DelFromHost V openCh conf args dir w = (e, w')"
  obtains (fails) "vst w' = vst w" "e \<noteq> None"
  | (gone) i where "FindMemifBySocket V (vst w) (own_socket conf args dir) = (i, False)" "vst w' = vst w" "e = None"
  | (deleted) i where "FindMemifBySocket V (vst w) (own_socket conf args dir) = (i, True)" "vinv (vst w')"
      "set (memifs V (vst w')) = set (memifs V (vst w)) \<or>
       set (memifs V (vst w')) = {x \<in> set (memifs V (vst w)). det_SwIfIndex x \<noteq> i}"
      "e = None \<Longrightarrow> set (memifs V (vst w')) = {x \<in> set (memifs V (vst w)). det_SwIfIndex x \<noteq> i}"
proof (cases "slice12 (ContainerID args) = None \<or> openCh \<noteq> None")
  case True
  with run fails show thesis by (auto simp: vpp_DelFromHost_def split: option.splits)
next
  case False
  then have op: "slice12 (ContainerID args) \<noteq> None" "openCh = None" by simp_all
  obtain ld w1 where l: "on_fs (LoadVppConfig args) w = (ld, w1)" by fastforce
  have v1: "vst w1 = vst w" using on_fs_frame [OF l] by simp
  show thesis
  proof (cases ld)
    case (Inl e1)
    with run op l v1 fails show thesis by (auto simp: vpp_DelFromHost_def split: option.splits)
  next
    case (Inr data0)
    obtain p conf1 where g: "getMemifSocketfileName conf dir (ContainerID args) (ca_IfName args) = (p, conf1)" by fastforce
    then have p: "own_socket conf args dir = p" by (simp add: own_socket_def)
    note c1 = getMemifSocketfileName_again [OF g]
    obtain i b where f: "FindMemifBySocket V (vst w) p = (i, b)" by fastforce
    show thesis
    proof (cases b)
      case False
      then have "delLocalDeviceMemif V conf1 args dir data0 True w1 = (e, w')"
        using run op l Inr g f v1 ty c1(2) by (auto simp: vpp_DelFromHost_def current_index_def split: option.splits)
      from delLocalDeviceMemif_tables(2) [OF _ this] inv v1 show thesis using gone [of i] f False p by simp
    next
      case True
      define data where "data = data0\<lparr>InterfaceSwIfIndex := i\<rparr>"
      define w2 where "w2 = (if NetType (HostConf conf1) = ''bridge'' then snd (RemoveBridgeInterface V
          (word_of_int (BridgeId (uc_BridgeConf (HostConf conf1)))) i w1) else w1)"
      have del: "delLocalDeviceMemif V conf1 args dir data False w2 = (e, w')"
        using run op l Inr g f v1 ty c1(2) True
        by (auto simp: vpp_DelFromHost_def current_index_def data_def w2_def Let_def split: option.splits)
      have w2: "vinv (vst w2)" "same_memif V (vst w1) (vst w2)"
        using RemoveBridgeInterface_frame [OF _ prod.collapse [symmetric], of w1] inv v1
        by (auto simp: w2_def same_memif_def)
      note t = delLocalDeviceMemif_tables [OF w2(1) del]
      have "set (memifs V (vst w2)) = set (memifs V (vst w))" using w2(2) v1 by (simp add: same_memif_def)
      then show thesis using deleted [of i] f True p t(1,3,4) by (simp add: data_def)
    qed
  qed
qed

end

text \<open>The calls that a successful ADD of a memif makes.\<close>

lemma AddOnHost_memif_run:
  assumes "IfType (HostConf conf) = ''memif''" and "vpp_AddOnHost V openCh conf args dir r w = ((None, conf'), w')"
  obtains data w1 w2 w3 w4 where "addLocalDeviceMemif V conf args dir w = ((Inr data, conf'), w1)"
    "SetState V (InterfaceSwIfIndex data) 1 w1 = (None, w2)"
    "(if 0 < MTU (HostConf conf') then SetMtu V (InterfaceSwIfIndex data) (word_of_int (MTU (HostConf conf'))) w2
      else (None, w2)) = (None, w3)"
    "add_network V (HostConf conf') (InterfaceSwIfIndex data) r w3 = (None, w4)"
    "on_fs (SaveVppConfig (clock w4) args data) w4 = (None, w')"
  using assms unfolding vpp_AddOnHost_def
  by (auto split: option.splits prod.splits sum.splits if_splits simp del: word_of_int_0)

context vpp_channel
begin

lemma own_index:
  assumes inv: "vinv v" and f: "FindMemifBySocket V v p = (i, True)"
    and d: "d \<in> set (memifs V v)" "det_SwIfIndex d = i"
  shows "d \<in> on_socket V v p"
proof (rule FindMemifBySocket_True [OF inv_wf [OF inv] f])
  fix s d' assume a: "s \<in> set (socks V v)" "sd_SocketFilename s = p" "d' \<in> set (memifs V v)"
    "det_SocketID d' = sd_SocketID s" "det_SwIfIndex d' = i"
  then have "d' = d" using memif_index_inject [OF inv_wf [OF inv] d(1) a(3)] d(2) by simp
  then show ?thesis using a d(1) unfolding on_socket_def by auto
qed

lemma DelFromHost_keeps:
  assumes inv: "vinv (vst w)" and ty: "IfType (HostConf conf) = ''memif''"
    and run: "vpp_DelFromHost V openCh conf args dir w = (e, w')"
  shows "set (memifs V (vst w)) - on_socket V (vst w) (own_socket conf args dir) \<subseteq> set (memifs V (vst w'))"
    and "set (memifs V (vst w')) \<subseteq> set (memifs V (vst w))"
    and "on_socket V (vst w) (own_socket conf args dir) = {} \<Longrightarrow> vst w' = vst w"
proof -
  let ?p = "own_socket conf args dir"
  have "set (memifs V (vst w)) - on_socket V (vst w) ?p \<subseteq> set (memifs V (vst w')) \<and>
    set (memifs V (vst w')) \<subseteq> set (memifs V (vst w)) \<and> (on_socket V (vst w) ?p = {} \<longrightarrow> vst w' = vst w)"
    using inv ty run
  proof (cases rule: DelFromHost_memif)
    case (deleted i)
    have "on_socket V (vst w) ?p \<noteq> {}"
      using FindMemifBySocket_True [OF inv_wf [OF inv] deleted(1)] own_index [OF inv deleted(1)] by blast
    moreover have "set (memifs V (vst w)) - on_socket V (vst w) ?p \<subseteq> set (memifs V (vst w'))"
      using deleted(3) own_index [OF inv deleted(1)] by blast
    ultimately show ?thesis using deleted(3) by blast
  qed simp_all
  then show "set (memifs V (vst w)) - on_socket V (vst w) ?p \<subseteq> set (memifs V (vst w'))"
    "set (memifs V (vst w')) \<subseteq> set (memifs V (vst w))"
    "on_socket V (vst w) ?p = {} \<Longrightarrow> vst w' = vst w" by simp_all
qed

text \<open>When nothing is on its socket, a DEL that can reach VPP and read its saved data succeeds.\<close>

lemma DelFromHost_absent:
  assumes inv: "vinv (vst w)" and ty: "IfType (HostConf conf) = ''memif''" and "slice12 (ContainerID args) \<noteq> None"
    and "on_socket V (vst w) (own_socket conf args dir) = {}" and "LoadVppConfig args (fsys w) = (Inr data, f)"
  shows "\<exists>w'. vpp_DelFromHost V None conf args dir w = (None, w')"
proof -
  obtain path conf1 where p: "getMemifSocketfileName conf dir (ContainerID args) (ca_IfName args) = (path, conf1)" by fastforce
  have path: "path = own_socket conf args dir" and ty1: "IfType (HostConf conf1) = ''memif''"
    using p ty by (auto simp: own_socket_def getMemifSocketfileName_def set_memif_def Let_def split: if_splits)
  have "\<not> snd (FindMemifBySocket V (vst w) path)"
    using FindMemifBySocket_True [OF inv_wf [OF inv], of path "fst (FindMemifBySocket V (vst w) path)"] own_index [OF inv] assms(4) path
    by (metis empty_iff prod.collapse)
  then obtain i where "FindMemifBySocket V (vst w) path = (i, False)" by (metis prod.collapse)
  with assms(3,5) p ty ty1 show ?thesis
    by (auto simp: vpp_DelFromHost_def on_fs_def current_index_def delLocalDeviceMemif_def Let_def split: option.splits prod.splits)
qed

text \<open>The calls of a successful ADD that reach the memif tables.\<close>

lemma add_network_frame:
  assumes "vinv (vst w)" and "add_network V host i r w = (e, w')"
  shows "vinv (vst w') \<and> same_memif V (vst w) (vst w') \<and> fsys w' = fsys w \<and> clock w' = clock w"
  using assms AddBridgeInterface_frame [OF assms(1)] AddDelIpAddress_frame [OF assms(1)]
  by (auto simp: add_network_def split: if_splits sum.splits option.splits)

lemma AddOnHost_memif:
  assumes inv: "vinv (vst w)" and ty: "IfType (HostConf conf) = ''memif''"
    and run: "vpp_AddOnHost V openCh conf args dir r w = ((None, conf'), w')"
  obtains k wa role mode conf2 i wb where "CreateMemifSocket V (own_socket conf args dir) w = (Inr k, wa)"
    "CreateMemifInterface V (memif_params conf2 k role mode) wa = (Inr i, wb)"
    "vinv (vst w')" "same_memif V (vst wb) (vst w')"
proof -
  obtain data w1 w2 w3 w4 where
    dev: "addLocalDeviceMemif V conf args dir w = ((Inr data, conf'), w1)"
    and up: "SetState V (InterfaceSwIfIndex data) 1 w1 = (None, w2)"
    and mtu: "(if 0 < MTU (HostConf conf') then SetMtu V (InterfaceSwIfIndex data) (word_of_int (MTU (HostConf conf'))) w2
        else (None, w2)) = (None, w3)"
    and net: "add_network V (HostConf conf') (InterfaceSwIfIndex data) r w3 = (None, w4)"
    and sv: "on_fs (SaveVppConfig (clock w4) args data) w4 = (None, w')"
    by (rule AddOnHost_memif_run [OF ty run])
  from dev obtain k wa role mode conf2 i wb where c: "CreateMemifSocket V (own_socket conf args dir) w = (Inr k, wa)"
    "CreateMemifInterface V (memif_params conf2 k role mode) wa = (Inr i, wb)" "w1 = wb"
    unfolding addLocalDeviceMemif_def own_socket_def
    by (auto simp: Let_def split: prod.splits sum.splits)
  have "vinv (vst wb)"
    using CreateMemifInterface_ok(1) [OF CreateMemifSocket_ok(1) [OF inv c(1)] c(2)] .
  then have f2: "vinv (vst w2) \<and> same_memif V (vst wb) (vst w2)" using SetState_frame [OF _ up] c(3) by simp
  then have f3: "vinv (vst w3) \<and> same_memif V (vst wb) (vst w3)"
    using mtu SetMtu_frame [of w2 _ _ None w3] same_memif_trans [of V "vst wb" "vst w2" "vst w3"]
    by (cases "0 < MTU (HostConf conf')") auto
  then have f4: "vinv (vst w4) \<and> same_memif V (vst wb) (vst w4)"
    using add_network_frame [OF conjunct1 [OF f3] net] same_memif_trans [of V "vst wb" "vst w3" "vst w4"] by simp
  have "vst w' = vst w4" using on_fs_frame [OF sv] by simp
  then show thesis using that [OF c(1,2)] f4 by simp
qed

end

text \<open>A DEL in a state with the same VPP as after the ADD takes away what the ADD created.\<close>

lemma memif_add_del_at:
  assumes "vpp_channel V vinv" and "vinv (vst w)" and "IfType (HostConf conf) = ''memif''"
    and "own_socket conf args sharedDir \<notin> sd_SocketFilename ` set (socks V (vst w))"
    and "vpp_AddOnHost V openCh conf args sharedDir r w = ((None, conf'), w1)"
    and "vpp_DelFromHost V openCh' conf args sharedDir w1' = (None, w2)" and same: "vst w1' = vst w1"
  shows "set (memifs V (vst w2)) = set (memifs V (vst w))"
proof -
  let ?p = "own_socket conf args sharedDir"
  obtain k wa role mode conf2 i wb where c: "CreateMemifSocket V ?p w = (Inr k, wa)"
    "CreateMemifInterface V (memif_params conf2 k role mode) wa = (Inr i, wb)"
    "vinv (vst w1)" "same_memif V (vst wb) (vst w1)"
    by (rule vpp_channel.AddOnHost_memif [OF assms(1-3,5)])
  note s = vpp_channel.CreateMemifSocket_ok [OF assms(1,2) c(1)]
  note m = vpp_channel.CreateMemifInterface_ok [OF assms(1) s(1) c(2)]
  note wf = vpp_channel.inv_wf [OF assms(1,2)] vpp_channel.inv_wf [OF assms(1) c(3)]
  obtain hw where hw: "set (memifs V (vst w1)) =
      insert (details_of (memif_request (memif_params conf2 k role mode) hw) i) (set (memifs V (vst w)))"
    using m(2) s(2) c(4) by (auto simp: same_memif_def)
  let ?d = "details_of (memif_request (memif_params conf2 k role mode) hw) i"
  have d: "det_SocketID ?d = k" "det_SwIfIndex ?d = i"
    by (simp_all add: details_of_def memif_request_def memif_params_def Let_def)
  let ?s = "\<lparr>sd_SocketID = k, sd_SocketFilename = ?p\<rparr>"
  have sk: "set (socks V (vst w1)) = insert ?s (set (socks V (vst w)))" using s(3) m(4) c(4) by (simp add: same_memif_def)
  have new: "k \<notin> det_SocketID ` set (memifs V (vst w))"
  proof
    assume "k \<in> det_SocketID ` set (memifs V (vst w))"
    then obtain t where t: "t \<in> set (socks V (vst w))" "sd_SocketID t = k"
      using wf(1) by (force simp: vpp_wf_def)
    have "t \<in> set (socks V (vst w1))" "?s \<in> set (socks V (vst w1))" using t(1) unfolding sk by blast+
    from socket_id_inject [OF wf(2) this] have "t = ?s" using t(2) by simp
    then have "?p = sd_SocketFilename t" by simp
    then show False using t(1) assms(4) by (metis imageI)
  qed
  show ?thesis
  proof (rule vpp_channel.DelFromHost_memif [OF assms(1) _ assms(3,6), unfolded same])
    show "vinv (vst w1)" by (rule c(3))
  next
    fix j assume "FindMemifBySocket V (vst w1) ?p = (j, False)"
    then show ?thesis using FindMemifBySocket_found [OF wf(2), of ?s ?p ?d] sk hw d by auto
  next
    fix j assume j: "FindMemifBySocket V (vst w1) ?p = (j, True)"
      "(None :: go_error option) = None \<Longrightarrow> set (memifs V (vst w2)) = {x \<in> set (memifs V (vst w1)). det_SwIfIndex x \<noteq> j}"
    note del = j(1) j(2) [OF refl]
    have idx: "det_SwIfIndex ` set (memifs V (vst w)) \<inter> {i} = {}" using m(3) s(2) by simp
    obtain t x where t: "t \<in> set (socks V (vst w1))" "sd_SocketFilename t = ?p" "x \<in> set (memifs V (vst w1))"
      "det_SocketID x = sd_SocketID t" "det_SwIfIndex x = j"
      using FindMemifBySocket_True [OF wf(2) del(1)] by blast
    then have "t = ?s" using socket_file_inject [OF wf(2), of t ?s] sk by simp
    then have "x = ?d" using t(3,4) hw new by auto
    then have "j = i" using t(5) d(2) by simp
    then show ?thesis using del(2) hw d(2) idx by auto
  qed simp
qed

section \<open>Properties\<close>

text \<open>
  C32: A DEL touches the memif of its own interface only. Whatever the saved data say (the saved index may
  be stale after a restart of VPP) and whether or not the DEL succeeds, every memif on another socket
  stays, no memif appears, and if no memif is on the interface's socket then VPP is left as it is.
\<close>

theorem DelFromHost_only_own_memif:
  assumes "vpp_channel V vinv" and "vinv (vst w)" and "IfType (HostConf conf) = ''memif''"
    and "vpp_DelFromHost V openCh conf args sharedDir w = (e, w')"
  shows "set (memifs V (vst w)) - on_socket V (vst w) (own_socket conf args sharedDir) \<subseteq> set (memifs V (vst w')) \<and>
    set (memifs V (vst w')) \<subseteq> set (memifs V (vst w)) \<and>
    (on_socket V (vst w) (own_socket conf args sharedDir) = {} \<longrightarrow> vst w' = vst w)"
  using vpp_channel.DelFromHost_keeps [OF assms] by blast

text \<open>
  ADD and DEL are inverse on VPP's memifs. When the ADD of a memif interface whose socket was not
  registered before succeeds, and then the DEL with the same configuration succeeds, VPP has the
  memifs it had before the ADD.
\<close>

theorem memif_add_del:
  assumes "vpp_channel V vinv" and "vinv (vst w)" and "IfType (HostConf conf) = ''memif''"
    and "own_socket conf args sharedDir \<notin> sd_SocketFilename ` set (socks V (vst w))"
    and "vpp_AddOnHost V openCh conf args sharedDir r w = ((None, conf'), w1)"
    and "vpp_DelFromHost V openCh' conf args sharedDir w1 = (None, w2)"
  shows "set (memifs V (vst w2)) = set (memifs V (vst w))"
  by (rule memif_add_del_at [OF assms refl])

theorem DelFromHost_only_own_memif_witness:
  "vst (snd (vpp_DelFromHost sample_vpp None sample_netconf sample_args ''/run/vpp'' sample_one)) = vst sample_one"
proof -
  have "own_socket sample_netconf sample_args ''/run/vpp'' \<notin> set (map sd_SocketFilename (sp_socks (vst sample_one)))"
    by code_simp
  then have none: "on_socket sample_vpp (vst sample_one) (own_socket sample_netconf sample_args ''/run/vpp'') = {}"
    by (force simp: on_socket_def)
  have ty: "IfType (HostConf sample_netconf) = ''memif''" by (simp add: sample_netconf_def)
  from DelFromHost_only_own_memif [OF sample.vpp_channel_axioms sample_ok_one ty prod.collapse [symmetric],
      where openCh = None and args = sample_args and sharedDir = "''/run/vpp''"] none
  show ?thesis by simp
qed

theorem memif_add_del_witness:
  "let w1 = snd (vpp_AddOnHost sample_vpp None sample_netconf sample_args ''/run/vpp'' None sample_world);
       w2 = snd (vpp_DelFromHost sample_vpp None sample_netconf sample_args ''/run/vpp'' w1)
   in length (memifs sample_vpp (vst w1)) = 1 \<and> set (memifs sample_vpp (vst w2)) = {}"
proof -
  let ?a = "vpp_AddOnHost sample_vpp None sample_netconf sample_args ''/run/vpp'' None sample_world"
  let ?d = "vpp_DelFromHost sample_vpp None sample_netconf sample_args ''/run/vpp'' (snd ?a)"
  have "case ?a of ((e, c), w1) \<Rightarrow> e = None \<and> length (sp_memifs (vst w1)) = 1 \<and>
      fst (vpp_DelFromHost sample_vpp None sample_netconf sample_args ''/run/vpp'' w1) = None" by code_simp
  then have run: "fst (fst ?a) = None" "length (sp_memifs (vst (snd ?a))) = 1" "fst ?d = None"
    by (simp_all add: case_prod_unfold)
  from run(1) have a: "?a = ((None, snd (fst ?a)), snd ?a)" by (metis prod.collapse)
  from run(3) have d: "?d = (None, snd ?d)" by (metis prod.collapse)
  have ty: "IfType (HostConf sample_netconf) = ''memif''" by (simp add: sample_netconf_def)
  have "own_socket sample_netconf sample_args ''/run/vpp'' \<notin> set (map sd_SocketFilename (sp_socks (vst sample_world)))"
    by code_simp
  then have new: "own_socket sample_netconf sample_args ''/run/vpp'' \<notin> sd_SocketFilename ` set (socks sample_vpp (vst sample_world))"
    by simp
  have "sp_memifs (vst sample_world) = []" by code_simp
  with run(2) memif_add_del [OF sample.vpp_channel_axioms sample_ok_world ty new a d] show ?thesis by (simp add: Let_def)
qed

end
