(* ===== verification/Ovs_Db.thy ===== *)
theory Ovs_Db
  imports Config_Data
begin

text \<open>
  The OVSDB operations of \<open>cniovs/ovsdb.go\<close>: the transactions that create and delete bridges and
  vhost-user ports, and the lookups. The database server and the client library \<open>libovsdb\<close> are not
  part of the repository: the client, the transaction and the constructors of sets and maps are the
  fields of a record, over a state type \<open>'o\<close>.
\<close>

section \<open>Values and operations\<close>

datatype ovs_val = OString string | OInt int | OUuid string | OSet "ovs_val list" | OMap "(string \<times> string) list" | OReal

type_synonym ovs_row = "(string \<times> ovs_val) list"

datatype ovs_cmp = ConditionEqual | ConditionNotEqual

record ovs_cond =
  oc_Column :: string
  oc_Function :: ovs_cmp
  oc_Value :: ovs_val

datatype ovs_mutator = MutateInsert | MutateDelete

record ovs_mutation =
  mu_Column :: string
  mu_Mutator :: ovs_mutator
  mu_Value :: ovs_val

record ovs_op =
  op_Op :: string
  op_Table :: string
  op_Row :: ovs_row
  op_UUIDName :: string
  op_Where :: "ovs_cond list"
  op_Columns :: "string list"
  op_Mutations :: "ovs_mutation list"

definition zero_op :: ovs_op where
  "zero_op = \<lparr>op_Op = [], op_Table = [], op_Row = [], op_UUIDName = [], op_Where = [], op_Columns = [], op_Mutations = []\<rparr>"

record ovs_result =
  res_Error :: string
  res_Details :: string
  res_Rows :: "ovs_row list"

record 'o ovs_api =
  ovs_model :: "go_error option"
  ovs_client :: "go_error option"
  ovs_connect :: "go_error option"
  ovs_transact :: "ovs_op list \<Rightarrow> 'o \<Rightarrow> (ovs_result list) result \<times> 'o"
  ovs_new_set :: "ovs_val list \<Rightarrow> ovs_val result"
  ovs_new_map :: "(string \<times> string) list \<Rightarrow> ovs_val result"

definition defaultOVSSocketDir :: string where
  "defaultOVSSocketDir = ''/usr/local/var/run/openvswitch/''"

definition tblOpenvSwitch :: string where "tblOpenvSwitch = ''Open_vSwitch''"
definition tblBridge :: string where "tblBridge = ''Bridge''"
definition tblPort :: string where "tblPort = ''Port''"
definition tblInterface :: string where "tblInterface = ''Interface''"
definition ovsCNIOwner :: string where "ovsCNIOwner = ''userspace-cni''"

definition zeroUUID :: ovs_val where
  "zeroUUID = OUuid ''00000000-0000-0000-0000-000000000000''"

section \<open>Transactions\<close>

text \<open>The error of the client, which is connected once per process.\<close>

definition getOvsClient :: "'o ovs_api \<Rightarrow> go_error option" where
  "getOvsClient O' =
     (case ovs_model O' of
        Some e \<Rightarrow> Some (EWrap ''create OVSDB client model'' e)
      | None \<Rightarrow>
          (case ovs_client O' of
             Some e \<Rightarrow> Some (EWrap ''create OVSDB client'' e)
           | None \<Rightarrow> map_option (EWrap ''connect to OVSDB at unix:/var/run/openvswitch/db.sock'') (ovs_connect O')))"

definition transact :: "'o ovs_api \<Rightarrow> ovs_op list \<Rightarrow> 'o \<Rightarrow> (ovs_result list) result \<times> 'o" where
  "transact O' ops s =
     (case getOvsClient O' of
        Some e \<Rightarrow> (Inl e, s)
      | None \<Rightarrow>
          (case ovs_transact O' ops s of
             (Inl e, s1) \<Rightarrow> (Inl (EWrap ''OVSDB transact'' e), s1)
           | (Inr reply, s1) \<Rightarrow>
               if length reply < length ops then (Inl (EMsg ''OVSDB transact: fewer replies than ops''), s1)
               else
                 (case find (\<lambda>(i, r). res_Error r \<noteq> []) (enumerate 0 reply) of
                    Some (i, r) \<Rightarrow> 
                      (Inl (EOvs (''OVSDB op '' @ show_nat i @ '': '' @ res_Error r @ '' '' @ [CHR 0xE2, CHR 0x80, CHR 0x94] @
                         '' '' @ res_Details r)), s1)
                  | None \<Rightarrow> (Inr reply, s1))))"

definition select_op :: "string \<Rightarrow> ovs_cond \<Rightarrow> string list \<Rightarrow> ovs_op" where
  "select_op tbl cond columns = zero_op\<lparr>op_Op := ''select'', op_Table := tbl, op_Where := [cond], op_Columns := columns\<rparr>"

definition selectRows :: "'o ovs_api \<Rightarrow> string \<Rightarrow> ovs_cond \<Rightarrow> string list \<Rightarrow> 'o \<Rightarrow> (ovs_row list) result \<times> 'o" where
  "selectRows O' tbl cond columns s =
     (case transact O' [select_op tbl cond columns] s of
        (Inl e, s1) \<Rightarrow> (Inl e, s1)
      | (Inr reply, s1) \<Rightarrow> (Inr (res_Rows (hd reply)), s1))"

definition name_is :: "string \<Rightarrow> ovs_cond" where
  "name_is n = \<lparr>oc_Column = ''name'', oc_Function = ConditionEqual, oc_Value = OString n\<rparr>"

text \<open>The condition that holds of the single row of the root table.\<close>

definition any_row :: ovs_cond where
  "any_row = \<lparr>oc_Column = ''_uuid'', oc_Function = ConditionNotEqual, oc_Value = zeroUUID\<rparr>"

definition mutate_op :: "string \<Rightarrow> ovs_cond \<Rightarrow> string \<Rightarrow> ovs_mutator \<Rightarrow> ovs_val \<Rightarrow> ovs_op" where
  "mutate_op tbl cond column m v = zero_op\<lparr>op_Op := ''mutate'', op_Table := tbl, op_Where := [cond],
     op_Mutations := [\<lparr>mu_Column = column, mu_Mutator = m, mu_Value = v\<rparr>]\<rparr>"

definition insert_op :: "string \<Rightarrow> ovs_row \<Rightarrow> string \<Rightarrow> ovs_op" where
  "insert_op tbl row uuidName = zero_op\<lparr>op_Op := ''insert'', op_Table := tbl, op_Row := row, op_UUIDName := uuidName\<rparr>"

definition delete_op :: "string \<Rightarrow> ovs_cond \<Rightarrow> ovs_op" where
  "delete_op tbl cond = zero_op\<lparr>op_Op := ''delete'', op_Table := tbl, op_Where := [cond]\<rparr>"

section \<open>Bridges\<close>

definition ovs_createBridge :: "'o ovs_api \<Rightarrow> string \<Rightarrow> 'o \<Rightarrow> go_error option \<times> 'o" where
  "ovs_createBridge O' bridgeName s =
     (case ovs_new_set O' [OUuid ''newbridge''] of
        Inl e \<Rightarrow> (Some (EWrap ''createBridge: build bridges set'' e), s)
      | Inr bridgesSet \<Rightarrow>
          (case transact O'
                  [insert_op tblBridge [(''name'', OString bridgeName), (''datapath_type'', OString ''netdev'')] ''newbridge'',
                   mutate_op tblOpenvSwitch any_row ''bridges'' MutateInsert bridgesSet] s of
             (Inl e, s1) \<Rightarrow> (Some (EWrap (''createBridge '' @ bridgeName) e), s1)
           | (Inr _, s1) \<Rightarrow> (None, s1)))"

text \<open>The UUID of the row with a given name.\<close>

definition row_uuid :: "string \<Rightarrow> string \<Rightarrow> (ovs_row list) result \<Rightarrow> ovs_val result" where
  "row_uuid what n rows =
     (case rows of
        Inl e \<Rightarrow> Inl e
      | Inr [] \<Rightarrow> Inl (EMsg (what @ '' '' @ n @ '' not found''))
      | Inr (row # _) \<Rightarrow>
          (case map_of row ''_uuid'' of
             Some (OUuid u) \<Rightarrow> Inr (OUuid u)
           | _ \<Rightarrow> Inl (EMsg (what @ '' '' @ n @ '': _uuid has unexpected type''))))"

definition bridgeUUID :: "'o ovs_api \<Rightarrow> string \<Rightarrow> 'o \<Rightarrow> ovs_val result \<times> 'o" where
  "bridgeUUID O' bridgeName s =
     (case selectRows O' tblBridge (name_is bridgeName) [''_uuid''] s of (rows, s1) \<Rightarrow> (row_uuid ''bridge'' bridgeName rows, s1))"

definition ovs_deleteBridge :: "'o ovs_api \<Rightarrow> string \<Rightarrow> 'o \<Rightarrow> go_error option \<times> 'o" where
  "ovs_deleteBridge O' bridgeName s =
     (case bridgeUUID O' bridgeName s of
        (Inl e, s1) \<Rightarrow> (Some e, s1)
      | (Inr uuid, s1) \<Rightarrow>
          (case ovs_new_set O' [uuid] of
             Inl e \<Rightarrow> (Some (EWrap ''deleteBridge: build bridges set'' e), s1)
           | Inr bridgesSet \<Rightarrow>
               (case transact O' [delete_op tblBridge (name_is bridgeName),
                                  mutate_op tblOpenvSwitch any_row ''bridges'' MutateDelete bridgesSet] s1 of
                  (Inl e, s2) \<Rightarrow> (Some (EWrap (''deleteBridge '' @ bridgeName) e), s2)
                | (Inr _, s2) \<Rightarrow> (None, s2))))"

definition ovs_findBridge :: "'o ovs_api \<Rightarrow> string \<Rightarrow> 'o \<Rightarrow> bool \<times> 'o" where
  "ovs_findBridge O' bridgeName s =
     (case selectRows O' tblBridge (name_is bridgeName) [''name''] s of
        (Inl e, s1) \<Rightarrow> (False, s1)
      | (Inr rows, s1) \<Rightarrow> (0 < length rows, s1))"

definition portsSetNonEmpty :: "ovs_row \<Rightarrow> bool" where
  "portsSetNonEmpty row =
     (case map_of row ''ports'' of
        None \<Rightarrow> False
      | Some (OSet xs) \<Rightarrow> 0 < length xs
      | Some (OUuid _) \<Rightarrow> True
      | Some _ \<Rightarrow> False)"

definition doesBridgeContainInterfaces :: "'o ovs_api \<Rightarrow> string \<Rightarrow> 'o \<Rightarrow> bool \<times> 'o" where
  "doesBridgeContainInterfaces O' bridgeName s =
     (case selectRows O' tblBridge (name_is bridgeName) [''ports''] s of
        (Inl e, s1) \<Rightarrow> (False, s1)
      | (Inr [], s1) \<Rightarrow> (False, s1)
      | (Inr (row # _), s1) \<Rightarrow> (portsSetNonEmpty row, s1))"

section \<open>Ports\<close>

record vhostPortConfig =
  vp_containerID :: string
  vp_ifName :: string
  vp_ovnPort :: string
  vp_mtu :: int
  vp_vlanID :: int
  vp_trunks :: "int list"
  vp_vlanMode :: string
  vp_ingressRate :: int
  vp_ingressBurst :: int

text \<open>The ownership tags, and the binding to an OVN port if there is one.\<close>

definition ext_ids :: "vhostPortConfig \<Rightarrow> (string \<times> string) list" where
  "ext_ids cfg =
     [(''owner'', ovsCNIOwner), (''container-id'', vp_containerID cfg), (''interface'', vp_ifName cfg)] @
     (if vp_ovnPort cfg \<noteq> [] then [(''iface-id'', vp_ovnPort cfg)] else [])"

definition intf_row :: "string \<Rightarrow> bool \<Rightarrow> vhostPortConfig \<Rightarrow> ovs_val \<Rightarrow> ovs_row" where
  "intf_row sockName client cfg extIDs =
     [(''name'', OString sockName),
      (''type'', OString (if client then ''dpdkvhostuserclient'' else ''dpdkvhostuser'')),
      (''external_ids'', extIDs)] @
     (if 0 < vp_mtu cfg then [(''mtu_request'', OInt (vp_mtu cfg))] else []) @
     (if 0 < vp_ingressRate cfg then
        [(''ingress_policing_rate'', OInt (vp_ingressRate cfg))] @
        (if 0 < vp_ingressBurst cfg then [(''ingress_policing_burst'', OInt (vp_ingressBurst cfg))] else [])
      else [])"

definition port_row :: "string \<Rightarrow> vhostPortConfig \<Rightarrow> ovs_val \<Rightarrow> ovs_row" where
  "port_row sockName cfg intfSet =
     [(''name'', OString sockName), (''interfaces'', intfSet)] @
     (if vp_vlanMode cfg \<noteq> [] then [(''vlan_mode'', OString (vp_vlanMode cfg))] else []) @
     (if 0 < vp_vlanID cfg then [(''tag'', OInt (vp_vlanID cfg))] else [])"

text \<open>The three operations of the transaction, or the error of one of the constructors.\<close>

definition vhost_ops :: "'o ovs_api \<Rightarrow> string \<Rightarrow> string \<Rightarrow> bool \<Rightarrow> string \<Rightarrow> vhostPortConfig \<Rightarrow> (ovs_op list) result" where
  "vhost_ops O' sockDir sockName client bridgeName cfg =
     (case ovs_new_map O' (ext_ids cfg) of
        Inl e \<Rightarrow> Inl (EWrap ''createVhostPort: build external_ids map'' e)
      | Inr extIDs \<Rightarrow>
          (case (if client then
                   (case ovs_new_map O' [(''vhost-server-path'', pathJoin sockDir sockName)] of
                      Inl e \<Rightarrow> Inl (EWrap ''createVhostPort: build options map'' e)
                    | Inr opts \<Rightarrow> Inr [(''options'', opts)])
                 else Inr []) of
             Inl e \<Rightarrow> Inl e
           | Inr options \<Rightarrow>
               (case ovs_new_set O' [OUuid ''newintf''] of
                  Inl e \<Rightarrow> Inl (EWrap ''createVhostPort: build interfaces set'' e)
                | Inr intfSet \<Rightarrow>
                    (case (if vp_trunks cfg \<noteq> [] then
                             (case ovs_new_set O' (map OInt (vp_trunks cfg)) of
                                Inl e \<Rightarrow> Inl (EWrap ''createVhostPort: build trunks set'' e)
                              | Inr ts \<Rightarrow> Inr [(''trunks'', ts)])
                           else Inr []) of
                       Inl e \<Rightarrow> Inl e
                     | Inr trunks \<Rightarrow>
                         (case ovs_new_set O' [OUuid ''newport''] of
                            Inl e \<Rightarrow> Inl (EWrap ''createVhostPort: build ports set'' e)
                          | Inr portSet \<Rightarrow>
                              Inr [insert_op tblInterface (intf_row sockName client cfg extIDs @ options) ''newintf'',
                                   insert_op tblPort (port_row sockName cfg intfSet @ trunks) ''newport'',
                                   mutate_op tblBridge (name_is bridgeName) ''ports'' MutateInsert portSet])))))"

text \<open>
  The state of a CNI call: the node with its cluster, and the database of OVS. The socket that
  \<open>ovs-vswitchd\<close> creates for a server port appears in the file system by itself.
\<close>

record ('v, 'k, 'o) cni_node = "('v, 'k) node" +
  ost :: 'o

definition on_ovs :: "('o \<Rightarrow> 'a \<times> 'o) \<Rightarrow> ('v, 'k, 'o, 'm) cni_node_scheme \<Rightarrow> 'a \<times> ('v, 'k, 'o, 'm) cni_node_scheme" where
  "on_ovs req w = (case req (ost w) of (r, s) \<Rightarrow> (r, w\<lparr>ost := s\<rparr>))"

text \<open>In server mode the socket is moved to the shared directory; a failure to do so is logged only.\<close>

definition createVhostPort ::
  "'o ovs_api \<Rightarrow> string \<Rightarrow> string \<Rightarrow> bool \<Rightarrow> string \<Rightarrow> vhostPortConfig \<Rightarrow> ('v, 'k, 'o, 'm) cni_node_scheme \<Rightarrow>
   string result \<times> ('v, 'k, 'o, 'm) cni_node_scheme" where
  "createVhostPort O' sockDir sockName client bridgeName cfg w =
     (case vhost_ops O' sockDir sockName client bridgeName cfg of
        Inl e \<Rightarrow> (Inl e, w)
      | Inr ops \<Rightarrow>
          (case on_ovs (transact O' ops) w of
             (Inl e, w1) \<Rightarrow> (Inl (EWrap (''createVhostPort '' @ sockName @ '' on bridge '' @ bridgeName) e), w1)
           | (Inr _, w1) \<Rightarrow>
               if client then (Inr sockName, w1)
               else (Inr sockName, snd (on_fs (os_Rename (pathJoin defaultOVSSocketDir sockName) (pathJoin sockDir sockName)) w1))))"

definition portUUID :: "'o ovs_api \<Rightarrow> string \<Rightarrow> 'o \<Rightarrow> ovs_val result \<times> 'o" where
  "portUUID O' portName s =
     (case selectRows O' tblPort (name_is portName) [''_uuid''] s of (rows, s1) \<Rightarrow> (row_uuid ''port'' portName rows, s1))"

definition deleteVhostPort :: "'o ovs_api \<Rightarrow> string \<Rightarrow> string \<Rightarrow> 'o \<Rightarrow> go_error option \<times> 'o" where
  "deleteVhostPort O' sockName bridgeName s =
     (case portUUID O' sockName s of
        (Inl e, s1) \<Rightarrow> (None, s1)
      | (Inr uuid, s1) \<Rightarrow>
          (case ovs_new_set O' [uuid] of
             Inl e \<Rightarrow> (Some (EWrap ''deleteVhostPort: build ports set'' e), s1)
           | Inr portSet \<Rightarrow>
               (case transact O' [delete_op tblInterface (name_is sockName), delete_op tblPort (name_is sockName),
                                  mutate_op tblBridge (name_is bridgeName) ''ports'' MutateDelete portSet] s1 of
                  (Inl e, s2) \<Rightarrow> (Some (EWrap (''deleteVhostPort '' @ sockName @ '' on bridge '' @ bridgeName) e), s2)
                | (Inr _, s2) \<Rightarrow> (None, s2))))"

definition macFromValue :: "ovs_val \<Rightarrow> string" where
  "macFromValue v =
     (case v of
        OString s \<Rightarrow> s
      | OSet [] \<Rightarrow> []
      | OSet (OString s # _) \<Rightarrow> s
      | _ \<Rightarrow> [])"

definition getVhostPortMac :: "'o ovs_api \<Rightarrow> string \<Rightarrow> 'o \<Rightarrow> string result \<times> 'o" where
  "getVhostPortMac O' sockName s =
     (case selectRows O' tblPort (name_is sockName) [''mac''] s of
        (Inl e, s1) \<Rightarrow> (Inl (EWrap (''getVhostPortMac '' @ sockName) e), s1)
      | (Inr [], s1) \<Rightarrow> (Inl (EMsg (''port '' @ sockName @ '' not found'')), s1)
      | (Inr (row # _), s1) \<Rightarrow>
          (case map_of row ''mac'' of None \<Rightarrow> (Inr [], s1) | Some v \<Rightarrow> (Inr (macFromValue v), s1)))"

end
