(* ===== verification/Ovn.thy ===== *)
theory Ovn
  imports Conf_Json "HOL-Library.Multiset"
begin

text \<open>
  The OVN arguments of an attachment, \<open>cniovs/ovn.go\<close>: the logical port and the MAC address come from
  the \<open>CNI_ARGS\<close> variable or else from the map \<open>args.cni\<close> of the configuration. Go visits the entries
  of a map in an arbitrary order; the model takes them in the order of a list, and the order is shown
  not to matter when no two keys are equal up to case.
\<close>

section \<open>Resolution\<close>

definition ovnIntegrationBridge :: string where
  "ovnIntegrationBridge = ''br-int''"

text \<open>A raw value as a string: \<open>null\<close> leaves the empty string and is no error.\<close>

definition decodeArgString :: "json \<Rightarrow> string option" where
  "decodeArgString raw = (case dec_string raw [] of Inl _ \<Rightarrow> None | Inr s \<Rightarrow> Some s)"

text \<open>
  The two variables of the loop with the flags that say whether each is still wanted. The loop returns
  when neither is.
\<close>

record fallback =
  fb_mac :: string
  fb_port :: string
  wantMAC :: bool
  wantOvnPort :: bool

definition fallback_entry :: "string \<times> json \<Rightarrow> fallback \<Rightarrow> fallback" where
  "fallback_entry kv st =
     (let k = toLower (fst kv)
      in if k = ''mac'' then
           (if wantMAC st then
              (case decodeArgString (snd kv) of None \<Rightarrow> st | Some v \<Rightarrow> st\<lparr>fb_mac := v, wantMAC := False\<rparr>)
            else st)
         else if k = ''ovnport'' then
           (if wantOvnPort st then
              (case decodeArgString (snd kv) of None \<Rightarrow> st | Some v \<Rightarrow> st\<lparr>fb_port := v, wantOvnPort := False\<rparr>)
            else st)
         else st)"

fun fallback_loop :: "(string \<times> json) list \<Rightarrow> fallback \<Rightarrow> fallback" where
  "fallback_loop [] st = st"
| "fallback_loop (kv # kvs) st =
     (let st1 = fallback_entry kv st
      in if \<not> wantMAC st1 \<and> \<not> wantOvnPort st1 then st1 else fallback_loop kvs st1)"

definition applyConfArgsFallback :: "NetConf \<Rightarrow> string \<Rightarrow> string \<Rightarrow> string \<times> string" where
  "applyConfArgsFallback conf mac ovnPort =
     (case nc_Args conf of
        None \<Rightarrow> (mac, ovnPort)
      | Some cni \<Rightarrow>
          if mac \<noteq> [] \<and> ovnPort \<noteq> [] then (mac, ovnPort)
          else
            (let st = fallback_loop cni \<lparr>fb_mac = mac, fb_port = ovnPort, wantMAC = (mac = []), wantOvnPort = (ovnPort = [])\<rparr>
             in (fb_mac st, fb_port st)))"

text \<open>
  \<open>loadArgs\<close> stands for the CNI library's parser of \<open>CNI_ARGS\<close>: the logical port and the MAC of the text.
  The result is the logical port and the MAC.
\<close>

definition resolveOvnArgs :: "(string \<Rightarrow> (string \<times> string) result) \<Rightarrow> NetConf \<Rightarrow> CmdArgs \<Rightarrow> string \<times> string" where
  "resolveOvnArgs loadArgs conf args =
     (let (ovnPort, mac) = (if ca_Args args \<noteq> [] then
                              (case loadArgs (ca_Args args) of Inl _ \<Rightarrow> ([], []) | Inr pm \<Rightarrow> pm)
                            else ([], []))
      in if ovnPort = [] \<or> mac = [] then
           (case applyConfArgsFallback conf mac ovnPort of (mac1, port1) \<Rightarrow> (port1, mac1))
         else (ovnPort, mac))"

section \<open>The loop as a lookup\<close>

text \<open>The first entry for a key, up to case, that is a string.\<close>

definition first_string :: "string \<Rightarrow> (string \<times> json) list \<Rightarrow> string option" where
  "first_string k kvs =
     (case filter (\<lambda>kv. toLower (fst kv) = k \<and> decodeArgString (snd kv) \<noteq> None) kvs of
        [] \<Rightarrow> None | kv # _ \<Rightarrow> decodeArgString (snd kv))"

lemma first_string_Cons:
  "first_string k (kv # kvs) =
     (if toLower (fst kv) = k \<and> decodeArgString (snd kv) \<noteq> None then decodeArgString (snd kv) else first_string k kvs)"
  by (auto simp: first_string_def)

lemma fallback_loop_eq:
  "wantMAC st \<or> wantOvnPort st \<Longrightarrow>
   fb_mac (fallback_loop kvs st) =
     (if wantMAC st then case first_string ''mac'' kvs of None \<Rightarrow> fb_mac st | Some v \<Rightarrow> v else fb_mac st) \<and>
   fb_port (fallback_loop kvs st) =
     (if wantOvnPort st then case first_string ''ovnport'' kvs of None \<Rightarrow> fb_port st | Some v \<Rightarrow> v else fb_port st)"
proof (induction kvs arbitrary: st)
  case Nil
  then show ?case by (simp add: first_string_def)
next
  case (Cons kv kvs)
  let ?st = "fallback_entry kv st"
  have e: "wantMAC ?st = (wantMAC st \<and> \<not> (toLower (fst kv) = ''mac'' \<and> decodeArgString (snd kv) \<noteq> None))"
    "wantOvnPort ?st = (wantOvnPort st \<and> \<not> (toLower (fst kv) = ''ovnport'' \<and> decodeArgString (snd kv) \<noteq> None))"
    "fb_mac ?st = (if wantMAC st \<and> toLower (fst kv) = ''mac'' then
       case decodeArgString (snd kv) of None \<Rightarrow> fb_mac st | Some v \<Rightarrow> v else fb_mac st)"
    "fb_port ?st = (if wantOvnPort st \<and> toLower (fst kv) = ''ovnport'' then
       case decodeArgString (snd kv) of None \<Rightarrow> fb_port st | Some v \<Rightarrow> v else fb_port st)"
    by (auto simp: fallback_entry_def Let_def split: option.splits)
  show ?case
  proof (cases "wantMAC ?st \<or> wantOvnPort ?st")
    case True
    then have "fallback_loop (kv # kvs) st = fallback_loop kvs ?st" by (auto simp: Let_def)
    then show ?thesis using Cons.IH [OF True] e by (auto simp: first_string_Cons split: option.splits)
  next
    case False
    then have "fallback_loop (kv # kvs) st = ?st" by (auto simp: Let_def)
    then show ?thesis using False e Cons.prems by (auto simp: first_string_Cons split: option.splits)
  qed
qed

text \<open>With keys that differ up to case there is at most one candidate, so the order does not matter.\<close>

lemma short_mset_eq: "mset xs = mset ys \<Longrightarrow> length xs \<le> 1 \<Longrightarrow> xs = ys"
  by (cases xs) (auto simp: mset_single_iff dest: sym)

lemma first_string_perm:
  assumes "mset kvs = mset kvs'" and "distinct (map (toLower \<circ> fst) kvs)"
  shows "first_string k kvs = first_string k kvs'"
proof -
  let ?P = "\<lambda>kv. toLower (fst kv) = k \<and> decodeArgString (snd kv) \<noteq> None"
  have le: "length (filter ?P kvs) \<le> 1"
  proof (rule ccontr)
    assume "\<not> length (filter ?P kvs) \<le> 1"
    then obtain a b r where f: "filter ?P kvs = a # b # r" by (cases "filter ?P kvs"; cases "tl (filter ?P kvs)") auto
    have "distinct (map (toLower \<circ> fst) (filter ?P kvs))" using assms(2) by (rule distinct_map_filter)
    moreover have "a \<in> set (filter ?P kvs)" "b \<in> set (filter ?P kvs)" unfolding f by simp_all
    then have "toLower (fst a) = k" "toLower (fst b) = k" by simp_all
    ultimately show False unfolding f by simp
  qed
  have m: "mset (filter ?P kvs) = mset (filter ?P kvs')" using assms(1) by (simp add: mset_filter)
  have "filter ?P kvs = filter ?P kvs'" by (rule short_mset_eq [OF m le])
  then show ?thesis by (simp add: first_string_def)
qed

lemma applyConfArgsFallback_eq:
  "applyConfArgsFallback (conf\<lparr>nc_Args := Some cni\<rparr>) mac port =
     ((if mac = [] then case first_string ''mac'' cni of None \<Rightarrow> mac | Some v \<Rightarrow> v else mac),
      (if port = [] then case first_string ''ovnport'' cni of None \<Rightarrow> port | Some v \<Rightarrow> v else port))"
proof (cases "mac = [] \<or> port = []")
  case True
  let ?st = "\<lparr>fb_mac = mac, fb_port = port, wantMAC = (mac = []), wantOvnPort = (port = [])\<rparr>"
  have "applyConfArgsFallback (conf\<lparr>nc_Args := Some cni\<rparr>) mac port = (fb_mac (fallback_loop cni ?st), fb_port (fallback_loop cni ?st))"
    using True by (auto simp: applyConfArgsFallback_def Let_def)
  moreover have "wantMAC ?st \<or> wantOvnPort ?st" using True by simp
  note fallback_loop_eq [OF this, of cni, unfolded fallback.select_convs]
  ultimately show ?thesis by simp
next
  case False
  then show ?thesis by (simp add: applyConfArgsFallback_def Let_def)
qed

section \<open>Properties\<close>

text \<open>
  C39: The OVN arguments do not depend on the order in which Go happens to visit the map of arguments:
  if no two keys are equal up to case, every order gives the same logical port and MAC, each taken from
  \<open>CNI_ARGS\<close> if it is there, and else from the entry of the map for it.
\<close>

theorem resolveOvnArgs_order:
  assumes "mset cni = mset cni'" and "distinct (map (toLower \<circ> fst) cni)"
  shows "resolveOvnArgs loadArgs (conf\<lparr>nc_Args := Some cni\<rparr>) args = resolveOvnArgs loadArgs (conf\<lparr>nc_Args := Some cni'\<rparr>) args"
proof -
  have "applyConfArgsFallback (conf\<lparr>nc_Args := Some cni\<rparr>) m p = applyConfArgsFallback (conf\<lparr>nc_Args := Some cni'\<rparr>) m p" for m p
    unfolding applyConfArgsFallback_eq first_string_perm [OF assms] by (rule refl)
  then show ?thesis by (simp only: resolveOvnArgs_def)
qed

theorem resolveOvnArgs_order_witness:
  "resolveOvnArgs (\<lambda>_. Inl EJson) (zero_NetConf\<lparr>nc_Args := Some [(''MAC'', JStr ''aa''), (''OvnPort'', JStr ''p1'')]\<rparr>)
     \<lparr>ContainerID = [], Netns = [], ca_IfName = [], ca_Args = ''x'', StdinData = []\<rparr> = (''p1'', ''aa'') \<and>
   resolveOvnArgs (\<lambda>_. Inl EJson) (zero_NetConf\<lparr>nc_Args := Some [(''OvnPort'', JStr ''p1''), (''MAC'', JStr ''aa'')]\<rparr>)
     \<lparr>ContainerID = [], Netns = [], ca_IfName = [], ca_Args = ''x'', StdinData = []\<rparr> = (''p1'', ''aa'')"
proof -
  let ?a = "\<lparr>ContainerID = [], Netns = [], ca_IfName = [], ca_Args = ''x'', StdinData = []\<rparr>"
  let ?m = "[(''MAC'', JStr ''aa''), (''OvnPort'', JStr ''p1'')]" and ?n = "[(''OvnPort'', JStr ''p1''), (''MAC'', JStr ''aa'')]"
  have "distinct (map (toLower \<circ> fst) ?m)" by code_simp
  then have "resolveOvnArgs (\<lambda>_. Inl EJson) (zero_NetConf\<lparr>nc_Args := Some ?m\<rparr>) ?a =
      resolveOvnArgs (\<lambda>_. Inl EJson) (zero_NetConf\<lparr>nc_Args := Some ?n\<rparr>) ?a"
    by (intro resolveOvnArgs_order) simp_all
  moreover have "resolveOvnArgs (\<lambda>_. Inl EJson) (zero_NetConf\<lparr>nc_Args := Some ?m\<rparr>) ?a = (''p1'', ''aa'')" by code_simp
  ultimately show ?thesis by simp
qed

end
