(* ===== verification/Cni_Ovs.thy ===== *)
theory Cni_Ovs
  imports Saved_Db Ovs_Db Ovn
begin

text \<open>
  The OVS-DPDK engine of the plugin, \<open>cniovs/cniovs.go\<close>: the bridge and the vhost-user port on the host,
  the directory of its socket, the hand-over to the container, and the way back. The kernel's mounts,
  the group database, the random bytes, the general regular expressions of Go and the CNI library's
  parser of \<open>CNI_ARGS\<close> are fields of a record.
\<close>

section \<open>The host\<close>

definition defaultBridge :: string where
  "defaultBridge = ''br0''"

definition DefaultHostVhostuserBaseDir :: string where
  "DefaultHostVhostuserBaseDir = ''/var/lib/vhost_sockets/''"

record host_os =
  ho_LookupGroup :: "string \<Rightarrow> string result"
  ho_Mount :: "string \<Rightarrow> string \<Rightarrow> fs \<Rightarrow> errno option \<times> fs"
  ho_Unmount :: "string \<Rightarrow> fs \<Rightarrow> errno option \<times> fs"
  ho_rand :: "(nat \<Rightarrow> u8) result"
  ho_MatchString :: "string \<Rightarrow> string \<Rightarrow> bool"
  ho_LoadArgs :: "string \<Rightarrow> (string \<times> string) result"

section \<open>Names\<close>

text \<open>\<open>%02x\<close> of a byte.\<close>

definition hex_byte :: "u8 \<Rightarrow> string" where
  "hex_byte b = [hex_char (uint b div 16), hex_char (uint b mod 16)]"

unbundle bit_operations_syntax

definition generateRandomMacAddress :: "(nat \<Rightarrow> u8) result \<Rightarrow> string" where
  "generateRandomMacAddress rnd =
     (case rnd of
        Inl _ \<Rightarrow> []
      | Inr buf \<Rightarrow> joinWith '':'' (map hex_byte [(buf 0 OR 2) AND 0xfe, buf 1, buf 2, buf 3, buf 4, buf 5]))"

text \<open>An index out of range panics.\<close>

definition getShortSharedDir :: "string \<Rightarrow> string option" where
  "getShortSharedDir sharedDir =
     (if 89 \<le> length sharedDir \<and> containsStr sharedDir ''empty-dir'' then
        (let parts = splitOn slash sharedDir
         in if 5 < length parts then Some (pathJoin DefaultHostVhostuserBaseDir (parts ! 5)) else None)
      else Some sharedDir)"

section \<open>Regular expressions\<close>

text \<open>
  \<open>regexp.MatchString(p + "*", s)\<close>. A star alone is no expression, which counts as no match. When
  \<open>p\<close> has no special character but the dot, the expression is \<open>p\<close> without its last character, which
  may follow any number of times, and it may match anywhere in \<open>s\<close>. A dot stands for one character
  that is no line feed. Other expressions are left to the library.
\<close>

definition rx_char :: "char \<Rightarrow> bool" where
  "rx_char c \<longleftrightarrow> (of_char c :: nat) < 128 \<and> c \<notin> set ''+*?()|[]{}^$'' \<and> c \<noteq> CHR 0x5C"

fun rx_prefix :: "string \<Rightarrow> string \<Rightarrow> bool" where
  "rx_prefix [] s = True"
| "rx_prefix (p # ps) [] = False"
| "rx_prefix (p # ps) (c # s) = ((if p = CHR ''.'' then c \<noteq> CHR 0x0A else c = p) \<and> rx_prefix ps s)"

fun rx_search :: "string \<Rightarrow> string \<Rightarrow> bool" where
  "rx_search p [] = rx_prefix p []"
| "rx_search p (c # s) = (rx_prefix p (c # s) \<or> rx_search p s)"

definition rx_simple :: "string \<Rightarrow> string \<Rightarrow> bool" where
  "rx_simple p s \<longleftrightarrow> list_all rx_char p \<and> (CHR ''.'' \<in> set p \<longrightarrow> list_all (\<lambda>c. (of_char c :: nat) < 128) s)"

definition match_star :: "(string \<Rightarrow> string \<Rightarrow> bool) \<Rightarrow> string \<Rightarrow> string \<Rightarrow> bool" where
  "match_star rx p s =
     (if p = [] then False else if rx_simple p s then rx_search (butlast p) s else rx (p @ ''*'') s)"

section \<open>The shared directory\<close>

definition createSharedDir :: "host_os \<Rightarrow> string \<Rightarrow> string \<Rightarrow> fs \<Rightarrow> go_error option \<times> fs" where
  "createSharedDir H sharedDir oldSharedDir f =
     (case os_Stat f sharedDir of
        Inr _ \<Rightarrow> (None, f)
      | Inl EOTHER \<Rightarrow> (Some (EFs EOTHER), f)
      | Inl ENOENT \<Rightarrow>
          (case os_MkdirAll sharedDir f of
             (Some e, f1) \<Rightarrow> (Some (EFs e), f1)
           | (None, f1) \<Rightarrow>
               if containsStr sharedDir DefaultHostVhostuserBaseDir then
                 (case ho_Mount H oldSharedDir sharedDir f1 of (e, f2) \<Rightarrow> (map_option EFs e, f2))
               else (None, f1)))"

definition setSharedDirGroup :: "host_os \<Rightarrow> string \<Rightarrow> string \<Rightarrow> fs \<Rightarrow> go_error option" where
  "setSharedDirGroup H sharedDir grp f =
     (case ho_LookupGroup H grp of
        Inl e \<Rightarrow> Some e
      | Inr gid \<Rightarrow>
          (case parseInt gid of
             Inl e \<Rightarrow> Some (ENum e)
           | Inr _ \<Rightarrow>
               (case os_Chown DefaultHostVhostuserBaseDir f of
                  Some e \<Rightarrow> Some (EFs e)
                | None \<Rightarrow> map_option EFs (os_Chown sharedDir f))))"

section \<open>Local devices\<close>

definition vhost_conf :: "NetConf \<Rightarrow> CmdArgs \<Rightarrow> string \<Rightarrow> vhostPortConfig" where
  "vhost_conf conf args ovnPort =
     (let h = HostConf conf
      in \<lparr>vp_containerID = ContainerID args, vp_ifName = ca_IfName args, vp_ovnPort = ovnPort, vp_mtu = MTU h,
          vp_vlanID = VlanId (uc_BridgeConf h), vp_trunks = Trunks (uc_BridgeConf h),
          vp_vlanMode = VlanMode (uc_BridgeConf h), vp_ingressRate = vc_IngressPolicingRate (uc_VhostConf h),
          vp_ingressBurst = vc_IngressPolicingBurst (uc_VhostConf h)\<rparr>)"

text \<open>The MAC address of the container's side: that of the CNI arguments, of the configuration, or a random one.\<close>

definition container_mac :: "host_os \<Rightarrow> NetConf \<Rightarrow> string \<Rightarrow> string" where
  "container_mac H conf ovnMac =
     (if ovnMac \<noteq> [] then ovnMac
      else if MAC (HostConf conf) \<noteq> [] then MAC (HostConf conf)
      else generateRandomMacAddress (ho_rand H))"

text \<open>The configuration with the name of its socket, if the container id is long enough for one.\<close>

definition with_socketfile :: "NetConf \<Rightarrow> CmdArgs \<Rightarrow> NetConf option" where
  "with_socketfile conf args =
     (if vc_Socketfile (host_vhost conf) \<noteq> [] then Some conf
      else map_option (\<lambda>cid. set_vhost conf ((host_vhost conf)\<lparr>vc_Socketfile := cid @ ''-'' @ ca_IfName args\<rparr>))
             (slice12 (ContainerID args)))"

definition addLocalDeviceVhost ::
  "'o ovs_api \<Rightarrow> host_os \<Rightarrow> NetConf \<Rightarrow> CmdArgs \<Rightarrow> string \<Rightarrow> string \<Rightarrow> string \<Rightarrow> ('v, 'k, 'o, 'm) cni_node_scheme \<Rightarrow>
   (OvsSavedData result \<times> NetConf) \<times> ('v, 'k, 'o, 'm) cni_node_scheme" where
  "addLocalDeviceVhost O' H conf args actualSharedDir ovnPort ovnMac w =
     (case with_socketfile conf args of
        None \<Rightarrow> ((Inl EPanic, conf), w)
      | Some conf1 \<Rightarrow>
          (case getShortSharedDir actualSharedDir of
             None \<Rightarrow> ((Inl EPanic, conf1), w)
           | Some sharedDir \<Rightarrow>
               (case on_fs (createSharedDir H sharedDir actualSharedDir) w of
                  (Some e, w1) \<Rightarrow> ((Inl e, conf1), w1)
                | (None, w1) \<Rightarrow>
                    (case (if vc_Group (host_vhost conf1) \<noteq> []
                           then setSharedDirGroup H sharedDir (vc_Group (host_vhost conf1)) (fsys w1) else None) of
                       Some e \<Rightarrow> ((Inl e, conf1), w1)
                     | None \<Rightarrow>
                         (case createVhostPort O' sharedDir (vc_Socketfile (host_vhost conf1))
                                 (vc_Mode (host_vhost conf1) = ''client'') (BridgeName (uc_BridgeConf (HostConf conf1)))
                                 (vhost_conf conf1 args ovnPort) w1 of
                            (Inl e, w2) \<Rightarrow> ((Inl e, conf1), w2)
                          | (Inr vhostName, w2) \<Rightarrow>
                              (case on_ovs (getVhostPortMac O' vhostName) w2 of
                                 (Inl e, w3) \<Rightarrow> ((Inl e, conf1), w3)
                               | (Inr mac, w3) \<Rightarrow>
                                   ((Inr \<lparr>Vhostname = vhostName, VhostMac = mac, IfMac = container_mac H conf1 ovnMac\<rparr>, conf1),
                                    w3)))))))"

text \<open>
  The loop over the files of the shared directory: those of the interface go, and if the configuration
  names a socket file, those that match its name. The result counts the removals.
\<close>

fun remove_files ::
  "(string \<Rightarrow> string \<Rightarrow> bool) \<Rightarrow> string \<Rightarrow> string \<Rightarrow> string \<Rightarrow> string list \<Rightarrow> nat \<Rightarrow> fs \<Rightarrow> nat result \<times> fs" where
  "remove_files rx base sock dir [] n f = (Inr n, f)"
| "remove_files rx base sock dir (x # xs) n f =
     (case (if match_star rx base x
            then (case os_Remove (pathJoin dir x) f of (Some e, f1) \<Rightarrow> (Inl (EFs e), f1) | (None, f1) \<Rightarrow> (Inr (Suc n), f1))
            else (Inr n, f)) of
        (Inl e, f1) \<Rightarrow> (Inl e, f1)
      | (Inr n1, f1) \<Rightarrow>
          if sock \<noteq> base \<and> match_star rx sock x
          then (case os_Remove (pathJoin dir x) f1 of
                  (Some e, f2) \<Rightarrow> (Inl (EFs e), f2)
                | (None, f2) \<Rightarrow> remove_files rx base sock dir xs (Suc n1) f2)
          else remove_files rx base sock dir xs n1 f1)"

text \<open>The directory that is a bind mount is unmounted and removed.\<close>

definition unmountSharedDir :: "host_os \<Rightarrow> string \<Rightarrow> fs \<Rightarrow> go_error option \<times> fs" where
  "unmountSharedDir H sharedDir f =
     (if os_Stat f sharedDir = Inl ENOENT then (None, f)
      else
        (case ho_Unmount H sharedDir f of
           (Some e, f1) \<Rightarrow> (Some (EFs e), f1)
         | (None, f1) \<Rightarrow> (case os_Remove sharedDir f1 of (e, f2) \<Rightarrow> (map_option EFs e, f2))))"

definition cleanSharedDir :: "host_os \<Rightarrow> NetConf \<Rightarrow> CmdArgs \<Rightarrow> string \<Rightarrow> fs \<Rightarrow> go_error option \<times> fs" where
  "cleanSharedDir H conf args sharedDir f =
     (case os_Open sharedDir f of
        Some e \<Rightarrow> (Some (EFs e), f)
      | None \<Rightarrow>
          (case slice12 (ContainerID args) of
             None \<Rightarrow> (Some EPanic, f)
           | Some cid \<Rightarrow>
               (case os_ReadDir f sharedDir of
                  Inl e \<Rightarrow> (Some (EFs e), f)
                | Inr names \<Rightarrow>
                    (case remove_files (ho_MatchString H) (cid @ ''-'' @ ca_IfName args) (vc_Socketfile (host_vhost conf))
                            sharedDir names 0 f of
                       (Inl e, f1) \<Rightarrow> (Some e, f1)
                     | (Inr n, f1) \<Rightarrow>
                         if n = length names
                         then (case os_Remove sharedDir f1 of (e, f2) \<Rightarrow> (map_option EFs e, f2))
                         else (None, f1)))))"

definition delLocalDeviceVhost ::
  "'o ovs_api \<Rightarrow> host_os \<Rightarrow> NetConf \<Rightarrow> CmdArgs \<Rightarrow> string \<Rightarrow> OvsSavedData \<Rightarrow> ('v, 'k, 'o, 'm) cni_node_scheme \<Rightarrow>
   go_error option \<times> ('v, 'k, 'o, 'm) cni_node_scheme" where
  "delLocalDeviceVhost O' H conf args actualSharedDir data w =
     (case getShortSharedDir actualSharedDir of
        None \<Rightarrow> (Some EPanic, w)
      | Some sharedDir \<Rightarrow>
          (case on_ovs (deleteVhostPort O' (Vhostname data) (BridgeName (uc_BridgeConf (HostConf conf)))) w of
             (Some e, w1) \<Rightarrow> (Some e, w1)
           | (None, w1) \<Rightarrow>
               if containsStr sharedDir DefaultHostVhostuserBaseDir then on_fs (unmountSharedDir H sharedDir) w1
               else on_fs (cleanSharedDir H conf args sharedDir) w1))"

section \<open>Bridges\<close>

definition addLocalNetworkBridge :: "'o ovs_api \<Rightarrow> NetConf \<Rightarrow> 'o \<Rightarrow> go_error option \<times> 'o" where
  "addLocalNetworkBridge O' conf s =
     (case ovs_findBridge O' (BridgeName (uc_BridgeConf (HostConf conf))) s of
        (True, s1) \<Rightarrow> (None, s1)
      | (False, s1) \<Rightarrow> ovs_createBridge O' (BridgeName (uc_BridgeConf (HostConf conf))) s1)"

definition delLocalNetworkBridge :: "'o ovs_api \<Rightarrow> NetConf \<Rightarrow> 'o \<Rightarrow> go_error option \<times> 'o" where
  "delLocalNetworkBridge O' conf s =
     (case doesBridgeContainInterfaces O' (BridgeName (uc_BridgeConf (HostConf conf))) s of
        (True, s1) \<Rightarrow> (None, s1)
      | (False, s1) \<Rightarrow> ovs_deleteBridge O' (BridgeName (uc_BridgeConf (HostConf conf))) s1)"

section \<open>ADD and DEL\<close>

definition with_bridge :: "NetConf \<Rightarrow> string \<Rightarrow> NetConf" where
  "with_bridge conf dflt =
     (if BridgeName (uc_BridgeConf (HostConf conf)) = []
      then conf\<lparr>HostConf := (HostConf conf)\<lparr>uc_BridgeConf := (uc_BridgeConf (HostConf conf))\<lparr>BridgeName := dflt\<rparr>\<rparr>\<rparr>
      else conf)"

definition ovs_AddOnHost ::
  "'o ovs_api \<Rightarrow> host_os \<Rightarrow> NetConf \<Rightarrow> CmdArgs \<Rightarrow> string \<Rightarrow> ('v, 'k, 'o, 'm) cni_node_scheme \<Rightarrow>
   (go_error option \<times> NetConf) \<times> ('v, 'k, 'o, 'm) cni_node_scheme" where
  "ovs_AddOnHost O' H conf args sharedDir w =
     (case slice12 (ContainerID args) of
        None \<Rightarrow> ((Some EPanic, conf), w)
      | Some _ \<Rightarrow>
          (case resolveOvnArgs (ho_LoadArgs H) conf args of
             (ovnPort, ovnMac) \<Rightarrow>
               (let conf1 = with_bridge conf (if ovnPort \<noteq> [] then ovnIntegrationBridge else defaultBridge)
                in (case on_ovs (addLocalNetworkBridge O' conf1) w of
                      (Some e, w1) \<Rightarrow> ((Some e, conf1), w1)
                    | (None, w1) \<Rightarrow>
                        (case (if IfType (HostConf conf1) = ''vhostuser''
                               then addLocalDeviceVhost O' H conf1 args sharedDir ovnPort ovnMac w1
                               else ((Inl (EMsg (''ERROR: Unknown HostConf.IfType:'' @ IfType (HostConf conf1))), conf1), w1)) of
                           ((Inl e, conf2), w2) \<Rightarrow> ((Some e, conf2), w2)
                         | ((Inr data, conf2), w2) \<Rightarrow>
                             (let net = NetType (HostConf conf2)
                              in if net = ''interface'' then
                                   ((Some (EMsg (''ERROR: HostConf.NetType '' @ [CHR 0x22] @ ''interface'' @ [CHR 0x22] @ '' not supported.'')), conf2), w2)
                                 else if net \<noteq> ''bridge'' \<and> net \<noteq> [] then
                                   ((Some (EMsg (''ERROR: Unknown HostConf.NetType:'' @ net)), conf2), w2)
                                 else
                                   (case on_fs (SaveConfig (clock w2) args data) w2 of (e, w3) \<Rightarrow> ((e, conf2), w3))))))))"

definition ovs_AddOnContainer ::
  "'k kube_api \<Rightarrow> cni_lib \<Rightarrow> NetConf \<Rightarrow> CmdArgs \<Rightarrow> bool \<Rightarrow> string \<Rightarrow> Pod option \<Rightarrow> Result option \<Rightarrow>
   ('v, 'k, 'm) node_scheme \<Rightarrow> (Pod option \<times> go_error option) \<times> ('v, 'k, 'm) node_scheme" where
  "ovs_AddOnContainer K L conf args client sharedDir pod ipResult w =
     (case slice12 (ContainerID args) of
        None \<Rightarrow> ((None, Some EPanic), w)
      | Some _ \<Rightarrow> SaveRemoteConfig K L (Some conf) (Some args) client sharedDir pod ipResult w)"

definition ovs_DelFromHost ::
  "'o ovs_api \<Rightarrow> host_os \<Rightarrow> NetConf \<Rightarrow> CmdArgs \<Rightarrow> string \<Rightarrow> ('v, 'k, 'o, 'm) cni_node_scheme \<Rightarrow>
   go_error option \<times> ('v, 'k, 'o, 'm) cni_node_scheme" where
  "ovs_DelFromHost O' H conf args sharedDir w =
     (case slice12 (ContainerID args) of
        None \<Rightarrow> (Some EPanic, w)
      | Some _ \<Rightarrow>
          (case on_fs (LoadConfig args) w of
             (Inl e, w1) \<Rightarrow> (Some e, w1)
           | (Inr data, w1) \<Rightarrow>
               (let conf1 = with_bridge conf defaultBridge
                in (case (if IfType (HostConf conf1) = ''vhostuser''
                          then delLocalDeviceVhost O' H conf1 args sharedDir data w1
                          else (Some (EMsg (''ERROR: Unknown HostConf.Type:'' @ IfType (HostConf conf1))), w1)) of
                      (Some e, w2) \<Rightarrow> (Some e, w2)
                    | (None, w2) \<Rightarrow> on_ovs (delLocalNetworkBridge O' conf1) w2))))"

definition ovs_DelFromContainer :: "CmdArgs \<Rightarrow> string \<Rightarrow> ('v, 'm) world_scheme \<Rightarrow> go_error option \<times> ('v, 'm) world_scheme" where
  "ovs_DelFromContainer args sharedDir w =
     (case slice12 (ContainerID args) of
        None \<Rightarrow> (Some EPanic, w)
      | Some _ \<Rightarrow> (None, snd (on_fs (FileCleanup sharedDir []) w)))"

section \<open>Lengths of paths\<close>

text \<open>The length of the elements of a path with a slash each; cleaning does not increase it.\<close>

abbreviation weight :: "string list \<Rightarrow> nat" where
  "weight xs \<equiv> sum_list (map (\<lambda>x. Suc (length x)) xs)"

lemma length_joinWith_slash: "xs \<noteq> [] \<Longrightarrow> Suc (length (joinWith [c] xs)) = weight xs"
  by (induction "[c]" xs rule: joinWith.induct) auto

lemma weight_splitOn: "weight (splitOn c s) = Suc (length s)"
  using length_joinWith_slash [of "splitOn c s" c] by simp

lemma weight_clean_step: "weight (clean_step r stk c) \<le> weight stk + Suc (length c)"
  by (auto simp: clean_step_def split: list.splits)

lemma weight_foldl_clean: "weight (foldl (clean_step r) stk cs) \<le> weight stk + weight cs"
proof (induction cs arbitrary: stk)
  case (Cons c cs)
  have "weight (foldl (clean_step r) (clean_step r stk c) cs) \<le> weight (clean_step r stk c) + weight cs" by (rule Cons.IH)
  then show ?case using weight_clean_step [of r stk c] by simp
qed simp

lemma weight_clean_comps: "weight (clean_comps r cs) \<le> weight cs"
  using weight_foldl_clean [of r "[]" cs] by (simp add: clean_comps_def rev_map [symmetric])

lemma length_pathClean:
  assumes "p \<noteq> []"
  shows "length (pathClean p) \<le> length p"
proof (cases "rooted p")
  case True
  then obtain q where q: "p = slash # q" using assms by (cases p) (auto simp: rooted_def)
  have "weight (path_elems p) \<le> Suc (length q)"
    using weight_clean_comps [of True "splitOn slash q"] True q by (simp add: path_elems_def weight_splitOn)
  then show ?thesis using True assms q length_joinWith_slash [of "path_elems p" slash]
    by (cases "path_elems p = []") (auto simp: pathClean_def render_def)
next
  case False
  have "weight (path_elems p) \<le> Suc (length p)"
    using weight_clean_comps [of False "splitOn slash p"] False by (simp add: path_elems_def weight_splitOn)
  then show ?thesis using False assms length_joinWith_slash [of "path_elems p" slash]
    by (cases "path_elems p = []") (auto simp: pathClean_def render_def Suc_le_eq)
qed

lemma length_pathJoin: "d \<noteq> [] \<Longrightarrow> length (pathJoin d n) \<le> length d + 1 + length n"
  using length_pathClean [of "d @ slash # n"] by (simp add: pathJoin_def)

section \<open>Short directories\<close>

lemma containsStr_append: "containsStr (a @ s @ b) s"
proof (induction a)
  case Nil
  have "hasPrefix (s @ b) s" by simp
  then show ?case by (cases "s @ b") auto
next
  case (Cons c a)
  then show ?case by simp
qed

definition empty_dir_path :: "string \<Rightarrow> string" where
  "empty_dir_path uid = DefaultHostkubeletPodBaseDir @ uid @ ''/'' @ DefaultHostEmptyDirVolumeName @ volMntKeySharedDir"

lemma empty_dir_path_parts:
  assumes "plain_name uid"
  shows "splitOn slash (empty_dir_path uid) = [[], ''var'', ''lib'', ''kubelet'', ''pods'', uid, ''volumes'', ''kubernetes.io~empty-dir'', ''shared-dir'']"
    and "containsStr (empty_dir_path uid) ''empty-dir''"
proof -
  have "slash \<notin> set uid" using assms by (simp add: plain_name_def)
  have "empty_dir_path uid = ''/var/lib/kubelet/pods'' @ slash # (uid @ slash # ''volumes/kubernetes.io~empty-dir/shared-dir'')"
    by (simp add: empty_dir_path_def DefaultHostkubeletPodBaseDir_def DefaultHostEmptyDirVolumeName_def volMntKeySharedDir_def)
  then show "splitOn slash (empty_dir_path uid) = [[], ''var'', ''lib'', ''kubelet'', ''pods'', uid, ''volumes'', ''kubernetes.io~empty-dir'', ''shared-dir'']"
    using \<open>slash \<notin> set uid\<close> by (simp only: splitOn_append_sep) (simp add: splitOn_single)
  have "empty_dir_path uid = (DefaultHostkubeletPodBaseDir @ uid @ ''/volumes/kubernetes.io~'') @ ''empty-dir'' @ ''/shared-dir''"
    by (simp add: empty_dir_path_def DefaultHostEmptyDirVolumeName_def volMntKeySharedDir_def)
  then show "containsStr (empty_dir_path uid) ''empty-dir''" using containsStr_append by metis
qed

lemma vhost_base_join: "plain_name uid \<Longrightarrow> pathJoin DefaultHostVhostuserBaseDir uid = DefaultHostVhostuserBaseDir @ uid"
proof -
  assume "plain_name uid"
  moreover have "path_elems DefaultHostVhostuserBaseDir = [''var'', ''lib'', ''vhost_sockets'']" by code_simp
  ultimately show ?thesis by (simp add: pathJoin_render DefaultHostVhostuserBaseDir_def rooted_def render_def)
qed

section \<open>Which files a DEL removes\<close>

lemma rx_prefix_plain: "CHR ''.'' \<notin> set p \<Longrightarrow> rx_prefix p s \<longleftrightarrow> hasPrefix s p"
  by (induction p s rule: rx_prefix.induct) (auto simp: hasPrefix_def)

lemma rx_search_plain: "CHR ''.'' \<notin> set p \<Longrightarrow> rx_search p s \<longleftrightarrow> containsStr s p"
  by (induction s) (auto simp: rx_prefix_plain)

lemma match_star_plain:
  assumes "list_all rx_char p" and "CHR ''.'' \<notin> set p" and "p \<noteq> []"
  shows "match_star rx p s \<longleftrightarrow> containsStr s (butlast p)"
  using assms rx_search_plain [of "butlast p" s] by (auto simp: match_star_def rx_simple_def dest: in_set_butlastD)

lemma fs_names_no_slash: "x \<in> set (fs_names f d) \<Longrightarrow> slash \<notin> set x"
proof -
  assume "x \<in> set (fs_names f d)"
  then obtain p where p: "x = pathBase p" by (auto simp: fs_names_def)
  show ?thesis
  proof (cases "path_elems p = []")
    case False
    then have "last (path_elems p) \<in> set (path_elems p)" by simp
    from elems_ok_no_slash [OF path_elems_ok this] show ?thesis using False p by (simp add: pathBase_def)
  qed (simp add: p pathBase_def)
qed

text \<open>Without a configured socket file only the first of the two removals of an entry can happen.\<close>

lemma remove_files_Cons:
  "remove_files rx base [] dir (x # xs) n f =
     (if match_star rx base x
      then (case os_Remove (pathJoin dir x) f of
              (Some e, f1) \<Rightarrow> (Inl (EFs e), f1) | (None, f1) \<Rightarrow> remove_files rx base [] dir xs (Suc n) f1)
      else remove_files rx base [] dir xs n f)"
proof -
  have "\<not> match_star rx [] x" by (simp add: match_star_def)
  then show ?thesis by (simp split: prod.split option.split)
qed

lemma remove_files_cases:
  assumes "remove_files rx base [] dir (x # xs) n f = (Inr m, f')"
  obtains (keep) "\<not> match_star rx base x" "remove_files rx base [] dir xs n f = (Inr m, f')"
  | (remove) f1 where "match_star rx base x" "os_Remove (pathJoin dir x) f = (None, f1)"
      "remove_files rx base [] dir xs (Suc n) f1 = (Inr m, f')"
proof (cases "match_star rx base x")
  case True
  moreover obtain e f1 where "os_Remove (pathJoin dir x) f = (e, f1)" by fastforce
  ultimately show thesis using assms remove by (cases e) (simp_all add: remove_files_Cons del: remove_files.simps)
next
  case False
  then show thesis using assms keep by (simp add: remove_files_Cons del: remove_files.simps)
qed

lemma remove_files_shrinks:
  "remove_files rx base [] dir xs n f = (Inr m, f') \<Longrightarrow> fs_node f' q \<noteq> None \<Longrightarrow> fs_node f' q = fs_node f q"
proof (induction xs arbitrary: n f)
  case (Cons x xs)
  from Cons.prems(1) show ?case
  proof (cases rule: remove_files_cases)
    case (remove f1)
    then have "fs_node f' q = fs_node f1 q" using Cons by blast
    then show ?thesis using os_Remove_shrinks [OF remove(2), of q] Cons.prems(2) by simp
  qed (use Cons in blast)
qed simp

lemma remove_files_gone:
  "remove_files rx base [] dir xs n f = (Inr m, f') \<Longrightarrow> x \<in> set xs \<Longrightarrow> match_star rx base x \<Longrightarrow>
   fs_node f' (pathJoin dir x) = None"
proof (induction xs arbitrary: n f)
  case (Cons y xs)
  from Cons.prems(1) show ?case
  proof (cases rule: remove_files_cases)
    case (remove f1)
    then show ?thesis
      using Cons os_Remove_ok [OF remove(2)] remove_files_shrinks [OF remove(3), of "pathJoin dir x"] by fastforce
  qed (use Cons in auto)
qed simp

lemma remove_files_other:
  "remove_files rx base [] dir xs n f = (Inr m, f') \<Longrightarrow>
   (\<And>x. x \<in> set xs \<Longrightarrow> match_star rx base x \<Longrightarrow> pathClean q \<noteq> pathClean (pathJoin dir x)) \<Longrightarrow> fs_node f' q = fs_node f q"
proof (induction xs arbitrary: n f)
  case (Cons x xs)
  from Cons.prems(1) show ?case
  proof (cases rule: remove_files_cases)
    case (remove f1)
    have "fs_node f' q = fs_node f1 q" by (rule Cons.IH [OF remove(3)]) (simp add: Cons.prems(2))
    then show ?thesis using os_Remove_other [OF remove(2)] Cons.prems(2) remove(1) by simp
  next
    case keep
    show ?thesis by (rule Cons.IH [OF keep(2)]) (simp add: Cons.prems(2))
  qed
qed simp

lemma containsStr_set: "containsStr s p \<Longrightarrow> set p \<subseteq> set s"
proof (induction s)
  case (Cons c s)
  show ?case
  proof (cases "hasPrefix (c # s) p")
    case True
    then obtain t where t: "c # s = p @ t" unfolding hasPrefix_iff by blast
    show ?thesis unfolding t by simp
  next
    case False
    with Cons show ?thesis by auto
  qed
qed simp

lemma cleanSharedDir_cases:
  assumes "cleanSharedDir H conf args dir f = (None, f')" and "slice12 (ContainerID args) = Some cid"
    and "vc_Socketfile (host_vhost conf) = []"
  obtains m f1 where "remove_files (ho_MatchString H) (cid @ ''-'' @ ca_IfName args) [] dir (fs_names f dir) 0 f = (Inr m, f1)"
    "f' = f1 \<or> os_Remove dir f1 = (None, f')"
proof -
  have "os_ReadDir f dir = Inr (fs_names f dir)"
    using assms by (auto simp: cleanSharedDir_def os_ReadDir_def split: option.splits if_splits)
  moreover obtain r f1 where r: "remove_files (ho_MatchString H) (cid @ ''-'' @ ca_IfName args) [] dir (fs_names f dir) 0 f = (r, f1)"
    by fastforce
  moreover obtain e f2 where e: "os_Remove dir f1 = (e, f2)" by fastforce
  ultimately have "\<exists>m. r = Inr m" "f' = f1 \<or> os_Remove dir f1 = (None, f')"
    using assms by (auto simp: cleanSharedDir_def split: option.splits sum.splits if_splits)
  with r that show thesis by blast
qed

section \<open>Properties\<close>

text \<open>
  C36: The socket of a vhost-user interface fits into \<open>sun_path\<close> (108 bytes with the final zero) for every
  pod with an emptyDir as its shared directory: the directory is shortened without a panic, and with
  a pod id of at most 64 bytes and a socket name of at most 18 bytes (12 of the container id, a dash
  and five of the interface name) the path has less than 108 bytes. A shortened directory has the
  pod's own id as its name, so that pods do not share it.
\<close>

theorem getShortSharedDir_fits:
  assumes "find (\<lambda>v. vol_Name v = volMntKeySharedDir) (pod_Volumes p) = Some v" and "vol_HostPath v = None"
    and "GetPodVolumeMountHostSharedDir (Some p) = Inr d"
    and "plain_name (pod_UID p)" and "length (pod_UID p) \<le> 64" and "length n \<le> 18"
  shows "\<exists>s. getShortSharedDir d = Some s \<and> length (pathJoin s n) < 108 \<and>
    (89 \<le> length d \<longrightarrow> s = DefaultHostVhostuserBaseDir @ pod_UID p)"
proof -
  have d: "d = empty_dir_path (pod_UID p)"
    using assms(1-3) by (auto simp: GetPodVolumeMountHostSharedDir_def empty_dir_path_def split: if_splits)
  have u: "length (DefaultHostVhostuserBaseDir @ pod_UID p) \<le> 87"
    using assms(5) by (simp add: DefaultHostVhostuserBaseDir_def)
  show ?thesis
  proof (cases "89 \<le> length d")
    case True
    then have "getShortSharedDir d = Some (DefaultHostVhostuserBaseDir @ pod_UID p)"
      using empty_dir_path_parts [OF assms(4)] vhost_base_join [OF assms(4)] by (simp add: getShortSharedDir_def d)
    moreover have "length (pathJoin (DefaultHostVhostuserBaseDir @ pod_UID p) n) < 108"
      using length_pathJoin [of "DefaultHostVhostuserBaseDir @ pod_UID p" n] u assms(6) by (simp add: DefaultHostVhostuserBaseDir_def)
    ultimately show ?thesis by simp
  next
    case False
    have "d \<noteq> []" by (simp add: d empty_dir_path_def DefaultHostkubeletPodBaseDir_def)
    then have "length (pathJoin d n) < 108" using length_pathJoin [of d n] False assms(6) by linarith
    then show ?thesis using False by (simp add: getShortSharedDir_def)
  qed
qed

definition uid_pod :: Pod where
  "uid_pod = sample_pod\<lparr>pod_UID := ''0f6c1a52-93f1-4d3c-8a55-2f6f0c5b7d10'',
     pod_Volumes := [\<lparr>vol_Name = volMntKeySharedDir, vol_HostPath = None, vol_EmptyDir = True\<rparr>]\<rparr>"

theorem getShortSharedDir_fits_witness:
  "getShortSharedDir (empty_dir_path (pod_UID uid_pod)) = Some ''/var/lib/vhost_sockets/0f6c1a52-93f1-4d3c-8a55-2f6f0c5b7d10'' \<and>
   length (pathJoin ''/var/lib/vhost_sockets/0f6c1a52-93f1-4d3c-8a55-2f6f0c5b7d10'' ''0123456789ab-net99'') < 108"
proof -
  have "GetPodVolumeMountHostSharedDir (Some uid_pod) = Inr (empty_dir_path (pod_UID uid_pod))" by code_simp
  from getShortSharedDir_fits [OF _ _ this, of _ "''0123456789ab-net99''"]
  have "\<exists>s. getShortSharedDir (empty_dir_path (pod_UID uid_pod)) = Some s \<and> length (pathJoin s ''0123456789ab-net99'') < 108 \<and>
      (89 \<le> length (empty_dir_path (pod_UID uid_pod)) \<longrightarrow> s = DefaultHostVhostuserBaseDir @ pod_UID uid_pod)"
    by (simp add: uid_pod_def plain_name_def)
  moreover have "89 \<le> length (empty_dir_path (pod_UID uid_pod))" by code_simp
  moreover have "DefaultHostVhostuserBaseDir @ pod_UID uid_pod = ''/var/lib/vhost_sockets/0f6c1a52-93f1-4d3c-8a55-2f6f0c5b7d10''"
    by code_simp
  ultimately show ?thesis by metis
qed

text \<open>
  C40: A generated MAC address is a well-formed one, of a locally administered unicast address: six bytes
  as two hexadecimal digits each, separated by colons, the first with bit 1 set and bit 0 clear and
  otherwise the random one, the others the random ones.
\<close>

theorem generateRandomMacAddress_local:
  "\<exists>b. generateRandomMacAddress (Inr buf) = joinWith '':'' (map hex_byte (b # map buf [1..<6])) \<and>
     (\<forall>i. bit b i = (if i = 0 then False else if i = 1 then True else bit (buf 0) i)) \<and>
     length (generateRandomMacAddress (Inr buf)) = 17"
proof (intro exI conjI allI)
  let ?b = "(buf 0 OR 2) AND 0xfe"
  have u: "[1..<6] = [1, 2, 3, 4, 5 :: nat]" by (simp add: upt_rec)
  show "generateRandomMacAddress (Inr buf) = joinWith '':'' (map hex_byte (?b # map buf [1..<6]))"
    unfolding u by (simp add: generateRandomMacAddress_def)
  show "bit ?b i = (if i = 0 then False else if i = 1 then True else bit (buf 0) i)" for i
  proof (cases "i < 8")
    case True
    then have "i = 0 \<or> i = 1 \<or> i = 2 \<or> i = 3 \<or> i = 4 \<or> i = 5 \<or> i = 6 \<or> i = 7" by linarith
    then show ?thesis by (elim disjE) (simp_all add: bit_simps)
  next
    case False
    then show ?thesis using bit_imp_le_length [of ?b i] bit_imp_le_length [of "buf 0" i] by auto
  qed
  show "length (generateRandomMacAddress (Inr buf)) = 17" by (simp add: generateRandomMacAddress_def hex_byte_def)
qed

text \<open>
  C35: A DEL on a shared directory that is no bind mount removes by the name of the files. When it
  succeeds, and the configuration names no socket file, the files that are gone are exactly those
  whose name contains the container id's first 12 characters, the dash and the interface name
  without its last character: the expression is not anchored and the star makes the last character
  optional, so the DEL of \<open>net1\<close> also removes the socket of \<open>net2\<close>.
\<close>

theorem del_removes_by_prefix:
  fixes cid ifn defines "base \<equiv> cid @ ''-'' @ ifn"
  assumes "cleanSharedDir H conf args dir f = (None, f')" and "slice12 (ContainerID args) = Some cid"
    and "ca_IfName args = ifn" and "vc_Socketfile (host_vhost conf) = []"
    and "list_all rx_char base" and "CHR ''.'' \<notin> set base" and "dir \<noteq> []"
    and "plain_name x" and "fs_node f (pathJoin dir x) = Some nd"
  shows "fs_node f' (pathJoin dir x) = (if containsStr x (butlast base) then None else Some nd)"
proof -
  have match: "match_star (ho_MatchString H) base y \<longleftrightarrow> containsStr y (butlast base)" for y
    using assms(6,7) by (intro match_star_plain) (simp_all add: base_def)
  from cleanSharedDir_cases [OF assms(2,3,5)] obtain m f1 where
    r: "remove_files (ho_MatchString H) base [] dir (fs_names f dir) 0 f = (Inr m, f1)" and
    e: "f' = f1 \<or> os_Remove dir f1 = (None, f')" unfolding base_def assms(4) by blast
  have last: "fs_node f' (pathJoin dir x) = fs_node f1 (pathJoin dir x)"
    using e os_Remove_other [of dir f1 None f' "pathJoin dir x"] pathJoin_not_dir(1) [OF assms(8,9)]
      pathJoin_clean [OF assms(8)] by auto
  show ?thesis
  proof (cases "containsStr x (butlast base)")
    case True
    have "x \<in> set (fs_names f dir)" using fs_names_entry [OF assms(8,9)] assms(10) by simp
    from remove_files_gone [OF r this] True match last show ?thesis by simp
  next
    case False
    have "pathClean (pathJoin dir x) \<noteq> pathClean (pathJoin dir y)"
      if y: "y \<in> set (fs_names f dir)" "match_star (ho_MatchString H) base y" for y
    proof -
      have "set (butlast base) \<subseteq> set y" using y(2) match containsStr_set by simp
      moreover have "butlast base \<noteq> []" using assms(3) by (auto simp: base_def slice12_def butlast_append split: if_splits)
      ultimately obtain c where "c \<in> set y" "c \<noteq> CHR ''.''" using assms(7) in_set_butlastD [of _ base] by (metis hd_in_set subsetD)
      then have "plain_name y" using fs_names_no_slash [OF y(1)] by (auto simp: plain_name_def)
      then show ?thesis using False y(2) match pathJoin_inject [OF assms(8,8,9)] assms(8) by (auto simp: pathJoin_clean)
    qed
    from remove_files_other [OF r this] False last assms(10) show ?thesis by simp
  qed
qed

definition sample_host :: host_os where
  "sample_host = \<lparr>ho_LookupGroup = (\<lambda>_. Inr ''107''), ho_Mount = (\<lambda>_ _ f. (None, f)), ho_Unmount = (\<lambda>_ f. (None, f)),
     ho_rand = Inr (\<lambda>i. 0xff), ho_MatchString = (\<lambda>_ _. False), ho_LoadArgs = (\<lambda>_. Inl EJson)\<rparr>"

definition two_sockets :: fs where
  "two_sockets = \<lparr>nodes = [(''/srv/pod'', DirNode), (''/srv/pod/0123456789ab-net1'', FileNode [] 0),
     (''/srv/pod/0123456789ab-net2'', FileNode [] 0), (''/srv/pod/other'', FileNode [] 0)], deny = (\<lambda>_ _. False)\<rparr>"

theorem del_removes_by_prefix_witness:
  "\<exists>f'. cleanSharedDir sample_host zero_NetConf sample_args ''/srv/pod'' two_sockets = (None, f') \<and>
     fs_node f' ''/srv/pod/0123456789ab-net2'' = None \<and> fs_node f' ''/srv/pod/other'' = Some (FileNode [] 0)"
proof -
  let ?r = "cleanSharedDir sample_host zero_NetConf sample_args ''/srv/pod'' two_sockets"
  have "fst ?r = None" by code_simp
  then have r: "?r = (None, snd ?r)" by (metis prod.collapse)
  have c: "slice12 (ContainerID sample_args) = Some ''0123456789ab''" "ca_IfName sample_args = ''net1''"
    "vc_Socketfile (host_vhost zero_NetConf) = []" "list_all rx_char (''0123456789ab'' @ ''-'' @ ''net1'')"
    "CHR ''.'' \<notin> set (''0123456789ab'' @ ''-'' @ ''net1'')" by code_simp+
  have n: "plain_name ''0123456789ab-net2''" "plain_name ''other''"
    "fs_node two_sockets (pathJoin ''/srv/pod'' ''0123456789ab-net2'') = Some (FileNode [] 0)"
    "fs_node two_sockets (pathJoin ''/srv/pod'' ''other'') = Some (FileNode [] 0)" by code_simp+
  have j: "pathJoin ''/srv/pod'' ''0123456789ab-net2'' = ''/srv/pod/0123456789ab-net2''"
    "pathJoin ''/srv/pod'' ''other'' = ''/srv/pod/other''" by code_simp+
  have "containsStr ''0123456789ab-net2'' (butlast (''0123456789ab'' @ ''-'' @ ''net1''))"
    "\<not> containsStr ''other'' (butlast (''0123456789ab'' @ ''-'' @ ''net1''))" by code_simp+
  with del_removes_by_prefix [OF r c _ n(1,3)] del_removes_by_prefix [OF r c _ n(2,4)] r show ?thesis
    unfolding j by (metis list.distinct(1))
qed

end
