(* ===== verification/Ovs_Server.thy ===== *)
theory Ovs_Server
  imports Cni_Ovs
begin

text \<open>
  The OVS engine against a database server: the laws of the OVSDB server that the engine depends on as
  a locale, the effect of an ADD and of a DEL on the bridges and their ports, and an executable server
  that has the laws.
\<close>

section \<open>The contract of the server\<close>

text \<open>A reply without an error: one result per operation, and possibly one for the commit.\<close>

definition ok_reply :: "ovs_op list \<Rightarrow> (ovs_result list) result \<Rightarrow> bool" where
  "ok_reply ops r = (case r of Inl _ \<Rightarrow> False | Inr reply \<Rightarrow> length ops \<le> length reply \<and> list_all (\<lambda>x. res_Error x = []) reply)"

lemma find_enumerate_None: "find (\<lambda>(i, r). P r) (enumerate n xs) = None \<longleftrightarrow> list_all (\<lambda>r. \<not> P r) xs"
  by (induction xs arbitrary: n) auto

lemma transact_Inr:
  "transact O' ops s = (Inr reply, s') \<longleftrightarrow>
     getOvsClient O' = None \<and> ovs_transact O' ops s = (Inr reply, s') \<and> ok_reply ops (Inr reply)"
  using find_enumerate_None [of "\<lambda>r. res_Error r \<noteq> []" 0 reply]
  by (auto simp: transact_def ok_reply_def split: option.splits prod.splits sum.splits if_splits)

lemma transact_Inl:
  "transact O' ops s = (Inl e, s') \<Longrightarrow> s' = s \<or> (\<exists>r. ovs_transact O' ops s = (r, s') \<and> \<not> ok_reply ops r)"
proof (cases "getOvsClient O'")
  case None
  assume run: "transact O' ops s = (Inl e, s')"
  obtain r s1 where r: "ovs_transact O' ops s = (r, s1)" by fastforce
  then have "s1 = s'" using run None by (auto simp: transact_def split: sum.splits option.splits if_splits)
  moreover have "\<not> ok_reply ops r"
  proof
    assume ok: "ok_reply ops r"
    then obtain reply where "r = Inr reply" by (cases r) (auto simp: ok_reply_def)
    with ok r None have "transact O' ops s = (Inr reply, s1)" unfolding transact_Inr by simp
    with run show False by simp
  qed
  ultimately show ?thesis using r by blast
qed (simp add: transact_def)

text \<open>
  \<open>br\<close> gives for each bridge the names of its ports, \<open>bid\<close> and \<open>pid\<close> the UUIDs of bridges and ports.
  A failed transaction changes nothing, and a row with a reference to it cannot be deleted (RFC 7047).
\<close>

abbreviation add_port_ops :: "ovs_row \<Rightarrow> ovs_row \<Rightarrow> string \<Rightarrow> ovs_op list" where
  "add_port_ops irow prow b \<equiv> [insert_op tblInterface irow ''newintf'', insert_op tblPort prow ''newport'',
     mutate_op tblBridge (name_is b) ''ports'' MutateInsert (OSet [OUuid ''newport''])]"

abbreviation del_port_ops :: "string \<Rightarrow> string \<Rightarrow> string \<Rightarrow> ovs_op list" where
  "del_port_ops p b u \<equiv> [delete_op tblInterface (name_is p), delete_op tblPort (name_is p),
     mutate_op tblBridge (name_is b) ''ports'' MutateDelete (OSet [OUuid u])]"

abbreviation add_bridge_ops :: "string \<Rightarrow> ovs_op list" where
  "add_bridge_ops b \<equiv> [insert_op tblBridge [(''name'', OString b), (''datapath_type'', OString ''netdev'')] ''newbridge'',
     mutate_op tblOpenvSwitch any_row ''bridges'' MutateInsert (OSet [OUuid ''newbridge''])]"

abbreviation del_bridge_ops :: "string \<Rightarrow> string \<Rightarrow> ovs_op list" where
  "del_bridge_ops b u \<equiv> [delete_op tblBridge (name_is b),
     mutate_op tblOpenvSwitch any_row ''bridges'' MutateDelete (OSet [OUuid u])]"

locale ovs_server =
  fixes O' :: "'o ovs_api" and br :: "'o \<Rightarrow> string \<rightharpoonup> string set" and bid pid :: "'o \<Rightarrow> string \<Rightarrow> string"
  assumes client: "getOvsClient O' = None"
    and new_set: "ovs_new_set O' vs = Inr (OSet vs)"
    and atomic: "ovs_transact O' ops s = (r, s') \<Longrightarrow> \<not> ok_reply ops r \<Longrightarrow> br s' = br s"
    and select_bridge: "\<exists>x xs. ovs_transact O' [select_op tblBridge (name_is b) [c]] s = (Inr (x # xs), s) \<and>
      ok_reply [select_op tblBridge (name_is b) [c]] (Inr (x # xs)) \<and>
      (case br s b of
         None \<Rightarrow> res_Rows x = []
       | Some P \<Rightarrow> (\<exists>row rs. res_Rows x = row # rs \<and> (c = ''_uuid'' \<longrightarrow> map_of row c = Some (OUuid (bid s b))) \<and>
           (c = ''ports'' \<longrightarrow> (portsSetNonEmpty row \<longleftrightarrow> P \<noteq> {}))))"
    and select_port: "\<exists>x xs. ovs_transact O' [select_op tblPort (name_is p) [''_uuid'']] s = (Inr (x # xs), s) \<and>
      ok_reply [select_op tblPort (name_is p) [''_uuid'']] (Inr (x # xs)) \<and>
      (if \<exists>b P. br s b = Some P \<and> p \<in> P
       then \<exists>row rs. res_Rows x = row # rs \<and> map_of row ''_uuid'' = Some (OUuid (pid s p)) else res_Rows x = [])"
    and select_mac: "ovs_transact O' [select_op tblPort (name_is p) [''mac'']] s = (r, s') \<Longrightarrow> br s' = br s"
    and add_bridge: "ovs_transact O' (add_bridge_ops b) s = (r, s') \<Longrightarrow> ok_reply (add_bridge_ops b) r \<Longrightarrow>
      br s' = (br s)(b \<mapsto> {})"
    and del_bridge: "ovs_transact O' (del_bridge_ops b (bid s b)) s = (r, s') \<Longrightarrow>
      ok_reply (del_bridge_ops b (bid s b)) r \<Longrightarrow> br s' = (br s)(b := None)"
    and add_port: "ovs_transact O' (add_port_ops irow prow b) s = (r, s') \<Longrightarrow> ok_reply (add_port_ops irow prow b) r \<Longrightarrow>
      map_of prow ''name'' = Some (OString p) \<Longrightarrow>
      br s' = (case br s b of None \<Rightarrow> br s | Some P \<Rightarrow> (br s)(b \<mapsto> insert p P))"
    and del_port: "ovs_transact O' (del_port_ops p b (pid s p)) s = (r, s') \<Longrightarrow> ok_reply (del_port_ops p b (pid s p)) r \<Longrightarrow>
      (\<forall>b' P. b' \<noteq> b \<longrightarrow> br s b' = Some P \<longrightarrow> p \<notin> P) \<and>
      br s' = (case br s b of None \<Rightarrow> br s | Some P \<Rightarrow> (br s)(b \<mapsto> P - {p}))"
begin

lemma findBridge_view: "ovs_findBridge O' b s = (b \<in> dom (br s), s)"
proof -
  obtain x xs where "ovs_transact O' [select_op tblBridge (name_is b) [''name'']] s = (Inr (x # xs), s)"
    "ok_reply [select_op tblBridge (name_is b) [''name'']] (Inr (x # xs))"
    "case br s b of None \<Rightarrow> res_Rows x = [] | Some P \<Rightarrow> (\<exists>row rs. res_Rows x = row # rs)"
    using select_bridge [of b "''name''" s] by (auto split: option.splits)
  moreover from this(1,2) have "transact O' [select_op tblBridge (name_is b) [''name'']] s = (Inr (x # xs), s)"
    unfolding transact_Inr using client by simp
  ultimately show ?thesis by (auto simp: ovs_findBridge_def selectRows_def split: option.splits)
qed

lemma containInterfaces_view: "doesBridgeContainInterfaces O' b s = (case br s b of None \<Rightarrow> False | Some P \<Rightarrow> P \<noteq> {}, s)"
proof -
  obtain x xs where "ovs_transact O' [select_op tblBridge (name_is b) [''ports'']] s = (Inr (x # xs), s)"
    "ok_reply [select_op tblBridge (name_is b) [''ports'']] (Inr (x # xs))"
    "case br s b of None \<Rightarrow> res_Rows x = [] | Some P \<Rightarrow> (\<exists>row rs. res_Rows x = row # rs \<and> (portsSetNonEmpty row \<longleftrightarrow> P \<noteq> {}))"
    using select_bridge [of b "''ports''" s] by (cases "br s b") fastforce+
  moreover from this(1,2) have "transact O' [select_op tblBridge (name_is b) [''ports'']] s = (Inr (x # xs), s)"
    unfolding transact_Inr using client by simp
  ultimately show ?thesis by (auto simp: doesBridgeContainInterfaces_def selectRows_def split: option.splits)
qed

lemma bridgeUUID_view:
  "\<exists>e. bridgeUUID O' b s = (if b \<in> dom (br s) then Inr (OUuid (bid s b)) else Inl e, s)"
proof -
  obtain x xs where "ovs_transact O' [select_op tblBridge (name_is b) [''_uuid'']] s = (Inr (x # xs), s)"
    "ok_reply [select_op tblBridge (name_is b) [''_uuid'']] (Inr (x # xs))"
    "case br s b of None \<Rightarrow> res_Rows x = []
       | Some P \<Rightarrow> (\<exists>row rs. res_Rows x = row # rs \<and> map_of row ''_uuid'' = Some (OUuid (bid s b)))"
    using select_bridge [of b "''_uuid''" s] by (auto split: option.splits)
  moreover from this(1,2) have "transact O' [select_op tblBridge (name_is b) [''_uuid'']] s = (Inr (x # xs), s)"
    unfolding transact_Inr using client by simp
  ultimately show ?thesis by (auto simp: bridgeUUID_def selectRows_def row_uuid_def split: option.splits)
qed

lemma portUUID_view:
  "\<exists>e. portUUID O' p s = (if \<exists>b P. br s b = Some P \<and> p \<in> P then Inr (OUuid (pid s p)) else Inl e, s)"
proof -
  obtain x xs where "ovs_transact O' [select_op tblPort (name_is p) [''_uuid'']] s = (Inr (x # xs), s)"
    "ok_reply [select_op tblPort (name_is p) [''_uuid'']] (Inr (x # xs))"
    and rows: "if \<exists>b P. br s b = Some P \<and> p \<in> P
       then \<exists>row rs. res_Rows x = row # rs \<and> map_of row ''_uuid'' = Some (OUuid (pid s p)) else res_Rows x = []"
    using select_port [of p s] by blast
  then have "transact O' [select_op tblPort (name_is p) [''_uuid'']] s = (Inr (x # xs), s)"
    unfolding transact_Inr using client by simp
  with rows show ?thesis
    by (cases "\<exists>b P. br s b = Some P \<and> p \<in> P") (auto simp: portUUID_def selectRows_def row_uuid_def)
qed

end

section \<open>What the engine does to the bridges\<close>

lemma vhost_ops_shape:
  assumes "vhost_ops O' dir n client b cfg = Inr ops" and "\<And>vs. ovs_new_set O' vs = Inr (OSet vs)"
  shows "\<exists>irow prow. ops = add_port_ops irow prow b \<and> map_of prow ''name'' = Some (OString n)"
proof (intro exI conjI)
  let ?ids = "projr (ovs_new_map O' (ext_ids cfg))"
    and ?opts = "if client then [(''options'', projr (ovs_new_map O' [(''vhost-server-path'', pathJoin dir n)]))] else []"
    and ?trunks = "if vp_trunks cfg \<noteq> [] then [(''trunks'', OSet (map OInt (vp_trunks cfg)))] else []"
  show "ops = add_port_ops (intf_row n client cfg ?ids @ ?opts) (port_row n cfg (OSet [OUuid ''newintf'']) @ ?trunks) b"
    using assms by (auto simp: vhost_ops_def split: sum.splits if_splits)
  show "map_of (port_row n cfg (OSet [OUuid ''newintf'']) @ ?trunks) ''name'' = Some (OString n)"
    by (simp add: port_row_def)
qed

abbreviation bridge_of :: "NetConf \<Rightarrow> string" where
  "bridge_of conf \<equiv> BridgeName (uc_BridgeConf (HostConf conf))"

context ovs_server
begin

lemma addLocalNetworkBridge_view:
  assumes "addLocalNetworkBridge O' conf s = (None, s')"
  shows "br s' = (if bridge_of conf \<in> dom (br s) then br s else (br s)(bridge_of conf \<mapsto> {}))"
proof (cases "bridge_of conf \<in> dom (br s)")
  case False
  with assms have "ovs_createBridge O' (bridge_of conf) s = (None, s')"
    by (simp add: addLocalNetworkBridge_def findBridge_view)
  then obtain reply where "transact O' (add_bridge_ops (bridge_of conf)) s = (Inr reply, s')"
    by (auto simp: ovs_createBridge_def new_set split: prod.splits sum.splits)
  then show ?thesis using add_bridge False unfolding transact_Inr by simp
qed (use assms in \<open>simp add: addLocalNetworkBridge_def findBridge_view\<close>)

lemma createVhostPort_view:
  assumes "createVhostPort O' dir n client b cfg w = (Inr n', w')"
  shows "n' = n" and "br (ost w') = (case br (ost w) b of None \<Rightarrow> br (ost w) | Some P \<Rightarrow> (br (ost w))(b \<mapsto> insert n P))"
proof -
  from assms obtain ops where ops: "vhost_ops O' dir n client b cfg = Inr ops"
    by (auto simp: createVhostPort_def split: sum.splits)
  with assms obtain reply s' where t: "transact O' ops (ost w) = (Inr reply, s')" and "n' = n" "ost w' = s'"
    by (auto simp: createVhostPort_def on_ovs_def on_fs_def split: prod.splits sum.splits if_splits)
  moreover obtain irow prow where "ops = add_port_ops irow prow b" "map_of prow ''name'' = Some (OString n)"
    using vhost_ops_shape [OF ops new_set] by blast
  ultimately show "n' = n" "br (ost w') = (case br (ost w) b of None \<Rightarrow> br (ost w) | Some P \<Rightarrow> (br (ost w))(b \<mapsto> insert n P))"
    using add_port [of irow prow b "ost w" "Inr reply" s' n] unfolding transact_Inr by simp_all
qed

lemma getVhostPortMac_view: "br (snd (getVhostPortMac O' p s)) = br s"
proof -
  obtain r s' where t: "transact O' [select_op tblPort (name_is p) [''mac'']] s = (r, s')" by fastforce
  have "br s' = br s"
  proof (cases r)
    case (Inl e)
    with t have "transact O' [select_op tblPort (name_is p) [''mac'']] s = (Inl e, s')" by simp
    from transact_Inl [OF this] show ?thesis using select_mac by auto
  next
    case (Inr reply)
    with t have "transact O' [select_op tblPort (name_is p) [''mac'']] s = (Inr reply, s')" by simp
    then show ?thesis using select_mac unfolding transact_Inr by blast
  qed
  with t show ?thesis by (simp add: getVhostPortMac_def selectRows_def split: sum.splits list.splits option.splits)
qed

lemma deleteVhostPort_view:
  assumes "deleteVhostPort O' p b s = (None, s')"
  shows "br s' = (\<lambda>b'. map_option (\<lambda>P. P - {p}) (br s b'))"
proof (cases "\<exists>b P. br s b = Some P \<and> p \<in> P")
  case True
  then have "portUUID O' p s = (Inr (OUuid (pid s p)), s)" using portUUID_view [of p s] by auto
  with assms obtain reply where "transact O' (del_port_ops p b (pid s p)) s = (Inr reply, s')"
    by (auto simp: deleteVhostPort_def new_set split: prod.splits sum.splits)
  then have "(\<forall>b' P. b' \<noteq> b \<longrightarrow> br s b' = Some P \<longrightarrow> p \<notin> P)"
    "br s' = (case br s b of None \<Rightarrow> br s | Some P \<Rightarrow> (br s)(b \<mapsto> P - {p}))"
    using del_port unfolding transact_Inr by blast+
  then have "br s' b' = map_option (\<lambda>P. P - {p}) (br s b')" for b'
    by (cases "br s b'"; cases "b' = b") (auto split: option.splits)
  then show ?thesis by (rule ext)
next
  case False
  then obtain e where "portUUID O' p s = (Inl e, s)" using portUUID_view [of p s] by auto
  with assms have "s' = s" by (simp add: deleteVhostPort_def)
  have "map_option (\<lambda>P. P - {p}) (br s b') = br s b'" for b' using False by (cases "br s b'") auto
  with \<open>s' = s\<close> show ?thesis by (intro ext) simp
qed

lemma delLocalNetworkBridge_view:
  assumes "delLocalNetworkBridge O' conf s = (None, s')"
  shows "br s' = (if br s (bridge_of conf) = Some {} then (br s)(bridge_of conf := None) else br s)"
proof (cases "\<exists>P. br s (bridge_of conf) = Some P \<and> P \<noteq> {}")
  case True
  then show ?thesis using assms by (auto simp: delLocalNetworkBridge_def containInterfaces_view)
next
  case False
  then have del: "ovs_deleteBridge O' (bridge_of conf) s = (None, s')"
    using assms by (auto simp: delLocalNetworkBridge_def containInterfaces_view split: option.splits)
  then have "bridge_of conf \<in> dom (br s)"
    using bridgeUUID_view [of "bridge_of conf" s] by (auto simp: ovs_deleteBridge_def split: if_splits)
  moreover from this bridgeUUID_view [of "bridge_of conf" s]
  have "bridgeUUID O' (bridge_of conf) s = (Inr (OUuid (bid s (bridge_of conf))), s)" by auto
  with del obtain reply where "transact O' (del_bridge_ops (bridge_of conf) (bid s (bridge_of conf))) s = (Inr reply, s')"
    by (auto simp: ovs_deleteBridge_def new_set split: prod.splits sum.splits)
  then have "br s' = (br s)(bridge_of conf := None)" using del_bridge unfolding transact_Inr by blast
  ultimately show ?thesis using False by auto
qed

end

section \<open>ADD and DEL\<close>

lemma with_socketfile_bridge:
  "with_socketfile conf args = Some conf' \<Longrightarrow> bridge_of conf' = bridge_of conf"
  "with_socketfile conf args = Some conf' \<Longrightarrow> IfType (HostConf conf') = IfType (HostConf conf)"
  by (auto simp: with_socketfile_def set_vhost_def split: if_splits)

lemma addLocalDeviceVhost_run:
  fixes w :: "('v, 'k, 'o, 'm) cni_node_scheme"
  assumes "addLocalDeviceVhost O' H conf args dir port mac w = ((Inr data, conf'), w')"
  obtains sdir and w1 w2 :: "('v, 'k, 'o, 'm) cni_node_scheme" where "with_socketfile conf args = Some conf'"
    "createVhostPort O' sdir (vc_Socketfile (host_vhost conf')) (vc_Mode (host_vhost conf') = ''client'') (bridge_of conf')
       (vhost_conf conf' args port) w1 = (Inr (Vhostname data), w2)"
    "ost w1 = ost w" "ost w' = snd (getVhostPortMac O' (Vhostname data) (ost w2))"
proof -
  from assms obtain c1 sdir w1 where 1: "with_socketfile conf args = Some c1" "getShortSharedDir dir = Some sdir"
    "on_fs (createSharedDir H sdir dir) w = (None, w1)"
    by (auto simp: addLocalDeviceVhost_def split: option.splits prod.splits)
  from assms 1 obtain n w2 where 2: "createVhostPort O' sdir (vc_Socketfile (host_vhost c1)) (vc_Mode (host_vhost c1) = ''client'')
      (bridge_of c1) (vhost_conf c1 args port) w1 = (Inr n, w2)"
    by (auto simp: addLocalDeviceVhost_def split: option.splits prod.splits sum.splits)
  from assms 1 2 have "conf' = c1" "Vhostname data = n" "ost w' = snd (getVhostPortMac O' n (ost w2))"
    by (auto simp: addLocalDeviceVhost_def on_ovs_def split: option.splits prod.splits sum.splits)
  moreover have "ost w1 = ost w" using 1(3) by (auto simp: on_fs_def split: prod.splits)
  ultimately show thesis using 1 2 that [of sdir w1 w2] by simp
qed

lemma ovs_AddOnHost_run:
  assumes "ovs_AddOnHost O' H conf args dir w = ((None, conf'), w')"
    and "resolveOvnArgs (ho_LoadArgs H) conf args = (port, mac)"
  obtains conf1 data w1 w2 where "conf1 = with_bridge conf (if port \<noteq> [] then ovnIntegrationBridge else defaultBridge)"
    "on_ovs (addLocalNetworkBridge O' conf1) w = (None, w1)"
    "addLocalDeviceVhost O' H conf1 args dir port mac w1 = ((Inr data, conf'), w2)"
    "SaveConfig (clock w2) args data (fsys w2) = (None, fsys w')" "ost w' = ost w2"
proof -
  let ?c = "with_bridge conf (if port \<noteq> [] then ovnIntegrationBridge else defaultBridge)"
  from assms obtain w1 where 1: "on_ovs (addLocalNetworkBridge O' ?c) w = (None, w1)" "IfType (HostConf ?c) = ''vhostuser''"
    by (auto simp: ovs_AddOnHost_def Let_def split: option.splits prod.splits if_splits)
  obtain r c2 w2 where 2: "addLocalDeviceVhost O' H ?c args dir port mac w1 = ((r, c2), w2)" by (metis surj_pair)
  obtain e f where 3: "SaveConfig (clock w2) args (projr r) (fsys w2) = (e, f)" by fastforce
  from assms 1 2 3 have "r = Inr (projr r)" "c2 = conf'" "e = None" "w' = w2\<lparr>fsys := f\<rparr>"
    by (auto simp: ovs_AddOnHost_def Let_def on_fs_def split: option.splits sum.splits if_splits)
  with 1 2 3 that [of ?c w1 "projr r" w2] show thesis by simp
qed

lemma ovs_DelFromHost_run:
  assumes "ovs_DelFromHost O' H conf args dir w = (None, w')"
  obtains data f s1 where "LoadConfig args (fsys w) = (Inr data, f)"
    "deleteVhostPort O' (Vhostname data) (bridge_of (with_bridge conf defaultBridge)) (ost w) = (None, s1)"
    "delLocalNetworkBridge O' (with_bridge conf defaultBridge) s1 = (None, ost w')"
proof -
  let ?c = "with_bridge conf defaultBridge"
  obtain r f where 1: "LoadConfig args (fsys w) = (r, f)" by fastforce
  from assms 1 have r: "r = Inr (projr r)" and ty: "IfType (HostConf ?c) = ''vhostuser''"
    by (auto simp: ovs_DelFromHost_def on_fs_def Let_def split: option.splits sum.splits prod.splits if_splits)
  let ?w1 = "w\<lparr>fsys := f\<rparr>"
  obtain e w2 where 2: "delLocalDeviceVhost O' H ?c args dir (projr r) ?w1 = (e, w2)" by fastforce
  from assms 1 r ty 2 have 3: "e = None" "on_ovs (delLocalNetworkBridge O' ?c) w2 = (None, w')"
    by (cases e; cases r; auto simp: ovs_DelFromHost_def on_fs_def Let_def split: option.splits)+
  obtain e1 s1 where 4: "deleteVhostPort O' (Vhostname (projr r)) (bridge_of ?c) (ost w) = (e1, s1)" by fastforce
  from 2 3(1) 4 have "e1 = None" "ost w2 = s1"
    by (auto simp: delLocalDeviceVhost_def on_ovs_def on_fs_def split: option.splits prod.splits if_splits)
  with 1 r 3 4 that [of "projr r" f s1] show thesis by (auto simp: on_ovs_def split: prod.splits)
qed

text \<open>The bridge of a configuration on ADD and on DEL is the same unless the OVN port decides it.\<close>

definition same_bridge :: "host_os \<Rightarrow> NetConf \<Rightarrow> CmdArgs \<Rightarrow> bool" where
  "same_bridge H conf args \<longleftrightarrow> bridge_of conf \<noteq> [] \<or> fst (resolveOvnArgs (ho_LoadArgs H) conf args) = []"

lemma same_bridge_eq:
  assumes "same_bridge H conf args" and "resolveOvnArgs (ho_LoadArgs H) conf args = (port, mac)"
  shows "with_bridge conf (if port \<noteq> [] then ovnIntegrationBridge else defaultBridge) = with_bridge conf defaultBridge"
  using assms by (auto simp: same_bridge_def with_bridge_def)

context ovs_server
begin

lemma AddOnHost_view:
  assumes run: "ovs_AddOnHost O' H conf args dir w = ((None, conf'), w')"
    and ovn: "resolveOvnArgs (ho_LoadArgs H) conf args = (port, mac)"
  obtains data now f0 where "bridge_of conf' = bridge_of (with_bridge conf (if port \<noteq> [] then ovnIntegrationBridge else defaultBridge))"
    "Vhostname data = vc_Socketfile (host_vhost conf')"
    "br (ost w') = (br (ost w))(bridge_of conf' \<mapsto>
       insert (Vhostname data) (case br (ost w) (bridge_of conf') of None \<Rightarrow> {} | Some P \<Rightarrow> P))"
    "SaveConfig now args data f0 = (None, fsys w')"
  using run ovn
proof (rule ovs_AddOnHost_run)
  fix conf1 data w1 w2
  assume c1: "conf1 = with_bridge conf (if port \<noteq> [] then ovnIntegrationBridge else defaultBridge)"
    and b: "on_ovs (addLocalNetworkBridge O' conf1) w = (None, w1)"
    and d: "addLocalDeviceVhost O' H conf1 args dir port mac w1 = ((Inr data, conf'), w2)"
    and s: "SaveConfig (clock w2) args data (fsys w2) = (None, fsys w')" "ost w' = ost w2"
  from d show thesis
  proof (rule addLocalDeviceVhost_run)
    fix sdir w3 w4
    assume ws: "with_socketfile conf1 args = Some conf'"
      and c: "createVhostPort O' sdir (vc_Socketfile (host_vhost conf')) (vc_Mode (host_vhost conf') = ''client'') (bridge_of conf')
        (vhost_conf conf' args port) w3 = (Inr (Vhostname data), w4)"
      and o: "ost w3 = ost w1" "ost w2 = snd (getVhostPortMac O' (Vhostname data) (ost w4))"
    have bo: "bridge_of conf' = bridge_of conf1" by (rule with_socketfile_bridge(1) [OF ws])
    obtain s1 where "addLocalNetworkBridge O' conf1 (ost w) = (None, s1)" "ost w1 = s1"
      using b by (auto simp: on_ovs_def split: prod.splits)
    from addLocalNetworkBridge_view [OF this(1)] this(2)
    have v1: "br (ost w1) = (if bridge_of conf1 \<in> dom (br (ost w)) then br (ost w) else (br (ost w))(bridge_of conf1 \<mapsto> {}))" by simp
    have v2: "br (ost w') = (case br (ost w1) (bridge_of conf') of None \<Rightarrow> br (ost w1)
        | Some P \<Rightarrow> (br (ost w1))(bridge_of conf' \<mapsto> insert (Vhostname data) P))"
      using createVhostPort_view [OF c, unfolded o(1)] o(2) s(2) getVhostPortMac_view [of "Vhostname data" "ost w4"] by (simp split: option.split)
    have "br (ost w') = (br (ost w))(bridge_of conf' \<mapsto>
       insert (Vhostname data) (case br (ost w) (bridge_of conf') of None \<Rightarrow> {} | Some P \<Rightarrow> P))"
      unfolding v2 v1 bo by (auto split: option.splits)
    then show thesis by (rule that [rotated 2]) (use bo c1 createVhostPort_view(1) [OF c] s(1) in simp_all)
  qed
qed

lemma add_del_view:
  assumes add: "ovs_AddOnHost O' H conf args dir w = ((None, conf'), w1)"
    and del: "ovs_DelFromHost O' H conf args dir w1 = (None, w2)"
    and same: "same_bridge H conf args" and r: "reachable_file args (fsys w1)"
  shows "br (ost w2) =
    (let v = (\<lambda>b. map_option (\<lambda>P. P - {vc_Socketfile (host_vhost conf')}) (br (ost w) b)); b = bridge_of conf'
     in if v b = None \<or> v b = Some {} then v(b := None) else v)"
proof -
  obtain port mac where ovn: "resolveOvnArgs (ho_LoadArgs H) conf args = (port, mac)" by fastforce
  let ?c = "with_bridge conf defaultBridge"
  obtain data now f0 where a: "bridge_of conf' = bridge_of ?c" "Vhostname data = vc_Socketfile (host_vhost conf')"
    "br (ost w1) = (br (ost w))(bridge_of ?c \<mapsto> insert (Vhostname data) (case br (ost w) (bridge_of ?c) of None \<Rightarrow> {} | Some P \<Rightarrow> P))"
    "SaveConfig now args data f0 = (None, fsys w1)"
    using AddOnHost_view [OF add ovn] same_bridge_eq [OF same ovn] by metis
  obtain p where "local_path args = Some p" using r by (auto simp: reachable_file_def local_path_def)
  from save_local_run(1) [OF _ this] a(4) have "deny (fsys w1) = deny f0" by (simp add: SaveConfig_def)
  from reachable_file_deny [OF this] r have "reachable_file args f0" by simp
  from ovs_db.load_saved [OF a(4) this] obtain f where l: "LoadConfig args (fsys w1) = (Inr data, f)" by blast
  from del obtain s1 where d: "deleteVhostPort O' (Vhostname data) (bridge_of ?c) (ost w1) = (None, s1)"
    "delLocalNetworkBridge O' ?c s1 = (None, ost w2)" by (rule ovs_DelFromHost_run) (use l in auto)
  have s1: "br s1 = (\<lambda>b. map_option (\<lambda>P. P - {Vhostname data}) (br (ost w1) b))" by (rule deleteVhostPort_view [OF d(1)])
  show ?thesis unfolding delLocalNetworkBridge_view [OF d(2)] s1 a(1) a(2) [symmetric]
    by (cases "br (ost w) (bridge_of ?c)") (auto simp: a(3) Let_def)
qed

end

section \<open>An executable server\<close>

text \<open>
  A server that keeps the bridges with the names of their ports, and uses names as UUIDs. A transaction
  works on the bridges, the ports and the named UUIDs of its insertions, and is committed if every
  port that a bridge refers to is there.
\<close>

type_synonym sample_db = "(string \<times> string list) list"

record sample_txn =
  tx_names :: "(string \<times> string) list"
  tx_bridges :: sample_db
  tx_ports :: "string list"

definition sample_ports :: "sample_db \<Rightarrow> string \<Rightarrow> string list" where
  "sample_ports s b = concat (map snd (filter (\<lambda>x. fst x = b) s))"

definition row_name :: "ovs_row \<Rightarrow> string" where
  "row_name row = (case map_of row ''name'' of Some (OString n) \<Rightarrow> n | _ \<Rightarrow> [])"

definition op_name :: "ovs_op \<Rightarrow> string" where
  "op_name ov = (case op_Where ov of [c] \<Rightarrow> (case oc_Value c of OString n \<Rightarrow> n | _ \<Rightarrow> []) | _ \<Rightarrow> [])"

definition refs :: "(string \<times> string) list \<Rightarrow> ovs_val \<Rightarrow> string list" where
  "refs names v =
     (case v of
        OSet vs \<Rightarrow> map (\<lambda>x. case x of OUuid u \<Rightarrow> (case map_of names u of Some n \<Rightarrow> n | None \<Rightarrow> u) | _ \<Rightarrow> []) vs
      | _ \<Rightarrow> [])"

definition result_of :: "string \<Rightarrow> ovs_row list \<Rightarrow> ovs_result" where
  "result_of e rows = \<lparr>res_Error = e, res_Details = [], res_Rows = rows\<rparr>"

definition mutate_ports :: "ovs_mutation \<Rightarrow> (string \<times> string) list \<Rightarrow> string list \<Rightarrow> string list" where
  "mutate_ports m names ps =
     (if mu_Mutator m = MutateInsert then ps @ refs names (mu_Value m)
      else filter (\<lambda>p. p \<notin> set (refs names (mu_Value m))) ps)"

definition sample_op :: "ovs_op \<Rightarrow> sample_txn \<Rightarrow> ovs_result \<times> sample_txn" where
  "sample_op ov t =
     (let n = row_name (op_Row ov); k = op_name ov; bs = tx_bridges t; ps = tx_ports t; tbl = op_Table ov
      in if op_Op ov = ''insert'' then
           (if (tbl = tblBridge \<and> n \<in> fst ` set bs) \<or> (tbl = tblPort \<and> n \<in> set ps)
            then (result_of ''constraint violation'' [], t)
            else (result_of [] [], t\<lparr>tx_names := (op_UUIDName ov, n) # tx_names t,
                    tx_bridges := (if tbl = tblBridge then (n, []) # bs else bs),
                    tx_ports := (if tbl = tblPort then n # ps else ps)\<rparr>))
         else if op_Op ov = ''mutate'' then
           (result_of [] [], if tbl = tblBridge
              then t\<lparr>tx_bridges := map (\<lambda>(b, qs). (b, if b = k then mutate_ports (hd (op_Mutations ov)) (tx_names t) qs else qs)) bs\<rparr>
              else t)
         else if op_Op ov = ''delete'' then
           (result_of [] [], t\<lparr>tx_bridges := (if tbl = tblBridge then filter (\<lambda>x. fst x \<noteq> k) bs else bs),
              tx_ports := (if tbl = tblPort then filter (\<lambda>p. p \<noteq> k) ps else ps)\<rparr>)
         else
           (result_of []
              (if tbl = tblBridge
               then (if k \<in> fst ` set bs
                     then [[(''name'', OString k), (''_uuid'', OUuid k), (''ports'', OSet (map OUuid (sample_ports bs k)))]]
                     else [])
               else if k \<in> set ps then [[(''name'', OString k), (''_uuid'', OUuid k), (''mac'', OSet [])]] else []), t))"

fun sample_ops :: "ovs_op list \<Rightarrow> sample_txn \<Rightarrow> ovs_result list \<times> sample_txn" where
  "sample_ops [] t = ([], t)"
| "sample_ops (ov # ovs) t =
     (case sample_op ov t of
        (r, t1) \<Rightarrow> if res_Error r \<noteq> [] then ([r], t1) else (case sample_ops ovs t1 of (rs, t2) \<Rightarrow> (r # rs, t2)))"

definition start :: "sample_db \<Rightarrow> sample_txn" where
  "start s = \<lparr>tx_names = [], tx_bridges = s, tx_ports = concat (map snd s)\<rparr>"

definition sound :: "sample_txn \<Rightarrow> bool" where
  "sound t \<longleftrightarrow> list_all (\<lambda>x. list_all (\<lambda>p. p \<in> set (tx_ports t)) (snd x)) (tx_bridges t)"

definition sample_transact :: "ovs_op list \<Rightarrow> sample_db \<Rightarrow> (ovs_result list) result \<times> sample_db" where
  "sample_transact ops s =
     (case sample_ops ops (start s) of
        (reply, t) \<Rightarrow>
          if list_ex (\<lambda>r. res_Error r \<noteq> []) reply then (Inr reply, s)
          else if sound t then (Inr reply, tx_bridges t)
          else (Inr (reply @ [result_of ''referential integrity violation'' []]), s))"

definition sample_ovs :: "sample_db ovs_api" where
  "sample_ovs = \<lparr>ovs_model = None, ovs_client = None, ovs_connect = None, ovs_transact = sample_transact,
     ovs_new_set = (\<lambda>vs. Inr (OSet vs)), ovs_new_map = (\<lambda>kvs. Inr (OMap kvs))\<rparr>"

definition sample_br :: "sample_db \<Rightarrow> string \<rightharpoonup> string set" where
  "sample_br s b = (if b \<in> fst ` set s then Some (set (sample_ports s b)) else None)"

section \<open>It has the laws\<close>

lemmas op_defs = insert_op_def mutate_op_def delete_op_def select_op_def name_is_def zero_op_def row_name_def op_name_def
  tblBridge_def tblPort_def tblInterface_def tblOpenvSwitch_def

lemma sample_ops_length:
  "sample_ops ops t = (reply, t') \<Longrightarrow> \<not> list_ex (\<lambda>r. res_Error r \<noteq> []) reply \<Longrightarrow> length reply = length ops"
  by (induction ops arbitrary: t reply) (auto split: prod.splits if_splits)

lemma sample_atomic:
  assumes "sample_transact ops s = (r, s')" and "\<not> ok_reply ops r"
  shows "s' = s"
proof -
  obtain reply t where t: "sample_ops ops (start s) = (reply, t)" by fastforce
  show ?thesis
    using assms t sample_ops_length [OF t]
    by (auto simp: sample_transact_def ok_reply_def list_all_iff list_ex_iff split: if_splits)
qed

lemma sample_committed:
  assumes "sample_transact ops s = (r, s')" and "ok_reply ops r"
  obtains reply t where "sample_ops ops (start s) = (reply, t)" "\<not> list_ex (\<lambda>r. res_Error r \<noteq> []) reply" "sound t"
    "s' = tx_bridges t"
proof -
  obtain reply t where t: "sample_ops ops (start s) = (reply, t)" by fastforce
  with assms have "\<not> list_ex (\<lambda>r. res_Error r \<noteq> []) reply \<and> sound t \<and> s' = tx_bridges t"
    by (auto simp: sample_transact_def ok_reply_def list_all_iff list_ex_iff result_of_def split: if_splits)
  with t that show thesis by blast
qed

lemma sound_iff: "sound t \<longleftrightarrow> (\<forall>b qs p. (b, qs) \<in> set (tx_bridges t) \<longrightarrow> p \<in> set qs \<longrightarrow> p \<in> set (tx_ports t))"
  by (force simp: sound_def list_all_iff)

lemma sound_start: "sound (start s)"
  by (force simp: sound_iff start_def)

lemma set_sample_ports: "p \<in> set (sample_ports s b) \<longleftrightarrow> (\<exists>qs. (b, qs) \<in> set s \<and> p \<in> set qs)"
  by (force simp: sample_ports_def)

lemma sample_read:
  assumes "op_Op ov = ''select''"
  shows "sample_transact [ov] s = (Inr [fst (sample_op ov (start s))], s)"
    and "ok_reply [ov] (Inr [fst (sample_op ov (start s))])"
proof -
  obtain rows where "sample_op ov (start s) = (result_of [] rows, start s)" using assms by (simp add: sample_op_def Let_def)
  then show "sample_transact [ov] s = (Inr [fst (sample_op ov (start s))], s)" "ok_reply [ov] (Inr [fst (sample_op ov (start s))])"
    using sound_start by (simp_all add: sample_transact_def result_of_def ok_reply_def) (simp add: start_def)
qed

lemma sample_port_known: "p \<in> set (tx_ports (start s)) \<longleftrightarrow> (\<exists>b P. sample_br s b = Some P \<and> p \<in> P)"
proof
  assume "p \<in> set (tx_ports (start s))"
  then obtain b qs where "(b, qs) \<in> set s" "p \<in> set qs" by (force simp: start_def)
  then have "sample_br s b = Some (set (sample_ports s b))" "p \<in> set (sample_ports s b)"
    by (force simp: sample_br_def set_sample_ports)+
  then show "\<exists>b P. sample_br s b = Some P \<and> p \<in> P" by blast
next
  assume "\<exists>b P. sample_br s b = Some P \<and> p \<in> P"
  then obtain b qs where "(b, qs) \<in> set s" "p \<in> set qs" by (auto simp: sample_br_def set_sample_ports split: if_splits)
  then show "p \<in> set (tx_ports (start s))" by (force simp: start_def)
qed

lemma sample_br_update:
  "sample_br (map (\<lambda>(b, qs). (b, if b = k then qs @ [p] else qs)) s) =
     (case sample_br s k of None \<Rightarrow> sample_br s | Some P \<Rightarrow> (sample_br s)(k \<mapsto> insert p P))"
  "sample_br (map (\<lambda>(b, qs). (b, if b = k then filter (\<lambda>q. q \<noteq> p) qs else qs)) s) =
     (case sample_br s k of None \<Rightarrow> sample_br s | Some P \<Rightarrow> (sample_br s)(k \<mapsto> P - {p}))"
proof -
  have keys: "fst ` (\<lambda>(b, qs). (b, if b = k then g qs else qs)) ` set s = fst ` set s" for g by force
  have other: "sample_ports (map (\<lambda>(b, qs). (b, if b = k then g qs else qs)) s) b = sample_ports s b" if "b \<noteq> k" for g b
    using that by (induction s) (auto simp: sample_ports_def)
  have add: "k \<in> fst ` set s \<Longrightarrow> set (sample_ports (map (\<lambda>(b, qs). (b, if b = k then qs @ [p] else qs)) s) k) =
      insert p (set (sample_ports s k))" by (force simp: set_sample_ports)
  have del: "set (sample_ports (map (\<lambda>(b, qs). (b, if b = k then filter (\<lambda>q. q \<noteq> p) qs else qs)) s) k) =
      set (sample_ports s k) - {p}" by (force simp: set_sample_ports)
  show "sample_br (map (\<lambda>(b, qs). (b, if b = k then qs @ [p] else qs)) s) =
     (case sample_br s k of None \<Rightarrow> sample_br s | Some P \<Rightarrow> (sample_br s)(k \<mapsto> insert p P))"
    by (intro ext) (simp add: sample_br_def keys other add split: option.splits)
  show "sample_br (map (\<lambda>(b, qs). (b, if b = k then filter (\<lambda>q. q \<noteq> p) qs else qs)) s) =
     (case sample_br s k of None \<Rightarrow> sample_br s | Some P \<Rightarrow> (sample_br s)(k \<mapsto> P - {p}))"
    by (intro ext) (simp add: sample_br_def keys other del split: option.splits)
qed

lemma sample_br_bridge:
  "b \<notin> fst ` set s \<Longrightarrow> sample_br ((b, []) # s) = (sample_br s)(b \<mapsto> {})"
  "sample_br (filter (\<lambda>x. fst x \<noteq> b) s) = (sample_br s)(b := None)"
proof -
  have "sample_ports ((b, []) # s) c = (if c = b then sample_ports s b else sample_ports s c)" for c
    by (simp add: sample_ports_def)
  moreover have "sample_ports s b = []" if "b \<notin> fst ` set s" using that by (force simp: sample_ports_def filter_empty_conv)
  ultimately show "sample_br ((b, []) # s) = (sample_br s)(b \<mapsto> {})" if "b \<notin> fst ` set s"
    using that by (intro ext) (simp add: sample_br_def)
  have "sample_ports (filter (\<lambda>x. fst x \<noteq> b) s) c = sample_ports s c" if "c \<noteq> b" for c
    using that by (induction s) (auto simp: sample_ports_def)
  moreover have "fst ` set (filter (\<lambda>x. fst x \<noteq> b) s) = fst ` set s - {b}" by force
  ultimately show "sample_br (filter (\<lambda>x. fst x \<noteq> b) s) = (sample_br s)(b := None)"
    by (intro ext) (simp add: sample_br_def del: set_filter)
qed

lemma tables_differ:
  "tblInterface \<noteq> tblBridge" "tblInterface \<noteq> tblPort" "tblPort \<noteq> tblBridge" "tblBridge \<noteq> tblPort" "tblOpenvSwitch \<noteq> tblBridge"
  by (simp_all add: tblBridge_def tblPort_def tblInterface_def tblOpenvSwitch_def)

lemma sample_op_insert:
  "sample_op (insert_op tbl row u) t =
     (if (tbl = tblBridge \<and> row_name row \<in> fst ` set (tx_bridges t)) \<or> (tbl = tblPort \<and> row_name row \<in> set (tx_ports t))
      then (result_of ''constraint violation'' [], t)
      else (result_of [] [], t\<lparr>tx_names := (u, row_name row) # tx_names t,
              tx_bridges := (if tbl = tblBridge then (row_name row, []) # tx_bridges t else tx_bridges t),
              tx_ports := (if tbl = tblPort then row_name row # tx_ports t else tx_ports t)\<rparr>))"
  by (simp add: sample_op_def insert_op_def zero_op_def Let_def cong: if_cong)

lemma sample_op_mutate:
  "sample_op (mutate_op tblBridge (name_is k) col m v) t =
     (result_of [] [], t\<lparr>tx_bridges := map (\<lambda>(b, qs). (b, if b = k
        then mutate_ports \<lparr>mu_Column = col, mu_Mutator = m, mu_Value = v\<rparr> (tx_names t) qs else qs)) (tx_bridges t)\<rparr>)"
  "sample_op (mutate_op tblOpenvSwitch c col m v) t = (result_of [] [], t)"
  using tables_differ by (simp_all add: sample_op_def mutate_op_def zero_op_def op_name_def name_is_def Let_def cong: if_cong)

lemma sample_op_delete:
  "sample_op (delete_op tbl (name_is k)) t =
     (result_of [] [], t\<lparr>tx_bridges := (if tbl = tblBridge then filter (\<lambda>x. fst x \<noteq> k) (tx_bridges t) else tx_bridges t),
        tx_ports := (if tbl = tblPort then filter (\<lambda>p. p \<noteq> k) (tx_ports t) else tx_ports t)\<rparr>)"
  by (simp add: sample_op_def delete_op_def zero_op_def op_name_def name_is_def Let_def cong: if_cong)

lemma result_of_sel: "res_Error (result_of e rs) = e" "res_Rows (result_of e rs) = rs"
  by (simp_all add: result_of_def)

lemmas sample_run = sample_op_insert sample_op_mutate sample_op_delete tables_differ result_of_sel start_def mutate_ports_def refs_def

lemma sample_add_bridge:
  assumes "sample_transact (add_bridge_ops b) s = (r, s')" and "ok_reply (add_bridge_ops b) r"
  shows "sample_br s' = (sample_br s)(b \<mapsto> {})"
proof -
  from assms obtain reply t where "sample_ops (add_bridge_ops b) (start s) = (reply, t)"
    "\<not> list_ex (\<lambda>r. res_Error r \<noteq> []) reply" "s' = tx_bridges t" by (rule sample_committed)
  then have "s' = (b, []) # s" "b \<notin> fst ` set s" by (auto simp: sample_run row_name_def split: if_splits)
  then show ?thesis using sample_br_bridge(1) by simp
qed

lemma sample_del_bridge:
  assumes "sample_transact (del_bridge_ops b u) s = (r, s')" and "ok_reply (del_bridge_ops b u) r"
  shows "sample_br s' = (sample_br s)(b := None)"
proof -
  from assms obtain reply t where "sample_ops (del_bridge_ops b u) (start s) = (reply, t)" "s' = tx_bridges t"
    by (rule sample_committed)
  then have "s' = filter (\<lambda>x. fst x \<noteq> b) s" by (auto simp: sample_run)
  then show ?thesis using sample_br_bridge(2) by simp
qed

lemma sample_add_port:
  assumes "sample_transact (add_port_ops irow prow b) s = (r, s')" and "ok_reply (add_port_ops irow prow b) r"
    and "map_of prow ''name'' = Some (OString p)"
  shows "sample_br s' = (case sample_br s b of None \<Rightarrow> sample_br s | Some P \<Rightarrow> (sample_br s)(b \<mapsto> insert p P))"
proof -
  from assms(1,2) obtain reply t where t: "sample_ops (add_port_ops irow prow b) (start s) = (reply, t)"
    "\<not> list_ex (\<lambda>r. res_Error r \<noteq> []) reply" "s' = tx_bridges t" by (rule sample_committed)
  then have "s' = map (\<lambda>(c, qs). (c, if c = b then qs @ [p] else qs)) s"
    using assms(3) by (auto simp: sample_run row_name_def split: if_splits)
  then show ?thesis using sample_br_update(1) by simp
qed

lemma sample_del_port:
  assumes "sample_transact (del_port_ops p b p) s = (r, s')" and "ok_reply (del_port_ops p b p) r"
  shows "\<forall>b' P. b' \<noteq> b \<longrightarrow> sample_br s b' = Some P \<longrightarrow> p \<notin> P"
    and "sample_br s' = (case sample_br s b of None \<Rightarrow> sample_br s | Some P \<Rightarrow> (sample_br s)(b \<mapsto> P - {p}))"
proof -
  from assms(1,2) obtain reply t where t: "sample_ops (del_port_ops p b p) (start s) = (reply, t)" "sound t"
    "s' = tx_bridges t" by (rule sample_committed)
  then have s': "s' = map (\<lambda>(c, qs). (c, if c = b then filter (\<lambda>q. q \<noteq> p) qs else qs)) s"
    and ports: "p \<notin> set (tx_ports t)"
    by (auto simp: sample_run)
  show "sample_br s' = (case sample_br s b of None \<Rightarrow> sample_br s | Some P \<Rightarrow> (sample_br s)(b \<mapsto> P - {p}))"
    using sample_br_update(2) s' by simp
  show "\<forall>b' P. b' \<noteq> b \<longrightarrow> sample_br s b' = Some P \<longrightarrow> p \<notin> P"
  proof (intro allI impI notI)
    fix b' P assume b: "b' \<noteq> b" and "sample_br s b' = Some P" "p \<in> P"
    then obtain qs where q: "(b', qs) \<in> set s" "p \<in> set qs" by (auto simp: sample_br_def set_sample_ports split: if_splits)
    then have "(b', qs) \<in> set (tx_bridges t)" using b t(3) s' by force
    with t(2) q ports show False unfolding sound_iff by blast
  qed
qed

lemma sample_select_bridge:
  fixes b c s defines "x \<equiv> fst (sample_op (select_op tblBridge (name_is b) [c]) (start s))"
  shows "case sample_br s b of
       None \<Rightarrow> res_Rows x = []
     | Some P \<Rightarrow> (\<exists>row rs. res_Rows x = row # rs \<and> (c = ''_uuid'' \<longrightarrow> map_of row c = Some (OUuid b)) \<and>
         (c = ''ports'' \<longrightarrow> (portsSetNonEmpty row \<longleftrightarrow> P \<noteq> {})))"
  by (auto simp: x_def op_defs sample_op_def start_def result_of_def sample_br_def portsSetNonEmpty_def)

lemma sample_select_port:
  fixes p s defines "x \<equiv> fst (sample_op (select_op tblPort (name_is p) [''_uuid'']) (start s))"
  shows "if \<exists>b P. sample_br s b = Some P \<and> p \<in> P
     then \<exists>row rs. res_Rows x = row # rs \<and> map_of row ''_uuid'' = Some (OUuid p) else res_Rows x = []"
  unfolding sample_port_known [symmetric] by (simp add: x_def op_defs sample_op_def result_of_def)

interpretation sample_server: ovs_server sample_ovs sample_br "\<lambda>_ b. b" "\<lambda>_ p. p"
proof
  have sel: "op_Op (select_op tbl cnd cs) = ''select''" for tbl cnd cs by (simp add: op_defs)
  show "getOvsClient sample_ovs = None" by (simp add: getOvsClient_def sample_ovs_def)
  show "ovs_new_set sample_ovs vs = Inr (OSet vs)" for vs by (simp add: sample_ovs_def)
  show "sample_br s' = sample_br s" if "ovs_transact sample_ovs ops s = (r, s')" "\<not> ok_reply ops r" for ops s r s'
    using sample_atomic [of ops s r s'] that by (simp add: sample_ovs_def)
  show "sample_br s' = sample_br s" if "ovs_transact sample_ovs [select_op tblPort (name_is p) [''mac'']] s = (r, s')" for p s r s'
    using sample_read(1) [OF sel] that by (simp add: sample_ovs_def)
  show "sample_br s' = (sample_br s)(b \<mapsto> {})"
    if "ovs_transact sample_ovs (add_bridge_ops b) s = (r, s')" "ok_reply (add_bridge_ops b) r" for b s r s'
    using sample_add_bridge that by (simp add: sample_ovs_def)
  show "sample_br s' = (sample_br s)(b := None)"
    if "ovs_transact sample_ovs (del_bridge_ops b b) s = (r, s')" "ok_reply (del_bridge_ops b b) r" for b s r s'
    using sample_del_bridge that by (simp add: sample_ovs_def)
  show "sample_br s' = (case sample_br s b of None \<Rightarrow> sample_br s | Some P \<Rightarrow> (sample_br s)(b \<mapsto> insert p P))"
    if "ovs_transact sample_ovs (add_port_ops irow prow b) s = (r, s')" "ok_reply (add_port_ops irow prow b) r"
      "map_of prow ''name'' = Some (OString p)" for irow prow b s r s' p
    using sample_add_port that by (simp add: sample_ovs_def)
  show "(\<forall>b' P. b' \<noteq> b \<longrightarrow> sample_br s b' = Some P \<longrightarrow> p \<notin> P) \<and>
      sample_br s' = (case sample_br s b of None \<Rightarrow> sample_br s | Some P \<Rightarrow> (sample_br s)(b \<mapsto> P - {p}))"
    if "ovs_transact sample_ovs (del_port_ops p b p) s = (r, s')" "ok_reply (del_port_ops p b p) r" for p b s r s'
    using sample_del_port that by (simp add: sample_ovs_def)
  show "\<exists>x xs. ovs_transact sample_ovs [select_op tblBridge (name_is b) [c]] s = (Inr (x # xs), s) \<and>
      ok_reply [select_op tblBridge (name_is b) [c]] (Inr (x # xs)) \<and>
      (case sample_br s b of
         None \<Rightarrow> res_Rows x = []
       | Some P \<Rightarrow> (\<exists>row rs. res_Rows x = row # rs \<and> (c = ''_uuid'' \<longrightarrow> map_of row c = Some (OUuid b)) \<and>
           (c = ''ports'' \<longrightarrow> (portsSetNonEmpty row \<longleftrightarrow> P \<noteq> {}))))" for b c s
    by (rule exI [where x = "fst (sample_op (select_op tblBridge (name_is b) [c]) (start s))"], rule exI [where x = "[]"],
        intro conjI sample_read(2) [OF sel] sample_select_bridge) (simp add: sample_ovs_def sample_read(1) [OF sel])
  show "\<exists>x xs. ovs_transact sample_ovs [select_op tblPort (name_is p) [''_uuid'']] s = (Inr (x # xs), s) \<and>
      ok_reply [select_op tblPort (name_is p) [''_uuid'']] (Inr (x # xs)) \<and>
      (if \<exists>b P. sample_br s b = Some P \<and> p \<in> P
       then \<exists>row rs. res_Rows x = row # rs \<and> map_of row ''_uuid'' = Some (OUuid p) else res_Rows x = [])" for p s
    by (rule exI [where x = "fst (sample_op (select_op tblPort (name_is p) [''_uuid'']) (start s))"], rule exI [where x = "[]"],
        intro conjI sample_read(2) [OF sel] sample_select_port) (simp add: sample_ovs_def sample_read(1) [OF sel])
qed

section \<open>Properties\<close>

text \<open>
  C33: A DEL of the OVS engine undoes the ADD on the bridges, on every server that keeps the laws. After a
  successful ADD and a successful DEL of the same interface its port is on no bridge, the other
  bridges are as before, and its bridge is as before, except that it does not stay without ports:
  a bridge that the ADD created is gone. This needs that ADD and DEL use the same bridge, which they
  do when the configuration names one or no OVN port is given.
\<close>

theorem ovs_add_del:
  assumes "ovs_server O' br bid pid" and "same_bridge H conf args" and "reachable_file args (fsys w1)"
    and "ovs_AddOnHost O' H conf args dir w = ((None, conf'), w1)"
    and "ovs_DelFromHost O' H conf args dir w1 = (None, w2)"
  shows "br (ost w2) =
    (let v = (\<lambda>b. map_option (\<lambda>P. P - {vc_Socketfile (host_vhost conf')}) (br (ost w) b)); b = bridge_of conf'
     in if v b = None \<or> v b = Some {} then v(b := None) else v)"
  by (rule ovs_server.add_del_view [OF assms(1,4,5,2,3)])

definition ovs_netconf :: NetConf where
  "ovs_netconf = zero_NetConf\<lparr>HostConf := zero_UserSpaceConf\<lparr>Engine := ''ovs-dpdk'', IfType := ''vhostuser'', NetType := ''bridge'',
     MAC := ''m'', uc_VhostConf := zero_VhostConf\<lparr>vc_Socketfile := ''s''\<rparr>\<rparr>\<rparr>"

definition ovs_node :: "sample_db \<Rightarrow> (unit, unit, sample_db) cni_node" where
  "ovs_node s = \<lparr>vst = (), fsys = \<lparr>nodes = [], deny = (\<lambda>_ _. False)\<rparr>, clock = 0, nkst = (), ost = s\<rparr>"

theorem ovs_add_del_witness:
  "let a = ovs_AddOnHost sample_ovs sample_host ovs_netconf sample_args ''/srv/pod'' (ovs_node [(''br1'', [''p''])]);
       d = ovs_DelFromHost sample_ovs sample_host ovs_netconf sample_args ''/srv/pod'' (snd a)
   in ost (snd a) = [(''br0'', [''s'']), (''br1'', [''p''])] \<and> sample_br (ost (snd d)) = [''br1'' \<mapsto> {''p''}]"
proof -
  let ?a = "ovs_AddOnHost sample_ovs sample_host ovs_netconf sample_args ''/srv/pod'' (ovs_node [(''br1'', [''p''])])"
  let ?d = "ovs_DelFromHost sample_ovs sample_host ovs_netconf sample_args ''/srv/pod'' (snd ?a)"
  let ?f = "pathJoin DefaultLocalCNIDir ''local-0123456789ab-net1.json''"
  have "case ?a of ((e, c), w1) \<Rightarrow> e = None \<and> vc_Socketfile (host_vhost c) = ''s'' \<and> bridge_of c = ''br0'' \<and>
      ost w1 = [(''br0'', [''s'']), (''br1'', [''p''])] \<and>
      \<not> deny (fsys w1) OpStat ?f \<and> \<not> deny (fsys w1) OpRead ?f \<and> \<not> deny (fsys w1) OpRemove ?f \<and>
      fst (ovs_DelFromHost sample_ovs sample_host ovs_netconf sample_args ''/srv/pod'' w1) = None" by code_simp
  then have run: "fst (fst ?a) = None" "fst ?d = None" and b: "vc_Socketfile (host_vhost (snd (fst ?a))) = ''s''"
      "bridge_of (snd (fst ?a)) = ''br0''" "ost (snd ?a) = [(''br0'', [''s'']), (''br1'', [''p''])]"
    and ok: "\<not> deny (fsys (snd ?a)) OpStat ?f" "\<not> deny (fsys (snd ?a)) OpRead ?f" "\<not> deny (fsys (snd ?a)) OpRemove ?f"
    by (simp_all add: case_prod_unfold)
  from run(1) have a: "?a = ((None, snd (fst ?a)), snd ?a)" by (metis prod.collapse)
  from run(2) have d: "?d = (None, snd ?d)" by (metis prod.collapse)
  have s: "same_bridge sample_host ovs_netconf sample_args" by code_simp
  have "local_name sample_args = Some ''local-0123456789ab-net1.json''" "plain_name ''local-0123456789ab-net1.json''"
    by code_simp+
  with ok have r: "reachable_file sample_args (fsys (snd ?a))" by (simp add: reachable_file_def local_path_def)
  have o: "ost (ovs_node [(''br1'', [''p''])]) = [(''br1'', [''p''])]" by (simp add: ovs_node_def)
  have br: "sample_br [(''br1'', [''p''])] = [''br1'' \<mapsto> {''p''}]"
    by (intro ext) (simp add: sample_br_def sample_ports_def)
  have "sample_br (ost (snd ?d)) = [''br1'' \<mapsto> {''p''}]"
    using ovs_add_del [OF sample_server.ovs_server_axioms s r a d] unfolding b o br by (simp add: Let_def fun_eq_iff)
  with b(3) show ?thesis by (simp add: Let_def)
qed

text \<open>
  C34: Without a configured bridge, an interface that is bound to an OVN port is added on the bridge of OVN
  but deleted from the default bridge: a successful ADD puts its port on \<open>br-int\<close>, while a DEL does what
  it does for a configuration that names \<open>br0\<close>.
\<close>

theorem ovn_del_wrong_bridge:
  assumes "resolveOvnArgs (ho_LoadArgs H) conf args = (port, mac)" and "port \<noteq> []" and "bridge_of conf = []"
    and "ovs_server O' br bid pid" and "ovs_AddOnHost O' H conf args dir w = ((None, conf'), w1)"
  shows "(\<exists>P. br (ost w1) ovnIntegrationBridge = Some P \<and> vc_Socketfile (host_vhost conf') \<in> P) \<and>
    ovs_DelFromHost O' H conf args dir w1 = ovs_DelFromHost O' H (with_bridge conf ''br0'') args dir w1"
proof
  from assms(4,5,1) obtain data now f0 where v: "bridge_of conf' = bridge_of (with_bridge conf (if port \<noteq> [] then ovnIntegrationBridge else defaultBridge))"
    "Vhostname data = vc_Socketfile (host_vhost conf')"
    "br (ost w1) = (br (ost w))(bridge_of conf' \<mapsto>
       insert (Vhostname data) (case br (ost w) (bridge_of conf') of None \<Rightarrow> {} | Some P \<Rightarrow> P))"
    "SaveConfig now args data f0 = (None, fsys w1)" by (rule ovs_server.AddOnHost_view)
  have "bridge_of conf' = ovnIntegrationBridge" using v(1) assms(2,3) by (simp add: with_bridge_def)
  then show "\<exists>P. br (ost w1) ovnIntegrationBridge = Some P \<and> vc_Socketfile (host_vhost conf') \<in> P" using v(2,3) by simp
  have "with_bridge (with_bridge conf ''br0'') defaultBridge = with_bridge conf defaultBridge"
    using assms(3) by (simp add: with_bridge_def defaultBridge_def)
  then show "ovs_DelFromHost O' H conf args dir w1 = ovs_DelFromHost O' H (with_bridge conf ''br0'') args dir w1"
    unfolding ovs_DelFromHost_def by (simp only:)
qed

definition ovn_netconf :: NetConf where
  "ovn_netconf = ovs_netconf\<lparr>nc_Args := Some [(''OvnPort'', JStr ''lp-1'')]\<rparr>"

text \<open>On the executable server the DEL then fails, since the port is still on the bridge of OVN.\<close>

theorem ovn_del_wrong_bridge_witness:
  "let a = ovs_AddOnHost sample_ovs sample_host ovn_netconf sample_args ''/srv/pod'' (ovs_node [(''br-int'', [])])
   in ost (snd a) = [(''br-int'', [''s''])] \<and>
      fst (ovs_DelFromHost sample_ovs sample_host (with_bridge ovn_netconf ''br0'') sample_args ''/srv/pod'' (snd a)) \<noteq> None \<and>
      fst (ovs_DelFromHost sample_ovs sample_host ovn_netconf sample_args ''/srv/pod'' (snd a)) \<noteq> None"
proof -
  let ?a = "ovs_AddOnHost sample_ovs sample_host ovn_netconf sample_args ''/srv/pod'' (ovs_node [(''br-int'', [])])"
  have "case ?a of ((e, c), w1) \<Rightarrow> e = None \<and> ost w1 = [(''br-int'', [''s''])] \<and>
      fst (ovs_DelFromHost sample_ovs sample_host (with_bridge ovn_netconf ''br0'') sample_args ''/srv/pod'' w1) \<noteq> None"
    by code_simp
  then have run: "fst (fst ?a) = None" "ost (snd ?a) = [(''br-int'', [''s''])]"
    "fst (ovs_DelFromHost sample_ovs sample_host (with_bridge ovn_netconf ''br0'') sample_args ''/srv/pod'' (snd ?a)) \<noteq> None"
    by (simp_all add: case_prod_unfold)
  from run(1) have a: "?a = ((None, snd (fst ?a)), snd ?a)" by (metis prod.collapse)
  have n: "resolveOvnArgs (ho_LoadArgs sample_host) ovn_netconf sample_args = (''lp-1'', [])" "''lp-1'' \<noteq> []" "bridge_of ovn_netconf = []"
    by code_simp+
  note run(2,3)
  moreover note ovn_del_wrong_bridge [OF n sample_server.ovs_server_axioms a]
  ultimately show ?thesis by (simp add: Let_def)
qed

end
