(* ===== verification/Cni_Main.thy ===== *)
theory Cni_Main
  imports Logging Vpp_Infra Vpp_Frame Cni_Vpp Ovs_Server
begin

text \<open>
  The commands of the plugin, \<open>userspace/cni/cni.go\<close> with the interface of the engines,
  \<open>usrspcni/usrspcni.go\<close>: reading the configuration, finding the pod and the directory of its sockets,
  and the commands ADD, CHECK and DEL, which call the engine of the host and then that of the
  container. Network namespaces and IPAM plugins are a parameter over a state of their own.
\<close>

section \<open>State and interfaces\<close>

record ('v, 'k, 'o, 'x) cni_state = "('v, 'k, 'o) cni_node" +
  xst :: 'x
  log :: logger

definition on_ext :: "('x \<Rightarrow> 'a \<times> 'x) \<Rightarrow> ('v, 'k, 'o, 'x, 'm) cni_state_scheme \<Rightarrow> 'a \<times> ('v, 'k, 'o, 'x, 'm) cni_state_scheme" where
  "on_ext req w = (case req (xst w) of (r, x) \<Rightarrow> (r, w\<lparr>xst := x\<rparr>))"

text \<open>
  The packages of the CNI project: opening a network namespace gives its path; a plugin for IPAM adds
  and releases addresses; a result is converted to the current version and printed; a link is deleted
  in a namespace.
\<close>

record 'x cni_ext =
  ext_GetNS :: "string \<Rightarrow> 'x \<Rightarrow> string result"
  ext_ExecAdd :: "string \<Rightarrow> string \<Rightarrow> 'x \<Rightarrow> json result \<times> 'x"
  ext_NewResult :: "json \<Rightarrow> Result result"
  ext_ExecDel :: "string \<Rightarrow> string \<Rightarrow> 'x \<Rightarrow> go_error option \<times> 'x"
  ext_PrintResult :: "Result \<Rightarrow> go_error option"
  ext_EnterNS :: "string \<Rightarrow> 'x \<Rightarrow> go_error option"
  ext_DelLinkByNameAddr :: "string \<Rightarrow> string \<Rightarrow> 'x \<Rightarrow> go_error option \<times> 'x"

definition ErrLinkNotFound :: go_error where
  "ErrLinkNotFound = EMsg ''link not found''"

text \<open>An engine. The operation on the host may complete the configuration, so it returns it.\<close>

record 's UsrSpCni =
  AddOnHost :: "NetConf \<Rightarrow> CmdArgs \<Rightarrow> string \<Rightarrow> Result option \<Rightarrow> 's \<Rightarrow> (go_error option \<times> NetConf) \<times> 's"
  AddOnContainer :: "NetConf \<Rightarrow> CmdArgs \<Rightarrow> bool \<Rightarrow> string \<Rightarrow> Pod option \<Rightarrow> Result option \<Rightarrow> 's \<Rightarrow>
    (Pod option \<times> go_error option) \<times> 's"
  DelFromHost :: "NetConf \<Rightarrow> CmdArgs \<Rightarrow> string \<Rightarrow> 's \<Rightarrow> go_error option \<times> 's"
  DelFromContainer :: "CmdArgs \<Rightarrow> string \<Rightarrow> 's \<Rightarrow> go_error option \<times> 's"

definition CniVpp ::
  "'v vpp_api \<Rightarrow> go_error option \<Rightarrow> 'k kube_api \<Rightarrow> cni_lib \<Rightarrow> ('v, 'k, 'o, 'x, 'm) cni_state_scheme UsrSpCni" where
  "CniVpp V openCh K L =
     \<lparr>AddOnHost = vpp_AddOnHost V openCh, AddOnContainer = vpp_AddOnContainer K L,
      DelFromHost = vpp_DelFromHost V openCh, DelFromContainer = vpp_DelFromContainer\<rparr>"

definition CniOvs ::
  "'o ovs_api \<Rightarrow> host_os \<Rightarrow> 'k kube_api \<Rightarrow> cni_lib \<Rightarrow> ('v, 'k, 'o, 'x, 'm) cni_state_scheme UsrSpCni" where
  "CniOvs O' H K L =
     \<lparr>AddOnHost = (\<lambda>conf args dir _. ovs_AddOnHost O' H conf args dir), AddOnContainer = ovs_AddOnContainer K L,
      DelFromHost = ovs_DelFromHost O' H, DelFromContainer = ovs_DelFromContainer\<rparr>"

section \<open>Configuration and shared directory\<close>

text \<open>The configuration; the log is set up from it.\<close>

definition LoadNetConf ::
  "cni_lib \<Rightarrow> string \<Rightarrow> ('v, 'k, 'o, 'x, 'm) cni_state_scheme \<Rightarrow> NetConf result \<times> ('v, 'k, 'o, 'x, 'm) cni_state_scheme" where
  "LoadNetConf L bytes w =
     (case Unmarshal_NetConf L bytes of
        Inl e \<Rightarrow> (Inl (EWrap ''failed to load netconf'' e), w)
      | Inr conf \<Rightarrow>
          (case (if LogFile conf \<noteq> [] then SetLogFile (clock w) (LogFile conf) (log w) (fsys w) else (log w, fsys w)) of
             (g, f) \<Rightarrow> (Inr conf, w\<lparr>fsys := f, log := (if LogLevel conf \<noteq> [] then SetLogLevel (LogLevel conf) g else g)\<rparr>)))"

definition DefaultOvsCNIDir :: string where
  "DefaultOvsCNIDir = ''/usr/local/var/run/openvswitch''"

definition DefaultVppCNIDir :: string where
  "DefaultVppCNIDir = ''/var/run/vpp''"

text \<open>The directory when the pod names none: a directory of the container.\<close>

definition container_dir :: "NetConf \<Rightarrow> CmdArgs \<Rightarrow> string option" where
  "container_dir conf args =
     map_option (\<lambda>cid.
       (if SharedDir conf \<noteq> [] then
          (if last (SharedDir conf) = slash then SharedDir conf @ cid @ ''/'' else SharedDir conf @ ''/'' @ cid @ ''/'')
        else if Engine (HostConf conf) = ''vpp'' then DefaultVppCNIDir @ ''/'' @ cid @ ''/''
        else if Engine (HostConf conf) = ''ovs-dpdk'' then DefaultOvsCNIDir @ ''/'' @ cid @ ''/''
        else DefaultBaseCNIDir @ ''/'' @ cid @ ''/'')) (slice12 (ContainerID args))"

text \<open>Whether there is a client, the pod, and the directory.\<close>

definition GetPodAndSharedDir ::
  "'k kube_api \<Rightarrow> NetConf \<Rightarrow> CmdArgs \<Rightarrow> bool \<Rightarrow> ('v, 'k, 'm) node_scheme \<Rightarrow>
   (bool \<times> Pod option \<times> string result) \<times> ('v, 'k, 'm) node_scheme" where
  "GetPodAndSharedDir K conf args client w =
     (case on_kube (GetPod K (Some args) client (KubeConfig conf)) w of
        ((pod, client1, err), w1) \<Rightarrow>
          (case (if err = None then GetPodVolumeMountHostSharedDir pod else Inl NoPodProvidedError) of
             Inr dir \<Rightarrow> ((client1, pod, Inr dir), w1)
           | Inl _ \<Rightarrow>
               (case container_dir conf args of
                  None \<Rightarrow> ((client1, pod, Inl EPanic), w1)
                | Some dir \<Rightarrow> ((client1, pod, Inr dir), w1))))"

section \<open>Commands\<close>

definition engine :: "'s UsrSpCni \<Rightarrow> 's UsrSpCni \<Rightarrow> string \<Rightarrow> 's UsrSpCni option" where
  "engine vpp ovs name = (if name = ''vpp'' then Some vpp else if name = ''ovs-dpdk'' then Some ovs else None)"

definition container_engine :: "NetConf \<Rightarrow> string" where
  "container_engine conf = (if Engine (ContainerConf conf) \<noteq> [] then Engine (ContainerConf conf) else Engine (HostConf conf))"

text \<open>The addresses of the IPAM plugin, if there is one, in place of the result.\<close>

definition ipam_result ::
  "'x cni_ext \<Rightarrow> NetConf \<Rightarrow> CmdArgs \<Rightarrow> Result \<Rightarrow> ('v, 'k, 'o, 'x, 'm) cni_state_scheme \<Rightarrow>
   Result result \<times> ('v, 'k, 'o, 'x, 'm) cni_state_scheme" where
  "ipam_result X conf args result w =
     (if IPAMType conf = [] then (Inr result, w)
      else
        (case on_ext (ext_ExecAdd X (IPAMType conf) (StdinData args)) w of
           (Inl e, w1) \<Rightarrow> (Inl e, w1)
         | (Inr raw, w1) \<Rightarrow>
             (case ext_NewResult X raw of
                Inl e \<Rightarrow> (Inl e, w1)
              | Inr new \<Rightarrow>
                  if IPs new = [] then (Inl (EMsg ''ERROR: Unable to get IP Address''), w1)
                  else (Inr (new\<lparr>Interfaces := Interfaces result\<rparr>), w1))))"

text \<open>\<open>CmdAdd\<close> gives the result that it prints.\<close>

definition CmdAdd ::
  "('v, 'k, 'o, 'x, 'm) cni_state_scheme UsrSpCni \<Rightarrow> ('v, 'k, 'o, 'x, 'm) cni_state_scheme UsrSpCni \<Rightarrow> 'k kube_api \<Rightarrow>
   cni_lib \<Rightarrow> 'x cni_ext \<Rightarrow> CmdArgs \<Rightarrow> bool \<Rightarrow> ('v, 'k, 'o, 'x, 'm) cni_state_scheme \<Rightarrow>
   Result result \<times> ('v, 'k, 'o, 'x, 'm) cni_state_scheme" where
  "CmdAdd vpp ovs K L X args client w =
     (case LoadNetConf L (StdinData args) w of
        (loaded, w1) \<Rightarrow>
          (case slice12 (ContainerID args) of
             None \<Rightarrow> (Inl EPanic, w1)
           | Some _ \<Rightarrow>
               (case loaded of
                  Inl e \<Rightarrow> (Inl e, w1)
                | Inr conf \<Rightarrow>
                    (case ext_GetNS X (Netns args) (xst w1) of
                       Inl e \<Rightarrow> (Inl (EWrap ''failed to open netns'' e), w1)
                     | Inr path \<Rightarrow>
                         (let result = \<lparr>IPs = [], Interfaces = [(ca_IfName args, path)]\<rparr>
                          in (case GetPodAndSharedDir K conf args client w1 of
                                ((client1, pod, Inl e), w2) \<Rightarrow> (Inl e, w2)
                              | ((client1, pod, Inr dir), w2) \<Rightarrow>
                                  (case (case engine vpp ovs (Engine (HostConf conf)) of
                                           None \<Rightarrow> ((Some (EMsg (''ERROR: Unknown Host Engine: '' @ Engine (HostConf conf))), conf), w2)
                                         | Some u \<Rightarrow> AddOnHost u conf args dir (Some result) w2) of
                                     ((Some e, _), w3) \<Rightarrow> (Inl e, w3)
                                   | ((None, conf1), w3) \<Rightarrow>
                                       (case ipam_result X conf1 args result w3 of
                                          (Inl e, w4) \<Rightarrow> (Inl e, w4)
                                        | (Inr result1, w4) \<Rightarrow>
                                            (case (case engine vpp ovs (container_engine conf1) of
                                                     None \<Rightarrow> ((pod, Some (EMsg (''ERROR: Unknown Container Engine: '' @ container_engine conf1))), w4)
                                                   | Some u \<Rightarrow> AddOnContainer u conf1 args client1 dir pod (Some result1) w4) of
                                               ((_, Some e), w5) \<Rightarrow> (Inl e, w5)
                                             | ((_, None), w5) \<Rightarrow>
                                                 (case ext_PrintResult X result1 of
                                                    Some e \<Rightarrow> (Inl e, w5)
                                                  | None \<Rightarrow> (Inr result1, w5)))))))))))"

definition CmdGet :: "CmdArgs \<Rightarrow> 's \<Rightarrow> go_error option \<times> 's" where
  "CmdGet args w = (None, w)"

text \<open>The deletion of the link in the namespace; a missing link is no error.\<close>

definition delete_link :: "'x cni_ext \<Rightarrow> CmdArgs \<Rightarrow> 'x \<Rightarrow> go_error option \<times> 'x" where
  "delete_link X args x =
     (if Netns args = [] then (None, x)
      else
        (case ext_EnterNS X (Netns args) x of
           Some e \<Rightarrow> (Some e, x)
         | None \<Rightarrow>
             (case ext_DelLinkByNameAddr X (Netns args) (ca_IfName args) x of
                (e, x1) \<Rightarrow> (if e = Some ErrLinkNotFound then None else e, x1))))"

definition CmdDel ::
  "('v, 'k, 'o, 'x, 'm) cni_state_scheme UsrSpCni \<Rightarrow> ('v, 'k, 'o, 'x, 'm) cni_state_scheme UsrSpCni \<Rightarrow> 'k kube_api \<Rightarrow>
   cni_lib \<Rightarrow> 'x cni_ext \<Rightarrow> CmdArgs \<Rightarrow> bool \<Rightarrow> ('v, 'k, 'o, 'x, 'm) cni_state_scheme \<Rightarrow>
   go_error option \<times> ('v, 'k, 'o, 'x, 'm) cni_state_scheme" where
  "CmdDel vpp ovs K L X args client w =
     (case LoadNetConf L (StdinData args) w of
        (loaded, w1) \<Rightarrow>
          (case slice12 (ContainerID args) of
             None \<Rightarrow> (Some EPanic, w1)
           | Some _ \<Rightarrow>
               (case loaded of
                  Inl e \<Rightarrow> (Some e, w1)
                | Inr conf \<Rightarrow>
                    (case GetPodAndSharedDir K conf args client w1 of
                       ((_, pod, Inl e), w2) \<Rightarrow> (Some e, w2)
                     | ((_, pod, Inr dir), w2) \<Rightarrow>
                         (case (case engine vpp ovs (Engine (HostConf conf)) of
                                  None \<Rightarrow> (Some (EMsg (''ERROR: Unknown Host Engine: '' @ Engine (HostConf conf))), w2)
                                | Some u \<Rightarrow> DelFromHost u conf args dir w2) of
                            (Some e, w3) \<Rightarrow> (Some e, w3)
                          | (None, w3) \<Rightarrow>
                              (case (case engine vpp ovs (container_engine conf) of
                                       None \<Rightarrow> (Some (EMsg (''ERROR: Unknown Container Engine: '' @ container_engine conf)), w3)
                                     | Some u \<Rightarrow> DelFromContainer u args dir w3) of
                                 (Some e, w4) \<Rightarrow> (Some e, w4)
                               | (None, w4) \<Rightarrow>
                                   (case (if IPAMType conf \<noteq> []
                                          then on_ext (ext_ExecDel X (IPAMType conf) (StdinData args)) w4 else (None, w4)) of
                                      (Some e, w5) \<Rightarrow> (Some e, w5)
                                    | (None, w5) \<Rightarrow> on_ext (delete_link X args) w5)))))))"

text \<open>
  What \<open>userspace/main.go\<close> hands to the skeleton of the CNI library, which calls one of them: the
  commands without a client for Kubernetes.
\<close>

record 's CNIFuncs =
  fn_Add :: "CmdArgs \<Rightarrow> 's \<Rightarrow> go_error option \<times> 's"
  fn_Del :: "CmdArgs \<Rightarrow> 's \<Rightarrow> go_error option \<times> 's"
  fn_Check :: "CmdArgs \<Rightarrow> 's \<Rightarrow> go_error option \<times> 's"

definition plugin_funcs ::
  "('v, 'k, 'o, 'x, 'm) cni_state_scheme UsrSpCni \<Rightarrow> ('v, 'k, 'o, 'x, 'm) cni_state_scheme UsrSpCni \<Rightarrow> 'k kube_api \<Rightarrow>
   cni_lib \<Rightarrow> 'x cni_ext \<Rightarrow> ('v, 'k, 'o, 'x, 'm) cni_state_scheme CNIFuncs" where
  "plugin_funcs vpp ovs K L X =
     \<lparr>fn_Add = (\<lambda>args w. case CmdAdd vpp ovs K L X args False w of
                           (Inl e, w1) \<Rightarrow> (Some e, w1) | (Inr _, w1) \<Rightarrow> (None, w1)),
      fn_Del = (\<lambda>args w. CmdDel vpp ovs K L X args False w),
      fn_Check = CmdGet\<rparr>"

section \<open>What an operation leaves alone\<close>

text \<open>The operations of the VPP engine change VPP and the file system, and nothing beyond them.\<close>

lemma add_network_more [vpp_frame]: "add_network V host i res w = (r, w') \<Longrightarrow> world.more w' = world.more w"
  by (auto simp: add_network_def dest!: vpp_frame split: if_splits sum.splits option.splits)

lemma addLocalDeviceMemif_more [vpp_frame]: "addLocalDeviceMemif V conf args dir w = (r, w') \<Longrightarrow> world.more w' = world.more w"
  by (auto simp: addLocalDeviceMemif_def Let_def dest!: vpp_frame split: prod.splits sum.splits)

lemma addLocalDeviceVhostUser_more [vpp_frame]: "addLocalDeviceVhostUser V conf args dir w = (r, w') \<Longrightarrow> world.more w' = world.more w"
  by (auto simp: addLocalDeviceVhostUser_def Let_def dest!: vpp_frame split: prod.splits sum.splits option.splits)

lemma delLocalDevice_more [vpp_frame]:
  "delLocalDeviceMemif V conf args dir data gone w = (r, w') \<Longrightarrow> world.more w' = world.more w"
  "delLocalDeviceVhostUser V conf args dir data w = (r, w') \<Longrightarrow> world.more w' = world.more w"
  by (auto simp: delLocalDeviceMemif_def delLocalDeviceVhostUser_def on_fs_snd_more dest!: vpp_frame
      split: prod.splits option.splits if_splits)

lemma vpp_AddOnHost_more: "vpp_AddOnHost V openCh conf args dir res w = (r, w') \<Longrightarrow> world.more w' = world.more w"
  by (auto simp: vpp_AddOnHost_def dest!: vpp_frame split: prod.splits sum.splits option.splits if_splits)

lemma vpp_DelFromHost_more: "vpp_DelFromHost V openCh conf args dir w = (r, w') \<Longrightarrow> world.more w' = world.more w"
  by (auto simp: vpp_DelFromHost_def Let_def RemoveBridgeInterface_snd_more dest!: vpp_frame
      split: prod.splits sum.splits option.splits if_splits)

text \<open>The fields beyond the world depend on that part alone.\<close>

lemma more_fields:
  fixes w w' :: "('v, 'k, 'o, 'x, 'm) cni_state_scheme"
  assumes "world.more w' = world.more w"
  shows "nkst w' = nkst w" and "ost w' = ost w" and "xst w' = xst w" and "log w' = log w"
  using assms by (cases w; cases w'; simp)+

text \<open>The OVS engine changes the database and the file system.\<close>

named_theorems ovs_frame \<open>an operation on OVS or the file system keeps VPP, the cluster, the outside and the log\<close>

definition ovs_only :: "('v, 'k, 'o, 'x, 'm) cni_state_scheme \<Rightarrow> ('v, 'k, 'o, 'x, 'm) cni_state_scheme \<Rightarrow> bool" where
  "ovs_only w w' \<longleftrightarrow> vst w' = vst w \<and> nkst w' = nkst w \<and> xst w' = xst w \<and> log w' = log w"

lemma ovs_only_refl [simp]: "ovs_only w w"
  by (simp add: ovs_only_def)

lemma ovs_only_trans: "ovs_only u v \<Longrightarrow> ovs_only v w \<Longrightarrow> ovs_only u w"
  by (simp add: ovs_only_def)

lemma on_ovs_only [ovs_frame]: "on_ovs req w = (r, w') \<Longrightarrow> ovs_only w w'"
  by (auto simp: on_ovs_def ovs_only_def split: prod.splits)

lemma on_fs_only [ovs_frame]: "on_fs call w = (r, w') \<Longrightarrow> ovs_only w w'"
  by (auto simp: on_fs_def ovs_only_def split: prod.splits)

lemma createVhostPort_only [ovs_frame]: "createVhostPort O' dir n c b cfg w = (r, w') \<Longrightarrow> ovs_only w w'"
  by (auto simp: createVhostPort_def on_ovs_def on_fs_def ovs_only_def split: prod.splits sum.splits if_splits)

lemma addLocalDeviceVhost_only [ovs_frame]: "addLocalDeviceVhost O' H conf args dir p m w = (r, w') \<Longrightarrow> ovs_only w w'"
  by (auto simp: addLocalDeviceVhost_def dest!: ovs_frame intro: ovs_only_trans
      split: prod.splits sum.splits option.splits)

lemma delLocalDeviceVhost_only [ovs_frame]: "delLocalDeviceVhost O' H conf args dir data w = (r, w') \<Longrightarrow> ovs_only w w'"
  by (auto simp: delLocalDeviceVhost_def dest!: ovs_frame intro: ovs_only_trans
      split: prod.splits option.splits if_splits)

lemma ovs_AddOnHost_only: "ovs_AddOnHost O' H conf args dir w = (r, w') \<Longrightarrow> ovs_only w w'"
  by (auto simp: ovs_AddOnHost_def Let_def dest!: ovs_frame intro: ovs_only_trans
      split: prod.splits sum.splits option.splits if_splits)

lemma ovs_DelFromHost_only: "ovs_DelFromHost O' H conf args dir w = (r, w') \<Longrightarrow> ovs_only w w'"
  by (auto simp: ovs_DelFromHost_def Let_def dest!: ovs_frame intro: ovs_only_trans
      split: prod.splits sum.splits option.splits if_splits)

text \<open>The hand-over to the container touches neither VPP nor OVS.\<close>

lemma SaveRemoteConfig_keeps:
  fixes w :: "('v, 'k, 'o, 'x, 'm) cni_state_scheme"
  assumes "SaveRemoteConfig K L conf args client dir pod res w = (r, w')"
  shows "vst w' = vst w" and "ost w' = ost w" and "xst w' = xst w"
  using assms
  by (auto simp: SaveRemoteConfig_def on_kube_def on_fs_def Let_def split: option.splits if_splits prod.splits)

section \<open>The contract of an engine\<close>

locale usrsp_cni =
  fixes u :: "('v, 'k, 'o, 'x, 'm) cni_state_scheme UsrSpCni"
  assumes add_host_ext: "AddOnHost u conf args dir res w = (r, w') \<Longrightarrow> xst w' = xst w"
    and add_container_keeps: "AddOnContainer u conf args client dir pod res w = (pe, w') \<Longrightarrow> vst w' = vst w \<and> ost w' = ost w \<and> xst w' = xst w"
    and add_container_pod: "AddOnContainer u conf args client dir None res w = ((pod', e), w') \<Longrightarrow> e \<noteq> None"
    and del_host_ext: "DelFromHost u conf args dir w = (e, w') \<Longrightarrow> xst w' = xst w"
    and del_container_keeps: "DelFromContainer u args dir w = (e, w') \<Longrightarrow> vst w' = vst w \<and> ost w' = ost w \<and> xst w' = xst w"
    and del_container_ok: "slice12 (ContainerID args) \<noteq> None \<Longrightarrow> fst (DelFromContainer u args dir w) = None"

interpretation vpp_engine: usrsp_cni "CniVpp V openCh K L :: ('v, 'k, 'o, 'x, 'm) cni_state_scheme UsrSpCni"
  for V :: "'v vpp_api" and openCh and K :: "'k kube_api" and L
proof
  fix conf args dir res r pe client pod pod' e and w w' :: "('v, 'k, 'o, 'x, 'm) cni_state_scheme"
  show "xst w' = xst w" if "AddOnHost (CniVpp V openCh K L) conf args dir res w = (r, w')"
    using that more_fields(3) [OF vpp_AddOnHost_more] by (simp add: CniVpp_def)
  show "xst w' = xst w" if "DelFromHost (CniVpp V openCh K L) conf args dir w = (e, w')"
    using that more_fields(3) [OF vpp_DelFromHost_more] by (simp add: CniVpp_def)
  show "vst w' = vst w \<and> ost w' = ost w \<and> xst w' = xst w"
    if "AddOnContainer (CniVpp V openCh K L) conf args client dir pod res w = (pe, w')"
    using that by (auto simp: CniVpp_def vpp_AddOnContainer_def dest: SaveRemoteConfig_keeps split: option.splits)
  show "e \<noteq> None" if "AddOnContainer (CniVpp V openCh K L) conf args client dir None res w = ((pod', e), w')"
    using that by (auto simp: CniVpp_def vpp_AddOnContainer_def SaveRemoteConfig_def split: option.splits)
  show "vst w' = vst w \<and> ost w' = ost w \<and> xst w' = xst w" if "DelFromContainer (CniVpp V openCh K L) args dir w = (e, w')"
    using that by (auto simp: CniVpp_def vpp_DelFromContainer_def on_fs_def split: option.splits prod.splits)
  show "fst (DelFromContainer (CniVpp V openCh K L) args dir w) = None" if "slice12 (ContainerID args) \<noteq> None"
    using that by (auto simp: CniVpp_def vpp_DelFromContainer_def)
qed

interpretation ovs_engine: usrsp_cni "CniOvs O' H K L :: ('v, 'k, 'o, 'x, 'm) cni_state_scheme UsrSpCni"
  for O' :: "'o ovs_api" and H and K :: "'k kube_api" and L
proof
  fix conf args dir res r pe client pod pod' e and w w' :: "('v, 'k, 'o, 'x, 'm) cni_state_scheme"
  show "xst w' = xst w" if "AddOnHost (CniOvs O' H K L) conf args dir res w = (r, w')"
    using that by (simp add: CniOvs_def ovs_only_def [THEN iffD1, OF ovs_AddOnHost_only])
  show "xst w' = xst w" if "DelFromHost (CniOvs O' H K L) conf args dir w = (e, w')"
    using that by (simp add: CniOvs_def ovs_only_def [THEN iffD1, OF ovs_DelFromHost_only])
  show "vst w' = vst w \<and> ost w' = ost w \<and> xst w' = xst w"
    if "AddOnContainer (CniOvs O' H K L) conf args client dir pod res w = (pe, w')"
    using that by (auto simp: CniOvs_def ovs_AddOnContainer_def dest: SaveRemoteConfig_keeps split: option.splits)
  show "e \<noteq> None" if "AddOnContainer (CniOvs O' H K L) conf args client dir None res w = ((pod', e), w')"
    using that by (auto simp: CniOvs_def ovs_AddOnContainer_def SaveRemoteConfig_def split: option.splits)
  show "vst w' = vst w \<and> ost w' = ost w \<and> xst w' = xst w" if "DelFromContainer (CniOvs O' H K L) args dir w = (e, w')"
    using that by (auto simp: CniOvs_def ovs_DelFromContainer_def on_fs_def split: option.splits prod.splits)
  show "fst (DelFromContainer (CniOvs O' H K L) args dir w) = None" if "slice12 (ContainerID args) \<noteq> None"
    using that by (auto simp: CniOvs_def ovs_DelFromContainer_def)
qed

section \<open>A successful command, step by step\<close>

abbreviation bare_result :: "CmdArgs \<Rightarrow> string \<Rightarrow> Result" where
  "bare_result args path \<equiv> \<lparr>IPs = [], Interfaces = [(ca_IfName args, path)]\<rparr>"

lemma CmdAdd_run:
  fixes w :: "('v, 'k, 'o, 'x, 'm) cni_state_scheme"
  assumes "CmdAdd vpp ovs K L X args client w = (Inr result, w')"
  obtains conf path client1 pod dir u conf1 uc pod' and w1 w2 w3 w4 :: "('v, 'k, 'o, 'x, 'm) cni_state_scheme" where
    "LoadNetConf L (StdinData args) w = (Inr conf, w1)" "ext_GetNS X (Netns args) (xst w1) = Inr path"
    "GetPodAndSharedDir K conf args client w1 = ((client1, pod, Inr dir), w2)"
    "engine vpp ovs (Engine (HostConf conf)) = Some u"
    "AddOnHost u conf args dir (Some (bare_result args path)) w2 = ((None, conf1), w3)"
    "ipam_result X conf1 args (bare_result args path) w3 = (Inr result, w4)"
    "engine vpp ovs (container_engine conf1) = Some uc"
    "AddOnContainer uc conf1 args client1 dir pod (Some result) w4 = ((pod', None), w')"
proof -
  obtain l w1 where 1: "LoadNetConf L (StdinData args) w = (l, w1)" by fastforce
  from assms 1 obtain conf path where 2: "l = Inr conf" "slice12 (ContainerID args) \<noteq> None" "ext_GetNS X (Netns args) (xst w1) = Inr path"
    by (auto simp: CmdAdd_def split: option.splits sum.splits)
  obtain client1 pod d w2 where 3: "GetPodAndSharedDir K conf args client w1 = ((client1, pod, d), w2)" by (metis surj_pair)
  from assms 1 2 3 obtain dir u where 4: "d = Inr dir" "engine vpp ovs (Engine (HostConf conf)) = Some u"
    by (auto simp: CmdAdd_def Let_def split: option.splits sum.splits)
  obtain e conf1 w3 where 5: "AddOnHost u conf args dir (Some (bare_result args path)) w2 = ((e, conf1), w3)" by (metis surj_pair)
  obtain r w4 where 6: "ipam_result X conf1 args (bare_result args path) w3 = (r, w4)" by fastforce
  from assms 1 2 3 4 5 6 obtain r1 uc where 7: "e = None" "r = Inr r1" "engine vpp ovs (container_engine conf1) = Some uc"
    by (auto simp: CmdAdd_def Let_def split: option.splits sum.splits)
  obtain pod' e2 w5 where 8: "AddOnContainer uc conf1 args client1 dir pod (Some r1) w4 = ((pod', e2), w5)" by (metis surj_pair)
  from assms 1 2 3 4 5 6 7 8 have "e2 = None" "w5 = w'" "r1 = result"
    by (auto simp: CmdAdd_def Let_def split: option.splits)
  with 1 2 3 4 5 6 7 8 show thesis by (intro that) simp_all
qed

lemma CmdDel_run:
  fixes w :: "('v, 'k, 'o, 'x, 'm) cni_state_scheme"
  assumes "CmdDel vpp ovs K L X args client w = (None, w')"
  obtains conf client1 pod dir u uc and w1 w2 w3 w4 w5 :: "('v, 'k, 'o, 'x, 'm) cni_state_scheme" where
    "LoadNetConf L (StdinData args) w = (Inr conf, w1)"
    "GetPodAndSharedDir K conf args client w1 = ((client1, pod, Inr dir), w2)"
    "engine vpp ovs (Engine (HostConf conf)) = Some u" "DelFromHost u conf args dir w2 = (None, w3)"
    "engine vpp ovs (container_engine conf) = Some uc" "DelFromContainer uc args dir w3 = (None, w4)"
    "(if IPAMType conf \<noteq> [] then on_ext (ext_ExecDel X (IPAMType conf) (StdinData args)) w4 else (None, w4)) = (None, w5)"
    "on_ext (delete_link X args) w5 = (None, w')"
proof -
  obtain l w1 where 1: "LoadNetConf L (StdinData args) w = (l, w1)" by fastforce
  from assms 1 obtain conf where 2: "l = Inr conf" "slice12 (ContainerID args) \<noteq> None"
    by (auto simp: CmdDel_def split: option.splits sum.splits)
  obtain client1 pod d w2 where 3: "GetPodAndSharedDir K conf args client w1 = ((client1, pod, d), w2)" by (metis surj_pair)
  from assms 1 2 3 obtain dir u where 4: "d = Inr dir" "engine vpp ovs (Engine (HostConf conf)) = Some u"
    by (auto simp: CmdDel_def split: option.splits sum.splits)
  obtain e w3 where 5: "DelFromHost u conf args dir w2 = (e, w3)" by fastforce
  from assms 1 2 3 4 5 obtain uc where 6: "e = None" "engine vpp ovs (container_engine conf) = Some uc"
    by (auto simp: CmdDel_def split: option.splits)
  obtain e4 w4 where 7: "DelFromContainer uc args dir w3 = (e4, w4)" by fastforce
  obtain e5 w5 where 8: "(if IPAMType conf \<noteq> [] then on_ext (ext_ExecDel X (IPAMType conf) (StdinData args)) w4 else (None, w4)) = (e5, w5)"
    by (metis surj_pair)
  from assms 1 2 3 4 5 6 7 8 have "e4 = None" "e5 = None" "on_ext (delete_link X args) w5 = (None, w')"
    by (auto simp: CmdDel_def split: option.splits)
  with 1 2 3 4 5 6 7 8 show thesis by (intro that) simp_all
qed

section \<open>What the steps leave alone\<close>

lemma LoadNetConf_keeps:
  assumes "LoadNetConf L bytes w = (r, w')"
  shows "vst w' = vst w" and "ost w' = ost w" and "nkst w' = nkst w" and "xst w' = xst w"
    and "r = (case Unmarshal_NetConf L bytes of Inl e \<Rightarrow> Inl (EWrap ''failed to load netconf'' e) | Inr c \<Rightarrow> Inr c)"
  using assms by (auto simp: LoadNetConf_def split: sum.splits prod.splits)

lemma GetPodAndSharedDir_keeps:
  fixes w :: "('v, 'k, 'o, 'x, 'm) cni_state_scheme"
  assumes "GetPodAndSharedDir K conf args client w = (r, w')"
  shows "vst w' = vst w" and "ost w' = ost w" and "xst w' = xst w" and "fsys w' = fsys w"
  using assms
  by (auto simp: GetPodAndSharedDir_def on_kube_def split: prod.splits sum.splits option.splits)

lemma ipam_result_keeps:
  assumes "ipam_result X conf args res w = (r, w')"
  shows "vst w' = vst w" and "ost w' = ost w"
  using assms by (auto simp: ipam_result_def on_ext_def split: prod.splits sum.splits if_splits)

lemma on_ext_keeps:
  assumes "on_ext req w = (r, w')"
  shows "vst w' = vst w" and "ost w' = ost w"
  using assms by (auto simp: on_ext_def split: prod.splits)

lemma on_ext_None:
  assumes "\<forall>x. fst (req x) = None"
  shows "\<exists>w'. on_ext req w = (None, w') \<and> vst w' = vst w"
  using assms by (cases "req (xst w)") (metis (no_types, lifting) fst_conv on_ext_def on_ext_keeps(1) old.prod.case)

lemma GetPodAndSharedDir_pod:
  "GetPodAndSharedDir K conf args client w = ((c, pod, d), w') \<Longrightarrow>
   pod = fst (fst (GetPod K (Some args) client (KubeConfig conf) (nkst w)))"
  by (auto simp: GetPodAndSharedDir_def on_kube_def split: prod.splits sum.splits option.splits)

text \<open>The directory depends on the state of the cluster alone.\<close>

definition shared_dir :: "'k kube_api \<Rightarrow> NetConf \<Rightarrow> CmdArgs \<Rightarrow> bool \<Rightarrow> 'k \<Rightarrow> string result" where
  "shared_dir K conf args client s =
     (case fst (GetPod K (Some args) client (KubeConfig conf) s) of
        (pod, _, err) \<Rightarrow>
          (case (if err = None then GetPodVolumeMountHostSharedDir pod else Inl NoPodProvidedError) of
             Inr dir \<Rightarrow> Inr dir
           | Inl _ \<Rightarrow> (case container_dir conf args of None \<Rightarrow> Inl EPanic | Some dir \<Rightarrow> Inr dir)))"

lemma GetPodAndSharedDir_dir:
  "GetPodAndSharedDir K conf args client w = ((c, pod, d), w') \<Longrightarrow> d = shared_dir K conf args client (nkst w)"
  by (auto simp: GetPodAndSharedDir_def on_kube_def shared_dir_def split: prod.splits sum.splits option.splits)

section \<open>The commands over two engines\<close>

locale engines = v: usrsp_cni vpp + o: usrsp_cni ovs
  for vpp ovs :: "('v, 'k, 'o, 'x, 'm) cni_state_scheme UsrSpCni"
begin

lemma engine_contract: "engine vpp ovs n = Some u \<Longrightarrow> usrsp_cni u"
  using v.usrsp_cni_axioms o.usrsp_cni_axioms by (auto simp: engine_def split: if_splits)

text \<open>An ADD that succeeds has read the pod.\<close>

lemma CmdAdd_pod:
  assumes run: "CmdAdd vpp ovs K L X args client w = (Inr res, w')" and conf: "Unmarshal_NetConf L (StdinData args) = Inr conf"
  shows "fst (fst (GetPod K (Some args) client (KubeConfig conf) (nkst w))) \<noteq> None"
  using run
proof (rule CmdAdd_run)
  fix c path client1 pod dir u conf1 uc pod' and w1 w2 w3 w4 :: "('v, 'k, 'o, 'x, 'm) cni_state_scheme"
  assume l: "LoadNetConf L (StdinData args) w = (Inr c, w1)"
    and g: "GetPodAndSharedDir K c args client w1 = ((client1, pod, Inr dir), w2)"
    and u: "engine vpp ovs (container_engine conf1) = Some uc"
    and a: "AddOnContainer uc conf1 args client1 dir pod (Some res) w4 = ((pod', None), w')"
  have "c = conf" "nkst w1 = nkst w" using LoadNetConf_keeps(3,5) [OF l] conf by simp_all
  moreover have "pod \<noteq> None"
    using usrsp_cni.add_container_pod [OF engine_contract [OF u], of conf1 args client1 dir "Some res" w4 pod' None w'] a by (cases pod) simp_all
  ultimately show ?thesis using GetPodAndSharedDir_pod [OF g] by simp
qed

text \<open>
  A DEL that touches IPAM or a namespace has run both its parts without an error, and they left IPAM
  and namespaces alone.
\<close>

lemma CmdDel_ext:
  assumes run: "CmdDel vpp ovs K L X args client w = (e, w')" and ext: "xst w' \<noteq> xst w"
  obtains conf client1 pod dir u uc and w1 w2 w3 w4 :: "('v, 'k, 'o, 'x, 'm) cni_state_scheme" where
    "LoadNetConf L (StdinData args) w = (Inr conf, w1)"
    "GetPodAndSharedDir K conf args client w1 = ((client1, pod, Inr dir), w2)"
    "engine vpp ovs (Engine (HostConf conf)) = Some u" "DelFromHost u conf args dir w2 = (None, w3)"
    "engine vpp ovs (container_engine conf) = Some uc" "DelFromContainer uc args dir w3 = (None, w4)" "xst w4 = xst w"
proof -
  obtain l w1 where 1: "LoadNetConf L (StdinData args) w = (l, w1)" by fastforce
  note k1 = LoadNetConf_keeps(4) [OF 1]
  have "slice12 (ContainerID args) \<noteq> None \<and> \<not> isl l"
    using run 1 ext k1 by (auto simp: CmdDel_def isl_def split: option.splits)
  then obtain conf where l: "l = Inr conf" and s: "slice12 (ContainerID args) \<noteq> None" by (cases l) auto
  obtain c pod d w2 where 2: "GetPodAndSharedDir K conf args client w1 = ((c, pod, d), w2)" by (metis surj_pair)
  note k2 = GetPodAndSharedDir_keeps(3) [OF 2]
  have "\<not> isl d \<and> engine vpp ovs (Engine (HostConf conf)) \<noteq> None"
    using run 1 l s 2 ext k1 k2 by (auto simp: CmdDel_def isl_def split: option.splits sum.splits)
  then obtain dir u where d: "d = Inr dir" "engine vpp ovs (Engine (HostConf conf)) = Some u" by (cases d) auto
  obtain r w3 where 3: "DelFromHost u conf args dir w2 = (r, w3)" by fastforce
  note k3 = usrsp_cni.del_host_ext [OF engine_contract [OF d(2)] 3]
  have "r = None \<and> engine vpp ovs (container_engine conf) \<noteq> None"
    using run 1 l s 2 d 3 ext k1 k2 k3 by (auto simp: CmdDel_def split: option.splits)
  then obtain uc where r: "r = None" "engine vpp ovs (container_engine conf) = Some uc" by auto
  obtain r2 w4 where 4: "DelFromContainer uc args dir w3 = (r2, w4)" by fastforce
  have k4: "xst w4 = xst w3" using usrsp_cni.del_container_keeps [OF engine_contract [OF r(2)] 4] by simp
  have "r2 = None"
    using run 1 l s 2 d 3 r 4 ext k1 k2 k3 k4 by (auto simp: CmdDel_def split: option.splits)
  with that 1 l 2 d 3 r 4 k1 k2 k3 k4 show thesis by auto
qed

text \<open>From the host's part of an ADD on, and before the host's part of a DEL, VPP does not change.\<close>

lemma CmdAdd_vpp:
  assumes "CmdAdd vpp ovs K L X args client w = (Inr res, w')" and "Unmarshal_NetConf L (StdinData args) = Inr conf"
  obtains dir u r conf1 and w2 w3 :: "('v, 'k, 'o, 'x, 'm) cni_state_scheme" where "shared_dir K conf args client (nkst w) = Inr dir"
    "engine vpp ovs (Engine (HostConf conf)) = Some u" "AddOnHost u conf args dir r w2 = ((None, conf1), w3)"
    "vst w2 = vst w" "vst w' = vst w3"
  using assms(1)
proof (rule CmdAdd_run)
  fix c path client1 pod dir u conf1 uc pod' and w1 w2 w3 w4 :: "('v, 'k, 'o, 'x, 'm) cni_state_scheme"
  assume l: "LoadNetConf L (StdinData args) w = (Inr c, w1)"
    and g: "GetPodAndSharedDir K c args client w1 = ((client1, pod, Inr dir), w2)"
    and u: "engine vpp ovs (Engine (HostConf c)) = Some u"
    and h: "AddOnHost u c args dir (Some (bare_result args path)) w2 = ((None, conf1), w3)"
    and i: "ipam_result X conf1 args (bare_result args path) w3 = (Inr res, w4)"
    and uc: "engine vpp ovs (container_engine conf1) = Some uc"
    and a: "AddOnContainer uc conf1 args client1 dir pod (Some res) w4 = ((pod', None), w')"
  have c: "c = conf" and k: "nkst w1 = nkst w" "vst w1 = vst w" using LoadNetConf_keeps(1,3,5) [OF l] assms(2) by simp_all
  have "vst w' = vst w3"
    using usrsp_cni.add_container_keeps [OF engine_contract [OF uc] a] ipam_result_keeps(1) [OF i] by simp
  then show thesis
    by (rule that [OF _ _ h [unfolded c], rotated 3]) (use GetPodAndSharedDir_dir [OF g] GetPodAndSharedDir_keeps(1) [OF g] k u c in simp_all)
qed

lemma CmdDel_vpp:
  assumes "CmdDel vpp ovs K L X args client w = (None, w')" and "Unmarshal_NetConf L (StdinData args) = Inr conf"
  obtains dir u and w2 w3 :: "('v, 'k, 'o, 'x, 'm) cni_state_scheme" where "shared_dir K conf args client (nkst w) = Inr dir"
    "engine vpp ovs (Engine (HostConf conf)) = Some u" "DelFromHost u conf args dir w2 = (None, w3)"
    "vst w2 = vst w" "vst w' = vst w3"
  using assms(1)
proof (rule CmdDel_run)
  fix c client1 pod dir u uc and w1 w2 w3 w4 w5 :: "('v, 'k, 'o, 'x, 'm) cni_state_scheme"
  assume l: "LoadNetConf L (StdinData args) w = (Inr c, w1)"
    and g: "GetPodAndSharedDir K c args client w1 = ((client1, pod, Inr dir), w2)"
    and u: "engine vpp ovs (Engine (HostConf c)) = Some u" and h: "DelFromHost u c args dir w2 = (None, w3)"
    and uc: "engine vpp ovs (container_engine c) = Some uc" and a: "DelFromContainer uc args dir w3 = (None, w4)"
    and i: "(if IPAMType c \<noteq> [] then on_ext (ext_ExecDel X (IPAMType c) (StdinData args)) w4 else (None, w4)) = (None, w5)"
    and d: "on_ext (delete_link X args) w5 = (None, w')"
  have c: "c = conf" and k: "nkst w1 = nkst w" "vst w1 = vst w" using LoadNetConf_keeps(1,3,5) [OF l] assms(2) by simp_all
  have "vst w5 = vst w4" using i on_ext_keeps(1) by (auto split: if_splits)
  then have "vst w' = vst w3"
    using usrsp_cni.del_container_keeps [OF engine_contract [OF uc] a] on_ext_keeps(1) [OF d] by simp
  then show thesis
    by (rule that [OF _ _ h [unfolded c], rotated 3]) (use GetPodAndSharedDir_dir [OF g] GetPodAndSharedDir_keeps(1) [OF g] k u c in simp_all)
qed

end

interpretation plugin: engines "CniVpp V openCh K L :: ('v, 'k, 'o, 'x, 'm) cni_state_scheme UsrSpCni" "CniOvs O' H K L"
  for V :: "'v vpp_api" and openCh and K :: "'k kube_api" and L and O' :: "'o ovs_api" and H
  by unfold_locales

section \<open>Properties\<close>

text \<open>
  C7: The command DEL undoes the command ADD on VPP. When an ADD of a memif interface on the VPP engine
  succeeds, from the configuration on its input to the hand-over to the container, and its socket was
  not registered before, and then the DEL on the same input succeeds and finds the same shared
  directory, then VPP has the memifs it had before the ADD.
\<close>

theorem CmdAdd_CmdDel_memif:
  fixes V :: "'v vpp_api" and w w1 w2 :: "('v, 'k, 'o, 'x, 'm) cni_state_scheme"
  assumes "vpp_channel V vinv" and "vinv (vst w)" and "Unmarshal_NetConf L (StdinData args) = Inr conf"
    and "Engine (HostConf conf) = ''vpp''" and "IfType (HostConf conf) = ''memif''"
    and "shared_dir K conf args client (nkst w) = Inr dir" and "shared_dir K conf args client' (nkst w1) = Inr dir"
    and "own_socket conf args dir \<notin> sd_SocketFilename ` set (socks V (vst w))"
    and "CmdAdd (CniVpp V openCh K L) (CniOvs O' H K L) K L X args client w = (Inr res, w1)"
    and "CmdDel (CniVpp V openCh' K L) (CniOvs O' H K L) K L X args client' w1 = (None, w2)"
  shows "set (memifs V (vst w2)) = set (memifs V (vst w))"
proof -
  have vpp: "engine (CniVpp V oc K L) ovs (Engine (HostConf conf)) = Some (CniVpp V oc K L)" for oc and ovs :: "('v, 'k, 'o, 'x, 'm) cni_state_scheme UsrSpCni"
    using assms(4) by (simp add: engine_def)
  from assms(9,3) obtain r conf1 and wa wb :: "('v, 'k, 'o, 'x, 'm) cni_state_scheme" where a: "vpp_AddOnHost V openCh conf args dir r wa = ((None, conf1), wb)"
    "vst wa = vst w" "vst w1 = vst wb"
    by (rule plugin.CmdAdd_vpp) (use assms(6) vpp in \<open>auto simp: CniVpp_def\<close>)
  from assms(10,3) obtain wc wd :: "('v, 'k, 'o, 'x, 'm) cni_state_scheme" where d: "vpp_DelFromHost V openCh' conf args dir wc = (None, wd)" "vst wc = vst w1" "vst w2 = vst wd"
    by (rule plugin.CmdDel_vpp) (use assms(7) vpp in \<open>auto simp: CniVpp_def\<close>)
  have "set (memifs V (vst wd)) = set (memifs V (vst wa))"
    by (rule memif_add_del_at [OF assms(1) _ assms(5) _ a(1) d(1)]) (use assms(2,8) a(2,3) d(2) in simp_all)
  then show ?thesis using a(2) d(3) by simp
qed

text \<open>
  C30: Without the pod no ADD succeeds. If the pod cannot be read (there is no access to Kubernetes, or
  reading fails), \<open>CmdAdd\<close> ends with an error whatever the configuration says, although the interface
  of the host may exist by then; the way to pass the configuration in a file is never taken.
\<close>

theorem CmdAdd_needs_pod:
  assumes "Unmarshal_NetConf L (StdinData args) = Inr conf"
    and "fst (fst (GetPod K (Some args) client (KubeConfig conf) (nkst w))) = None"
  shows "isl (fst (CmdAdd (CniVpp V openCh K L) (CniOvs O' H K L) K L X args client w))"
proof (cases "CmdAdd (CniVpp V openCh K L) (CniOvs O' H K L) K L X args client w")
  case (Pair r w')
  with plugin.CmdAdd_pod [of V openCh K L O' H K L X args client w _ w' conf] assms show ?thesis by (cases r) auto
qed

text \<open>
  C29: An address is given back only after the interface is gone. If a DEL, whatever it returns, has changed
  the state of IPAM or of a namespace, then before that, in this run, the engine of the host took the
  interface away without an error, in the directory that the run found, and after it the engine of
  the container cleaned up without an error; up to there IPAM and the namespaces were untouched.
\<close>

theorem release_only_after_teardown:
  fixes w :: "('v, 'k, 'o, 'x, 'm) cni_state_scheme"
  assumes "CmdDel (CniVpp V openCh K L) (CniOvs O' H K L) K L X args client w = (e, w')" and "xst w' \<noteq> xst w"
  shows "\<exists>conf w1 client1 pod dir w2 u w3 uc w4.
    LoadNetConf L (StdinData args) w = (Inr conf, w1) \<and>
    GetPodAndSharedDir K conf args client w1 = ((client1, pod, Inr dir), w2) \<and>
    engine (CniVpp V openCh K L) (CniOvs O' H K L) (Engine (HostConf conf)) = Some u \<and> DelFromHost u conf args dir w2 = (None, w3) \<and>
    engine (CniVpp V openCh K L) (CniOvs O' H K L) (container_engine conf) = Some uc \<and> DelFromContainer uc args dir w3 = (None, w4) \<and>
    xst w4 = xst w"
  using plugin.CmdDel_ext [OF assms] by metis

text \<open>
  C31: A DEL that cannot read the pod leaves its memif behind and reports success. The ADD has put the
  socket into the directory of the pod's volume; a DEL for a pod that cannot be read any more looks for
  it in the directory of the container instead. When nothing is on a socket there, VPP can be reached,
  the saved data of the interface is readable or missing, the engine of the container is a known one,
  and IPAM and the deletion of the link succeed, then the DEL succeeds, and VPP is as before it, with
  the memif in the directory of the pod.
\<close>

theorem del_without_pod_keeps_memif:
  fixes V :: "'v vpp_api" and w w1 :: "('v, 'k, 'o, 'x, 'm) cni_state_scheme"
  assumes "vpp_channel V vinv" and "vinv (vst w)" and "LoadNetConf L (StdinData args) w = (Inr conf, w1)"
    and "Engine (HostConf conf) = ''vpp''" and "IfType (HostConf conf) = ''memif''" and "container_engine conf \<in> {''vpp'', ''ovs-dpdk''}"
    and "fst (fst (GetPod K (Some args) client (KubeConfig conf) (nkst w))) = None"
    and "container_dir conf args = Some dir" and "on_socket V (vst w) (own_socket conf args dir) = {}"
    and "LoadVppConfig args (fsys w1) = (Inr data, f)"
    and "\<forall>x. fst (ext_ExecDel X (IPAMType conf) (StdinData args) x) = None" and "\<forall>x. fst (delete_link X args x) = None"
  shows "\<exists>w'. CmdDel (CniVpp V None K L) (CniOvs O' H K L) K L X args client w = (None, w') \<and> vst w' = vst w"
proof -
  have s: "slice12 (ContainerID args) \<noteq> None" using assms(8) by (auto simp: container_dir_def)
  note k1 = LoadNetConf_keeps(1,3) [OF assms(3)]
  have "shared_dir K conf args client (nkst w) = Inr dir"
    using assms(7,8) by (cases "fst (GetPod K (Some args) client (KubeConfig conf) (nkst w))")
      (simp add: shared_dir_def GetPodVolumeMountHostSharedDir_def)
  then obtain c pod w2 where 2: "GetPodAndSharedDir K conf args client w1 = ((c, pod, Inr dir), w2)"
    using GetPodAndSharedDir_dir [of K conf args client w1] k1(2) by (metis prod.collapse)
  note k2 = GetPodAndSharedDir_keeps(1,4) [OF 2]
  obtain w3 where 3: "vpp_DelFromHost V None conf args dir w2 = (None, w3)"
    using vpp_channel.DelFromHost_absent [OF assms(1) _ assms(5) s, of w2 dir data f] assms(2,9,10) k1 k2 by auto
  have k3: "vst w3 = vst w2"
    using vpp_channel.DelFromHost_keeps(3) [OF assms(1) _ assms(5) 3] assms(2,9) k1 k2 by simp
  let ?vpp = "CniVpp V None K L :: ('v, 'k, 'o, 'x, 'm) cni_state_scheme UsrSpCni"
  let ?ovs = "CniOvs O' H K L :: ('v, 'k, 'o, 'x, 'm) cni_state_scheme UsrSpCni"
  obtain uc where uc: "engine ?vpp ?ovs (container_engine conf) = Some uc" using assms(6) by (auto simp: engine_def)
  note eng = plugin.engine_contract [OF uc]
  obtain w4 where 4: "DelFromContainer uc args dir w3 = (None, w4)"
    using usrsp_cni.del_container_ok [OF eng s, of dir w3] by (metis prod.collapse)
  have k4: "vst w4 = vst w3" using usrsp_cni.del_container_keeps [OF eng 4] by simp
  obtain w5 where 5: "(if IPAMType conf \<noteq> [] then on_ext (ext_ExecDel X (IPAMType conf) (StdinData args)) w4 else (None, w4)) = (None, w5)"
    "vst w5 = vst w4" using on_ext_None [OF assms(11), of w4] by (cases "IPAMType conf = []") auto
  obtain w6 where 6: "on_ext (delete_link X args) w5 = (None, w6)" "vst w6 = vst w5" using on_ext_None [OF assms(12), of w5] by blast
  have "engine ?vpp ?ovs (Engine (HostConf conf)) = Some ?vpp" "DelFromHost ?vpp conf args dir w2 = (None, w3)"
    using assms(4) 3 by (simp_all add: engine_def CniVpp_def)
  then have "CmdDel ?vpp ?ovs K L X args client w = (None, w6)"
    using assms(3) s 2 uc 4 5(1) 6(1) by (auto simp: CmdDel_def)
  moreover have "vst w6 = vst w" using k1 k2 k3 k4 5(2) 6(2) by simp
  ultimately show ?thesis by blast
qed

definition sample_input :: string where
  "sample_input = ''{'' @ quote ''host'' @ '':{'' @ quote ''engine'' @ '':'' @ quote ''vpp'' @ '','' @ quote ''iftype'' @ '':'' @ quote ''memif'' @
     '','' @ quote ''netType'' @ '':'' @ quote ''bridge'' @ '','' @ quote ''memif'' @ '':{'' @ quote ''role'' @ '':'' @ quote ''master'' @ ''}}}''"

definition cni_args :: CmdArgs where
  "cni_args = sample_args\<lparr>Netns := ''/n'', StdinData := sample_input\<rparr>"

text \<open>No network namespaces and no IPAM; the pod is the state of the cluster, and \<^const>\<open>None\<close> a missing one.\<close>

definition sample_ext :: "nat cni_ext" where
  "sample_ext = \<lparr>ext_GetNS = (\<lambda>p x. Inr ''/run/netns/a''), ext_ExecAdd = (\<lambda>t s x. (Inl EJson, x)), ext_NewResult = (\<lambda>j. Inl EJson),
     ext_ExecDel = (\<lambda>t s x. (None, x)), ext_PrintResult = (\<lambda>r. None), ext_EnterNS = (\<lambda>p x. None),
     ext_DelLinkByNameAddr = (\<lambda>p n x. (None, Suc x))\<rparr>"

definition sample_kube :: "Pod option kube_api" where
  "sample_kube = \<lparr>kube_get_pod = (\<lambda>ns n s. case s of None \<Rightarrow> ((bare_pod, Some (EKube ''not found'')), s) | Some p \<Rightarrow> ((p, None), s)),
     kube_update_status = (\<lambda>p s. ((p, None), Some p)), kube_is_conflict = (\<lambda>e. False), kube_retry_steps = 4,
     kube_list_pods = (\<lambda>n s. (Inr [], s)), kube_get_nad = (\<lambda>ns n s. (Inl (EKube ''not found''), s)),
     kube_load_args = (\<lambda>s. Inr \<lparr>K8S_POD_NAME = ''app'', K8S_POD_NAMESPACE = ''default''\<rparr>), kube_config_ok = (\<lambda>s. None),
     kube_in_cluster = True, kube_in_cluster_err = None\<rparr>"

definition sample_state :: "sample world \<Rightarrow> Pod option \<Rightarrow> (sample, Pod option, sample_db, nat) cni_state" where
  "sample_state w p = \<lparr>vst = vst w, fsys = fsys w, clock = clock w, nkst = p, ost = [], xst = 0, log = init_logger\<rparr>"

abbreviation sample_add :: "(sample, Pod option, sample_db, nat) cni_state \<Rightarrow> _" where
  "sample_add \<equiv> CmdAdd (CniVpp sample_vpp None sample_kube sample_lib) (CniOvs sample_ovs sample_host sample_kube sample_lib)
     sample_kube sample_lib sample_ext cni_args False"

abbreviation sample_del :: "(sample, Pod option, sample_db, nat) cni_state \<Rightarrow> _" where
  "sample_del \<equiv> CmdDel (CniVpp sample_vpp None sample_kube sample_lib) (CniOvs sample_ovs sample_host sample_kube sample_lib)
     sample_kube sample_lib sample_ext cni_args False"

definition sample_conf :: NetConf where
  "sample_conf = zero_NetConf\<lparr>HostConf := zero_UserSpaceConf\<lparr>Engine := ''vpp'', IfType := ''memif'', NetType := ''bridge'',
     uc_MemifConf := zero_MemifConf\<lparr>mc_Role := ''master''\<rparr>\<rparr>\<rparr>"

lemma sample_input_conf: "Unmarshal_NetConf sample_lib (StdinData cni_args) = Inr sample_conf"
  by code_simp

lemma sample_LoadNetConf: "LoadNetConf sample_lib (StdinData cni_args) w = (Inr sample_conf, w)"
  by (simp add: LoadNetConf_def sample_input_conf sample_conf_def zero_defs)

lemma sample_no_pod: "fst (fst (GetPod sample_kube (Some cni_args) False (KubeConfig sample_conf) None)) = None"
  by code_simp

lemma sample_state_sel [simp]:
  "vst (sample_state w p) = vst w" "nkst (sample_state w p) = p" "xst (sample_state w p) = 0"
  by (simp_all add: sample_state_def)

theorem CmdAdd_needs_pod_witness:
  "isl (fst (sample_add (sample_state sample_world None))) \<and> length (sp_memifs (vst (snd (sample_add (sample_state sample_world None))))) = 1"
proof
  show "isl (fst (sample_add (sample_state sample_world None)))"
    by (rule CmdAdd_needs_pod [OF sample_input_conf]) (simp add: sample_no_pod)
  have "case sample_add (sample_state sample_world None) of (r, w1) \<Rightarrow> length (sp_memifs (vst w1)) = 1" by code_simp
  then show "length (sp_memifs (vst (snd (sample_add (sample_state sample_world None))))) = 1" by (simp add: case_prod_unfold)
qed

theorem release_only_after_teardown_witness:
  "let w = sample_state sample_world None
   in xst (snd (sample_del w)) = 1 \<and>
      (\<exists>client1 pod dir w2 w3 w4. GetPodAndSharedDir sample_kube sample_conf cni_args False w = ((client1, pod, Inr dir), w2) \<and>
         vpp_DelFromHost sample_vpp None sample_conf cni_args dir w2 = (None, w3) \<and>
         vpp_DelFromContainer cni_args dir w3 = (None, w4) \<and> xst w4 = 0)"
proof -
  let ?w = "sample_state sample_world None"
  have "case sample_del ?w of (r, w1) \<Rightarrow> xst w1 = 1" by code_simp
  then have x: "xst (snd (sample_del ?w)) = 1" by (simp add: case_prod_unfold)
  have e: "Engine (HostConf sample_conf) = ''vpp''" "container_engine sample_conf = ''vpp''"
    by (simp_all add: sample_conf_def container_engine_def zero_defs)
  have ne: "xst (snd (sample_del ?w)) \<noteq> xst ?w" using x by simp
  from release_only_after_teardown [OF prod.collapse [symmetric] ne] x show ?thesis
    unfolding sample_LoadNetConf by (auto simp: Let_def e engine_def CniVpp_def)
qed

theorem del_without_pod_keeps_memif_witness:
  "fst (sample_del (sample_state sample_one None)) = None \<and> sp_memifs (vst (snd (sample_del (sample_state sample_one None)))) = [sample_row]"
proof -
  let ?w = "sample_state sample_one None"
  have "own_socket sample_conf cni_args ''/var/run/vpp/0123456789ab/'' \<notin> set (map sd_SocketFilename (sp_socks (vst sample_one)))"
    by code_simp
  then have none: "on_socket sample_vpp (vst ?w) (own_socket sample_conf cni_args ''/var/run/vpp/0123456789ab/'') = {}"
    by (force simp: on_socket_def)
  have c: "Engine (HostConf sample_conf) = ''vpp''" "IfType (HostConf sample_conf) = ''memif''"
    "container_engine sample_conf \<in> {''vpp'', ''ovs-dpdk''}" by (simp_all add: sample_conf_def container_engine_def zero_defs)
  have dir: "container_dir sample_conf cni_args = Some ''/var/run/vpp/0123456789ab/''" by code_simp
  have pod: "fst (fst (GetPod sample_kube (Some cni_args) False (KubeConfig sample_conf) (nkst ?w))) = None"
    by (simp add: sample_no_pod)
  have ok: "sample_ok (vst ?w)" by (simp add: sample_ok_one)
  obtain data f where ld: "LoadVppConfig cni_args (fsys ?w) = (Inr data, f)"
  proof -
    have "\<not> isl (fst (LoadVppConfig cni_args (fsys ?w)))" by code_simp
    then show thesis using that by (metis isl_def prod.collapse sum.exhaust_sel)
  qed
  have x: "\<forall>x. fst (ext_ExecDel sample_ext (IPAMType sample_conf) (StdinData cni_args) x) = None"
    "\<forall>x. fst (delete_link sample_ext cni_args x) = None" by (simp_all add: delete_link_def sample_ext_def cni_args_def)
  obtain w' where "sample_del ?w = (None, w')" "vst w' = vst ?w"
    using del_without_pod_keeps_memif [OF sample.vpp_channel_axioms ok sample_LoadNetConf c pod dir none ld x] by blast
  then show ?thesis using sample_one_rows(1) by simp
qed

text \<open>The pod with its annotations after the hand-over.\<close>

lemma sample_WritePodAnnotation:
  "\<exists>p'. WritePodAnnotation sample_kube sample_lib True (Some sample_pod) (Some d) s = ((Some p', None), Some p') \<and>
     pod_Volumes p' = pod_Volumes sample_pod"
proof -
  have r: "retry_on_conflict sample_kube 4 (p, None) s = ((p, None), Some p)" for p
    by (simp add: eval_nat_numeral sample_kube_def update_attempt_def)
  have "kube_retry_steps sample_kube = 4" by (simp add: sample_kube_def)
  then show ?thesis
    by (auto simp: WritePodAnnotation_def setPodAnnotationConfigData_def setPodAnnotationMappedDir_def k8s_WritePodAnnotation_def r
        annotation_def set_annotation_def sample_pod_def AnnotKeyUsrspConfigData_def AnnotKeyUsrspMappedDir_def Let_def split: sum.splits)
qed

lemma sample_GetPod: "GetPod sample_kube (Some cni_args) False (KubeConfig sample_conf) (Some p) = ((Some p, True, None), Some p)"
  by (simp add: GetPod_def getK8sArgs_def getK8sClient_def sample_kube_def sample_conf_def zero_defs)

lemma sample_dir: "GetPodVolumeMountHostSharedDir (Some p) = Inr ''/run/vpp''" if "pod_Volumes p = pod_Volumes sample_pod" for p
  using that by (simp add: GetPodVolumeMountHostSharedDir_def sample_pod_def volMntKeySharedDir_def)

lemma sample_GetPodAndSharedDir:
  assumes "nkst w = Some p" and "pod_Volumes p = pod_Volumes sample_pod"
  shows "GetPodAndSharedDir sample_kube sample_conf cni_args False w = ((True, Some p, Inr ''/run/vpp''), w)"
    and "shared_dir sample_kube sample_conf cni_args False (nkst w) = Inr ''/run/vpp''"
  using assms by (simp_all add: GetPodAndSharedDir_def on_kube_def shared_dir_def sample_GetPod sample_dir [OF assms(2)])

text \<open>The engine's part of both commands, whatever the pod is by the time of the DEL.\<close>

lemma sample_host_run:
  "case vpp_AddOnHost sample_vpp None sample_conf cni_args ''/run/vpp'' (Some (bare_result cni_args ''/run/netns/a''))
      (sample_state sample_world (Some sample_pod)) of
     ((e, c), w1) \<Rightarrow> e = None \<and> length (sp_memifs (vst w1)) = 1 \<and> IPAMType c = [] \<and> container_engine c = ''vpp'' \<and>
       fst (vpp_DelFromHost sample_vpp None sample_conf cni_args ''/run/vpp'' (w1\<lparr>nkst := p\<rparr>)) = None"
  by code_simp

theorem CmdAdd_CmdDel_memif_witness:
  "\<exists>res w1 w2. sample_add (sample_state sample_world (Some sample_pod)) = (Inr res, w1) \<and> length (sp_memifs (vst w1)) = 1 \<and>
     sample_del w1 = (None, w2) \<and> set (memifs sample_vpp (vst w2)) = {}"
proof -
  let ?w = "sample_state sample_world (Some sample_pod)" and ?r = "bare_result cni_args ''/run/netns/a''"
  obtain e c w3 where a: "vpp_AddOnHost sample_vpp None sample_conf cni_args ''/run/vpp'' (Some ?r) ?w = ((e, c), w3)" by (metis surj_pair)
  have run: "e = None" "length (sp_memifs (vst w3)) = 1" "IPAMType c = []" "container_engine c = ''vpp''"
    "fst (vpp_DelFromHost sample_vpp None sample_conf cni_args ''/run/vpp'' (w3\<lparr>nkst := p\<rparr>)) = None" for p
    using sample_host_run [of p] a by simp_all
  have k: "nkst w3 = Some sample_pod" using more_fields(1) [OF vpp_AddOnHost_more [OF a]] by simp
  obtain p' where p': "WritePodAnnotation sample_kube sample_lib True (Some sample_pod) (Some (remote_data c cni_args (Some ?r))) (nkst w3) =
      ((Some p', None), Some p')" "pod_Volumes p' = pod_Volumes sample_pod"
    using sample_WritePodAnnotation by blast
  let ?w4 = "w3\<lparr>nkst := Some p'\<rparr>"
  have s: "slice12 (ContainerID cni_args) = Some ''0123456789ab''" by code_simp
  have e': "Engine (HostConf sample_conf) = ''vpp''" "IfType (HostConf sample_conf) = ''memif''" "IPAMType sample_conf = []"
    "container_engine sample_conf = ''vpp''" by (simp_all add: sample_conf_def zero_defs container_engine_def)
  have add: "sample_add ?w = (Inr ?r, ?w4)"
    using a run p'(1) s e' sample_GetPodAndSharedDir(1) [of ?w sample_pod]
    by (simp add: CmdAdd_def sample_LoadNetConf sample_ext_def engine_def CniVpp_def ipam_result_def vpp_AddOnContainer_def
        SaveRemoteConfig_def on_kube_def Let_def)
  obtain w5 where d: "vpp_DelFromHost sample_vpp None sample_conf cni_args ''/run/vpp'' ?w4 = (None, w5)"
    using run(5) [of "Some p'"] by (metis prod.collapse)
  have link: "delete_link sample_ext cni_args x = (None, Suc x)" for x by (simp add: delete_link_def sample_ext_def cni_args_def)
  obtain w6 where del: "sample_del ?w4 = (None, w6)"
    using d s e' sample_GetPodAndSharedDir(1) [of ?w4 p'] p'(2)
    by (simp add: CmdDel_def sample_LoadNetConf engine_def CniVpp_def vpp_DelFromContainer_def on_ext_def link)
  have "own_socket sample_conf cni_args ''/run/vpp'' \<notin> set (map sd_SocketFilename (sp_socks (vst sample_world)))" by code_simp
  then have new: "own_socket sample_conf cni_args ''/run/vpp'' \<notin> sd_SocketFilename ` set (socks sample_vpp (vst ?w))" by simp
  have "sample_ok (vst ?w)" by (simp add: sample_ok_world)
  from CmdAdd_CmdDel_memif [OF sample.vpp_channel_axioms this sample_input_conf e'(1,2) _ _ new add del]
  have "set (memifs sample_vpp (vst w6)) = set (memifs sample_vpp (vst ?w))"
    using sample_GetPodAndSharedDir(2) [of ?w sample_pod] sample_GetPodAndSharedDir(2) [of ?w4 p'] p'(2) by simp
  moreover have "sp_memifs (vst sample_world) = []" by code_simp
  ultimately show ?thesis using add del run(2) by auto
qed

end
