(* ===== verification/Restore.thy ===== *)
theory Restore
  imports Daemon Cni_Vpp
begin

text \<open>
  The restore daemon against the plugin: what the daemon asks VPP for, from the network configuration
  and the entry that the plugin stored in the pod's annotation, is what the plugin's ADD asked for.
\<close>

section \<open>The parameters of a master\<close>

text \<open>
  The configurations for which both agree: a master on the VPP engine, whose mode the host's half or
  neither half gives, with a bridge domain other than 0 or no bridge, and an MTU that is not negative.
\<close>

definition restorable :: "NetConf \<Rightarrow> bool" where
  "restorable conf \<longleftrightarrow>
     (let h = HostConf conf
      in IfType h = ''memif'' \<and> Engine h = ''vpp'' \<and> mc_Role (uc_MemifConf h) = ''master'' \<and>
         (IfType (ContainerConf conf) = [] \<or> IfType (ContainerConf conf) = ''memif'') \<and>
         (mc_Mode (uc_MemifConf h) \<noteq> [] \<or> mc_Mode (uc_MemifConf (ContainerConf conf)) \<in> {[], ''ethernet''}) \<and>
         (NetType h = ''bridge'' \<and> add_bridge_domain (uc_BridgeConf h) \<noteq> Inr 0 \<or> NetType h = ''interface'') \<and> 0 \<le> MTU h)"

lemma equalFold_refl [simp]: "equalFold s s"
  by (simp add: equalFold_def)

lemma restorable_interface: "\<not> equalFold ''interface'' ''bridge''"
  by code_simp

text \<open>A mode that the ADD accepts is read the same way by the daemon.\<close>

lemma memif_mode_parse: "memif_mode mode = Inr k \<Longrightarrow> parseMode mode = k"
proof -
  have "toLower ''ethernet'' = ''ethernet''" "toLower ''ip'' = ''ip''" "toLower ''inject-punt'' = ''inject-punt''" by code_simp+
  then show "memif_mode mode = Inr k \<Longrightarrow> parseMode mode = k"
    by (auto simp: memif_mode_def parseMode_def Let_def split: if_splits)
qed

lemma add_bridge_domain_eq: "add_bridge_domain b = Inr n \<Longrightarrow> bridgeDomainID b = Inr n"
  by (auto simp: add_bridge_domain_def bridgeDomainID_def split: if_splits sum.splits)

text \<open>The configuration that an ADD of a memif leaves: with the name of the socket file and the mode filled in.\<close>

definition filled_in :: "NetConf \<Rightarrow> CmdArgs \<Rightarrow> NetConf" where
  "filled_in conf args =
     set_memif conf ((host_memif conf)
       \<lparr>mc_Socketfile := SocketFileName (mc_Socketfile (host_memif conf)) (ContainerID args) (ca_IfName args),
        mc_Mode := (if mc_Mode (host_memif conf) = [] then ''ethernet'' else mc_Mode (host_memif conf))\<rparr>)"

lemma filled_in_host [simp]:
  "MTU (HostConf (filled_in conf args)) = MTU (HostConf conf)"
  "NetType (HostConf (filled_in conf args)) = NetType (HostConf conf)"
  "MAC (HostConf (filled_in conf args)) = MAC (HostConf conf)"
  "uc_BridgeConf (HostConf (filled_in conf args)) = uc_BridgeConf (HostConf conf)"
  "IfType (HostConf (filled_in conf args)) = IfType (HostConf conf)"
  "ContainerConf (filled_in conf args) = ContainerConf conf"
  by (simp_all add: filled_in_def set_memif_def)

lemma addLocalDeviceMemif_filled_in:
  assumes "addLocalDeviceMemif V conf args dir w = ((Inr data, conf1), w1)" and "mc_Role (host_memif conf) = ''master''"
  obtains k wa mode where "conf1 = filled_in conf args" "CreateMemifSocket V (own_socket conf args dir) w = (Inr k, wa)"
    "CreateMemifInterface V (memif_params conf1 k RoleMaster mode) wa = (Inr (InterfaceSwIfIndex data), w1)"
    "memif_mode (mc_Mode (host_memif conf1)) = Inr mode"
proof -
  have role: "memif_role ''master'' = Inr RoleMaster" by (simp add: memif_role_def)
  show thesis
    using assms that
    unfolding addLocalDeviceMemif_def getMemifSocketfileName_def own_socket_def
    by (auto simp: Let_def role filled_in_def set_memif_def split: prod.splits sum.splits if_splits)
qed

text \<open>The master that the daemon derives from the entry of such an ADD has the parameters of the ADD.\<close>

lemma desired_after_add:
  assumes "restorable conf" and mode: "memif_mode (mc_Mode (host_memif (filled_in conf args))) = Inr k"
    and bd: "NetType (HostConf conf) = ''bridge'' \<Longrightarrow> add_bridge_domain (uc_BridgeConf (HostConf conf)) = Inr bd"
  obtains m where "desiredMemif (remote_data (filled_in conf args) args ip) (HostConf conf) dir = Inr (Some m)"
    "Socket m = own_socket conf args dir" "\<And>s. master_params m s = memif_params (filled_in conf args) s RoleMaster k"
    "mf_MTU m = word_of_int (MTU (HostConf conf))"
    "BridgeID m = (if NetType (HostConf conf) = ''bridge'' then bd else 0)"
proof -
  let ?h = "HostConf conf" and ?e = "remote_data (filled_in conf args) args ip"
  let ?mode = "if mc_Mode (host_memif conf) = [] then mc_Mode (uc_MemifConf (cd_Config ?e)) else mc_Mode (host_memif conf)"
  have r: "IfType ?h = ''memif''" "Engine ?h = ''vpp''" "NetType ?h = ''bridge'' \<or> NetType ?h = ''interface''"
    using assms(1) by (auto simp: restorable_def Let_def)
  have dom: "(if equalFold (NetType ?h) ''bridge'' then bridgeDomainID (uc_BridgeConf ?h) else Inr 0) =
      Inr (if NetType ?h = ''bridge'' then bd else 0)"
    using r(3) bd by (auto simp: restorable_interface add_bridge_domain_eq)
  have "?mode = mc_Mode (host_memif (filled_in conf args))"
    using assms(1) by (auto simp: restorable_def Let_def remote_data_def container_conf_def complete_memif_def
      filled_in_def set_memif_def)
  then have "parseMode ?mode = k" using memif_mode_parse [OF mode] by simp
  moreover have "cd_ContainerId ?e = ContainerID args" "cd_IfName ?e = ca_IfName args" by (simp_all add: remote_data_def)
  ultimately show thesis
    using r dom by (intro that [of "\<lparr>Socket = own_socket conf args dir, mf_ID = 0,
        BridgeID = (if NetType ?h = ''bridge'' then bd else 0), mf_Mode = ?mode, SwIfIndex = 0,
        mf_RxQueues = mc_RxQueues (host_memif conf), mf_TxQueues = mc_TxQueues (host_memif conf),
        mf_RingSize = mc_RingSize (host_memif conf), mf_BufferSize = mc_BufferSize (host_memif conf),
        mf_Secret = mc_Secret (host_memif conf), mf_HwAddr = MAC ?h, mf_NoZeroCopy = mc_NoZeroCopy (host_memif conf),
        mf_UseDma = mc_UseDma (host_memif conf), mf_MTU = word_of_int (MTU ?h)\<rparr>"])
      (simp_all add: desiredMemif_def Let_def own_socket_def getMemifSocketfileName_def socketFileName_def master_params_def memif_params_def
        filled_in_def set_memif_def)
qed

lemma mtu_agree:
  assumes "0 \<le> n"
    and "(if 0 < n then SetMtu V i (word_of_int n) w else (None, w)) = (None, w')"
  shows "(if 0 < (word_of_int n :: u32) then SetMtu V i (word_of_int n) w else (None, w)) = (None, w')"
  using assms by (cases "n = 0") (auto simp: SetMtu_def word_neq_0_conv split: if_splits)

lemma network_agree:
  assumes "add_network V host i ip w = (None, w')" and "case ip of None \<Rightarrow> True | Some r \<Rightarrow> IPs r = []"
    and "NetType host = ''bridge'' \<Longrightarrow> add_bridge_domain (uc_BridgeConf host) = Inr bd \<and> bd \<noteq> 0"
    and "NetType host = ''bridge'' \<or> NetType host = ''interface''"
  shows "(let b = (if NetType host = ''bridge'' then bd else 0)
          in if b \<noteq> 0 then AddBridgeInterface V b i w else (None, w)) = (None, w')"
  using assms by (auto simp: add_network_def Let_def split: option.splits)

lemma network_domain:
  "add_network V host i ip w = (None, w') \<Longrightarrow> NetType host = ''bridge'' \<Longrightarrow>
   \<exists>bd. add_bridge_domain (uc_BridgeConf host) = Inr bd"
  by (auto simp: add_network_def split: sum.splits)

lemma restorable_domain:
  "restorable conf \<Longrightarrow> NetType (HostConf conf) = ''bridge'' \<Longrightarrow>
   add_bridge_domain (uc_BridgeConf (HostConf conf)) \<noteq> Inr 0"
  by (simp add: restorable_def Let_def)

section \<open>The calls of an ADD and of the daemon\<close>

lemma add_gives_desired:
  assumes conf: "restorable conf" and "case ip of None \<Rightarrow> True | Some r \<Rightarrow> IPs r = []"
    and run: "vpp_AddOnHost V None conf args dir ip w = ((None, conf'), w1)"
  shows "\<exists>m w2. desiredMemif (remote_data conf' args ip') (HostConf conf) dir = Inr (Some m) \<and>
    Socket m = own_socket conf args dir \<and> vpp_CreateMaster V m w = (None, w2) \<and> vst w2 = vst w1"
proof -
  let ?h = "HostConf conf"
  have h: "IfType ?h = ''memif''" "mc_Role (host_memif conf) = ''master''" "0 \<le> MTU ?h"
    "NetType ?h = ''bridge'' \<or> NetType ?h = ''interface''"
    using conf by (auto simp: restorable_def Let_def)
  obtain data wb wc wd we where
    dev: "addLocalDeviceMemif V conf args dir w = ((Inr data, conf'), wb)"
    and up: "SetState V (InterfaceSwIfIndex data) 1 wb = (None, wc)"
    and mtu: "(if 0 < MTU (HostConf conf') then SetMtu V (InterfaceSwIfIndex data) (word_of_int (MTU (HostConf conf'))) wc
        else (None, wc)) = (None, wd)"
    and net: "add_network V (HostConf conf') (InterfaceSwIfIndex data) ip wd = (None, we)"
    and sv: "on_fs (SaveVppConfig (clock we) args data) we = (None, w1)"
    by (rule AddOnHost_memif_run [OF h(1) run])
  from dev h(2) obtain k wa mode where c: "conf' = filled_in conf args"
    "CreateMemifSocket V (own_socket conf args dir) w = (Inr k, wa)"
    "CreateMemifInterface V (memif_params conf' k RoleMaster mode) wa = (Inr (InterfaceSwIfIndex data), wb)"
    "memif_mode (mc_Mode (host_memif conf')) = Inr mode"
    by (rule addLocalDeviceMemif_filled_in)
  obtain bd where bd: "NetType ?h = ''bridge'' \<Longrightarrow> add_bridge_domain (uc_BridgeConf ?h) = Inr bd \<and> bd \<noteq> 0"
    using restorable_domain [OF conf] network_domain [OF net] unfolding c(1) filled_in_host by blast
  obtain m where m: "desiredMemif (remote_data conf' args ip') ?h dir = Inr (Some m)"
    "Socket m = own_socket conf args dir" "\<And>s. master_params m s = memif_params conf' s RoleMaster mode"
    "mf_MTU m = word_of_int (MTU ?h)" "BridgeID m = (if NetType ?h = ''bridge'' then bd else 0)"
    using desired_after_add [OF conf c(4) [unfolded c(1)]] bd unfolding c(1) by blast
  have mtu': "(if 0 < mf_MTU m then SetMtu V (InterfaceSwIfIndex data) (mf_MTU m) wc else (None, wc)) = (None, wd)"
    using mtu_agree [OF h(3) mtu [unfolded c(1) filled_in_host]] unfolding m(4) .
  have net': "(if BridgeID m \<noteq> 0 then AddBridgeInterface V (BridgeID m) (InterfaceSwIfIndex data) wd else (None, wd)) = (None, we)"
    using network_agree [OF net assms(2)] bd h(4) unfolding m(5) Let_def c(1) filled_in_host by blast
  have "vpp_CreateMaster V m w = (None, we)"
    using c(2,3) up mtu' net' m(2,3)
    by (cases "BridgeID m = 0") (simp_all add: vpp_CreateMaster_def configure_master_def IF_ADMIN_UP_def)
  moreover have "vst we = vst w1" using on_fs_frame [OF sv] by simp
  ultimately show ?thesis using m(1,2) by blast
qed

section \<open>From the annotation to the desired masters\<close>

text \<open>A getter over a cluster whose network definitions do not change during a \<open>Sync\<close>.\<close>

definition pure_get :: "(string \<Rightarrow> string result) \<Rightarrow> string \<Rightarrow> string \<Rightarrow> unit \<Rightarrow> string result \<times> unit" where
  "pure_get f ns n u = (f (nad_key ns n), u)"

lemma pure_get_direct: "pure_get f = direct_get (\<lambda>ns n. f (nad_key ns n))"
  by (simp add: fun_eq_iff pure_get_def direct_get_def)

lemma desired_masters_pure:
  assumes "rc_Pods R k0 = (Inr pods, k)" and "\<And>ns n k. fst (rc_NADs R ns n k) = f (nad_key ns n)"
  shows "desired_masters L R k0 = fst (sync_pods L (pure_get f) pods [] ())"
  unfolding pure_get_direct by (rule desired_masters_direct [where good = "\<lambda>_. True", OF assms(1)]) (use assms(2) in simp_all)

lemma match_entries_collects:
  "match_entries nets dir es out = Inr ms \<Longrightarrow>
   set out \<subseteq> set ms \<and>
   (\<forall>e\<in>set es. \<forall>host m. network_of nets e = Some host \<longrightarrow> desiredMemif e host dir = Inr (Some m) \<longrightarrow> m \<in> set ms)"
proof (induction es arbitrary: out)
  case (Cons e es)
  show ?case
  proof (cases "network_of nets e")
    case None
    then show ?thesis using Cons.IH [of out] Cons.prems by auto
  next
    case (Some host)
    then obtain r where r: "desiredMemif e host dir = Inr r" using Cons.prems by (auto split: sum.splits)
    then show ?thesis
      using Some Cons.IH [of "case r of None \<Rightarrow> out | Some m \<Rightarrow> out @ [m]"] Cons.prems by (auto split: option.splits)
  qed
qed simp

text \<open>The host configuration that the pod's networks declare for an entry.\<close>

definition declared :: "cni_lib \<Rightarrow> (string \<Rightarrow> string result) \<Rightarrow> Pod \<Rightarrow> ConfigurationData \<Rightarrow> UserSpaceConf option" where
  "declared L f pod e =
     (let nets = parseNetworks (annotation pod netAnnotKey) (pod_Namespace pod)
      in case fst (read_hosts L (pure_get f) nets ()) of
           Inl _ \<Rightarrow> None
         | Inr hosts \<Rightarrow> if length nets = 1 then Some (hd hosts) else network_of (zip nets hosts) e)"

lemma desiredForPod_collects:
  assumes run: "fst (desiredForPod L (pure_get f) pod ()) = Inr ms" and "declared L f pod e = Some host"
    and raw: "trimSpace (annotation pod AnnotKeyUsrspConfigData) \<noteq> []"
    and "Unmarshal_ConfigData L (annotation pod AnnotKeyUsrspConfigData) = Inr entries" and e: "e \<in> set entries"
    and dir: "GetPodVolumeMountHostSharedDir (Some pod) = Inr dir" "dir \<noteq> []"
    and m: "desiredMemif e host dir = Inr (Some m)"
  shows "m \<in> set ms"
proof -
  let ?nets = "parseNetworks (annotation pod netAnnotKey) (pod_Namespace pod)"
  obtain hosts where hosts: "read_hosts L (pure_get f) ?nets () = (Inr hosts, ())"
    "(if length ?nets = 1 then Some (hd hosts) else network_of (zip ?nets hosts) e) = Some host"
    using assms(2) by (auto simp: declared_def Let_def prod_eq_iff split: sum.splits)
  have ne: "?nets \<noteq> []" "entries \<noteq> []" using hosts e by (auto simp: network_of_def)
  have res: "(if length ?nets = 1 then buildDesired entries (hd hosts) dir else match_entries (zip ?nets hosts) dir entries []) = Inr ms"
    using run ne raw assms(4) dir hosts(1) by (simp add: desiredForPod_def Let_def split: if_splits)
  show ?thesis
  proof (cases "length ?nets = 1")
    case True
    then show ?thesis using res hosts(2) build_loop_eq [of entries host dir "[]" ms] e m by (auto simp: buildDesired_def)
  next
    case False
    then show ?thesis using res hosts(2) match_entries_collects [of "zip ?nets hosts" dir entries "[]" ms] e m by auto
  qed
qed

lemma config_text_not_blank: "trimSpace (config_text L ds) \<noteq> []"
proof -
  have "trimSpace (config_text L ds) = config_text L ds"
    by (rule trimSpace_graphic) (simp_all add: config_text_def graphic_def)
  then show ?thesis by (simp add: config_text_def)
qed

section \<open>Properties\<close>

text \<open>
  C9: Restoring a master does to VPP what the ADD did, for the configurations that \<^const>\<open>restorable\<close>
  describes: a memif master of the VPP engine whose mode the host's half gives, or both halves leave
  at ethernet; a network of type interface, or of type bridge with a domain other than 0; an MTU that
  is not negative; and a container half without an interface type or with memif. When the ADD of such
  a configuration, with a result without addresses, succeeded on a state of VPP, the daemon derives,
  from the network configuration and from the entry the ADD stored, a master whose creation on that
  state succeeds and leaves VPP exactly as the ADD left it. The excluded mode is a real difference,
  see \<open>restore_mode_differs\<close>.
\<close>

theorem restore_equals_add:
  assumes "restorable conf" and "case ip of None \<Rightarrow> True | Some r \<Rightarrow> IPs r = []"
    and "vpp_AddOnHost V None conf args dir ip w = ((None, conf'), w1)"
  shows "\<exists>m w2. desiredMemif (remote_data conf' args ip') (HostConf conf) dir = Inr (Some m) \<and>
    vpp_CreateMaster V m w = (None, w2) \<and> vst w2 = vst w1"
  using add_gives_desired [OF assms] by blast

text \<open>
  Outside these configurations the daemon can restore another master. When only the container's half
  gives a mode and it is \<open>ip\<close>, the ADD creates an ethernet master, and the daemon an ip master.
\<close>

theorem restore_mode_differs:
  assumes "mc_Mode (host_memif conf) = []" and "mc_Mode (uc_MemifConf (ContainerConf conf)) = ''ip''"
    and "IfType (HostConf conf) = ''memif''" and "IfType (ContainerConf conf) = []"
    and "desiredMemif (remote_data (filled_in conf args) args ip) (HostConf conf) dir = Inr (Some m)"
  shows "memif_mode (mc_Mode (host_memif (filled_in conf args))) = Inr ModeEthernet \<and> parseMode (mf_Mode m) = ModeIP"
proof -
  have "toLower ''ip'' = ''ip''" by code_simp
  then have "parseMode ''ip'' = ModeIP" by (simp add: parseMode_def Let_def)
  moreover have "mf_Mode m = ''ip''"
    using assms by (auto simp: desiredMemif_def Let_def remote_data_def container_conf_def complete_memif_def split: if_splits sum.splits)
  ultimately show ?thesis using assms(1) by (simp add: filled_in_def set_memif_def memif_mode_def)
qed

text \<open>The ADD of the examples.\<close>

lemma sample_add_run:
  "vpp_AddOnHost sample_vpp None sample_netconf sample_args ''/run/vpp'' None sample_world =
     ((None, filled_in sample_netconf sample_args),
      snd (vpp_AddOnHost sample_vpp None sample_netconf sample_args ''/run/vpp'' None sample_world))"
  by (rule run_surj) code_simp

lemma sample_restorable: "restorable sample_netconf"
  by code_simp

theorem restore_equals_add_witness:
  "\<exists>m w2. desiredMemif (remote_data (filled_in sample_netconf sample_args) sample_args None) (HostConf sample_netconf) ''/run/vpp'' =
       Inr (Some m) \<and>
     vpp_CreateMaster sample_vpp m sample_world = (None, w2) \<and>
     vst w2 = vst (snd (vpp_AddOnHost sample_vpp None sample_netconf sample_args ''/run/vpp'' None sample_world))"
  by (rule restore_equals_add [OF sample_restorable _ sample_add_run]) simp

text \<open>
  C8: A memif survives a restart of VPP. Suppose an ADD created a memif master, with a configuration as in
  \<^const>\<open>restorable\<close> and a result without addresses, and its entry was added to the entries of the
  pod's annotation. Later, whatever VPP holds by then, let the daemon see a pod with
  that annotation and that shared directory, whose networks declare the host configuration of the ADD
  and which it can evaluate. If its round ends without an error, then the socket of the ADD is backed
  by a master of VPP again.
\<close>

theorem restart_restores_add:
  fixes d :: "('v, 'k) daemon"
  assumes "vpp_channel V vinv" and "restorable conf" and "case ip of None \<Rightarrow> True | Some r \<Rightarrow> IPs r = []"
    and "vpp_AddOnHost V None conf args dir ip w = ((None, conf'), w1)"
    and "pod_Annotations p AnnotKeyUsrspConfigData = (if es = [] then None else Some (config_text L es))"
    and "\<forall>e\<in>set (es @ [remote_data conf' args ip']). entry_ok L e"
    and "setPodAnnotationConfigData L (Some p) (Some (remote_data conf' args ip')) = (Inr b, Some p')"
    and "rc_Pods R (kst d) = (Inr pods, k)" and "q \<in> set pods"
    and "\<forall>ns n k. fst (rc_NADs R ns n k) = f (nad_key ns n)"
    and "annotation q AnnotKeyUsrspConfigData = annotation p' AnnotKeyUsrspConfigData"
    and "GetPodVolumeMountHostSharedDir (Some q) = Inr dir" and "dir \<noteq> []"
    and "declared L f q (remote_data conf' args ip') = Some (HostConf conf)"
    and "fst (desiredForPod L (pure_get f) q ()) = Inr ms"
    and "vinv (vst d)" and "\<forall>m\<in>set (desired_masters L R (kst d)). managed_socket pre (Socket m)"
    and "Sync L R (vppDataplane V pre) d = ((c, x, None), d')"
  shows "own_socket conf args dir \<in> snd ` vpp_view V pre (vst d')"
proof -
  let ?e = "remote_data conf' args ip'"
  obtain m w2 where m: "desiredMemif ?e (HostConf conf) dir = Inr (Some m)" "Socket m = own_socket conf args dir"
    using add_gives_desired [OF assms(2-4)] by blast
  have p': "annotation q AnnotKeyUsrspConfigData = config_text L (es @ [?e])"
    using assms(7,11) setPodAnnotationConfigData_text [OF assms(5), of ?e] by (auto simp: annotation_def set_annotation_def)
  have "m \<in> set ms"
    by (rule desiredForPod_collects [OF assms(15,14) _ _ _ assms(12,13) m(1), where entries = "es @ [?e]"])
      (simp_all add: p' config_text_not_blank Unmarshal_config_text(1) [OF assms(6)])
  moreover have "desired_masters L R (kst d) = fst (sync_pods L (pure_get f) pods [] ())"
    using desired_masters_pure [OF assms(8)] assms(10) by blast
  ultimately have "m \<in> set (desired_masters L R (kst d))"
    using assms(9,15) by (auto simp: sync_pods_set)
  then show ?thesis using Sync_restores [OF assms(1,16,17,18)] m(2) by (metis imageI subsetD)
qed

text \<open>An example: the network of \<^const>\<open>sample_netconf\<close>, and a VPP that has lost everything.\<close>

definition restart_entry :: ConfigurationData where
  "restart_entry = remote_data (filled_in sample_netconf sample_args) sample_args None"

definition restart_nad :: string where
  "restart_nad = Marshal (JObj [(''host'', enc_UserSpaceConf (HostConf sample_netconf))])"

definition restart_pod :: Pod where
  "restart_pod = sample_pod\<lparr>pod_Annotations := [netAnnotKey \<mapsto> ''vpp-net'', AnnotKeyUsrspConfigData \<mapsto> config_text sample_lib [restart_entry]]\<rparr>"

definition restart_Reconciler :: "unit Reconciler" where
  "restart_Reconciler = \<lparr>rc_Pods = (\<lambda>k. (Inr [restart_pod], k)), rc_NADs = (\<lambda>ns n k. (Inr restart_nad, k)), Grace = 0\<rparr>"

definition restart_daemon :: "(sample, unit) daemon" where
  "restart_daemon = \<lparr>vst = sample_empty, fsys = sample_fs, clock = 1000, kst = (), orphanSeen = (\<lambda>_. None), rc_round = 0\<rparr>"

lemma restart_entry_ok: "entry_ok sample_lib restart_entry"
proof -
  have "conf_ok (cd_Config restart_entry)" by code_simp
  moreover have "cd_IPResult restart_entry = zero_Result" by (simp add: restart_entry_def remote_data_def)
  ultimately show ?thesis by (simp add: entry_ok_def sample_lib_def)
qed

lemma restart_nad_conf: "\<exists>nc. Unmarshal_NetConf sample_lib restart_nad = Inr nc \<and> HostConf nc = HostConf sample_netconf"
proof -
  have "json_parse restart_nad = Some (JObj [(''host'', enc_UserSpaceConf (HostConf sample_netconf))])"
    unfolding restart_nad_def by (rule json_parse_Marshal) simp
  moreover have "conf_ok (HostConf sample_netconf)" by code_simp
  ultimately show ?thesis
    using dec_enc_UserSpaceConf [of "HostConf sample_netconf"]
    by (simp add: Unmarshal_NetConf_def Unmarshal_def netconf_fields_def find_field_def field_def zero_NetConf_def)
qed

lemma restart_pod_reads:
  "parseNetworks (annotation restart_pod netAnnotKey) (pod_Namespace restart_pod) =
     [\<lparr>nr_Namespace = ''default'', nr_Name = ''vpp-net'', nr_Interface = []\<rparr>]"
  "annotation restart_pod AnnotKeyUsrspConfigData = config_text sample_lib [restart_entry]"
  "GetPodVolumeMountHostSharedDir (Some restart_pod) = Inr ''/run/vpp''"
proof -
  have "annotation restart_pod netAnnotKey = ''vpp-net''" "pod_Namespace restart_pod = ''default''"
    by (simp_all add: annotation_def restart_pod_def sample_pod_def netAnnotKey_def AnnotKeyUsrspConfigData_def)
  moreover have "parseNetworks ''vpp-net'' ''default'' =
      [\<lparr>nr_Namespace = ''default'', nr_Name = ''vpp-net'', nr_Interface = []\<rparr>]" by code_simp
  ultimately show "parseNetworks (annotation restart_pod netAnnotKey) (pod_Namespace restart_pod) =
     [\<lparr>nr_Namespace = ''default'', nr_Name = ''vpp-net'', nr_Interface = []\<rparr>]" by simp
  show "annotation restart_pod AnnotKeyUsrspConfigData = config_text sample_lib [restart_entry]"
    by (simp add: annotation_def restart_pod_def)
  show "GetPodVolumeMountHostSharedDir (Some restart_pod) = Inr ''/run/vpp''"
    by (simp add: GetPodVolumeMountHostSharedDir_def restart_pod_def sample_pod_def volMntKeySharedDir_def)
qed

definition restart_master :: Memif where
  "restart_master = the (projr (desiredMemif restart_entry (HostConf sample_netconf) ''/run/vpp''))"

lemma restart_desired:
  "desiredForPod sample_lib (pure_get (\<lambda>_. Inr restart_nad)) restart_pod () = (Inr [restart_master], ())"
  "declared sample_lib (\<lambda>_. Inr restart_nad) restart_pod restart_entry = Some (HostConf sample_netconf)"
proof -
  obtain nc where nc: "Unmarshal_NetConf sample_lib restart_nad = Inr nc" "HostConf nc = HostConf sample_netconf"
    using restart_nad_conf by blast
  have u: "Unmarshal_ConfigData sample_lib (config_text sample_lib [restart_entry]) = Inr [restart_entry]"
    by (rule Unmarshal_config_text(1)) (simp add: restart_entry_ok)
  have "desiredMemif restart_entry (HostConf sample_netconf) ''/run/vpp'' = Inr (Some restart_master)" by code_simp
  then show "desiredForPod sample_lib (pure_get (\<lambda>_. Inr restart_nad)) restart_pod () = (Inr [restart_master], ())"
    unfolding desiredForPod_def Let_def restart_pod_reads
    by (simp add: config_text_not_blank u nc pure_get_def buildDesired_def)
  show "declared sample_lib (\<lambda>_. Inr restart_nad) restart_pod restart_entry = Some (HostConf sample_netconf)"
    unfolding declared_def Let_def restart_pod_reads by (simp add: nc pure_get_def)
qed

lemma restart_masters: "desired_masters sample_lib restart_Reconciler () = [restart_master]"
  using desired_masters_pure [of restart_Reconciler "()" "[restart_pod]" "()" "\<lambda>_. Inr restart_nad" sample_lib] restart_desired(1)
  by (simp add: restart_Reconciler_def)

theorem restart_restores_add_witness:
  "vpp_view sample_vpp [''/run/vpp''] (vst restart_daemon) = {} \<and>
   own_socket sample_netconf sample_args ''/run/vpp'' \<in> snd ` vpp_view sample_vpp [''/run/vpp'']
     (vst (snd (Sync sample_lib restart_Reconciler (vppDataplane sample_vpp [''/run/vpp'']) restart_daemon)))"
proof -
  let ?a = "vpp_AddOnHost sample_vpp None sample_netconf sample_args ''/run/vpp'' None sample_world"
  let ?dp = "vppDataplane sample_vpp [''/run/vpp'']"
  let ?s = "Sync sample_lib restart_Reconciler ?dp restart_daemon"
  note a = sample_add_run and r = sample_restorable
  let ?p = "sample_pod\<lparr>pod_Annotations := [netAnnotKey \<mapsto> ''vpp-net'']\<rparr>"
  have none: "pod_Annotations ?p AnnotKeyUsrspConfigData = (if [] = [] then None else Some (config_text sample_lib []))"
    by (simp add: netAnnotKey_def AnnotKeyUsrspConfigData_def)
  have set: "setPodAnnotationConfigData sample_lib (Some ?p) (Some (remote_data (filled_in sample_netconf sample_args) sample_args None)) =
      (Inr True, Some (set_annotation ?p AnnotKeyUsrspConfigData (config_text sample_lib [restart_entry])))"
    using setPodAnnotationConfigData_text [OF none, of "remote_data (filled_in sample_netconf sample_args) sample_args None"]
    by (simp add: restart_entry_def)
  have ok: "\<forall>e\<in>set ([] @ [remote_data (filled_in sample_netconf sample_args) sample_args None]). entry_ok sample_lib e"
    using restart_entry_ok by (simp add: restart_entry_def)
  have pods: "rc_Pods restart_Reconciler (kst restart_daemon) = (Inr [restart_pod], ())" by (simp add: restart_Reconciler_def)
  have man: "managed_socket [''/run/vpp''] (Socket restart_master)" by code_simp
  have decl: "declared sample_lib (\<lambda>_. Inr restart_nad) restart_pod (remote_data (filled_in sample_netconf sample_args) sample_args None) =
      Some (HostConf sample_netconf)" using restart_desired(2) by (simp add: restart_entry_def)
  have des: "fst (desiredForPod sample_lib (pure_get (\<lambda>_. Inr restart_nad)) restart_pod ()) = Inr [restart_master]"
    by (simp add: restart_desired(1))
  have "fst (Reconcile ?dp [restart_master] (Some (shouldGC 0)) (restart_daemon\<lparr>rc_round := 1, kst := ()\<rparr>)) = (1, 0, None)"
    by code_simp
  moreover have "fst (sync_pods sample_lib (nadLookup (rc_NADs restart_Reconciler)) [restart_pod] [] (empty_lookup ())) = [restart_master]"
    using restart_masters by (simp add: desired_masters_def restart_Reconciler_def)
  ultimately have "fst ?s = (1, 0, None)"
    by (simp add: Sync_def restart_Reconciler_def restart_daemon_def Let_def case_prod_unfold del: sync_pods.simps)
  then have s: "?s = ((1, 0, None), snd ?s)" by (metis prod.collapse)
  have "own_socket sample_netconf sample_args ''/run/vpp'' \<in> snd ` vpp_view sample_vpp [''/run/vpp''] (vst (snd ?s))"
  proof (rule restart_restores_add [OF sample.vpp_channel_axioms r _ a none ok set pods _ _ _ restart_pod_reads(3) _ decl des _ _ s])
    show "annotation restart_pod AnnotKeyUsrspConfigData =
        annotation (set_annotation ?p AnnotKeyUsrspConfigData (config_text sample_lib [restart_entry])) AnnotKeyUsrspConfigData"
      by (simp add: restart_pod_reads(2)) (simp add: annotation_def set_annotation_def)
    show "\<forall>m\<in>set (desired_masters sample_lib restart_Reconciler (kst restart_daemon)). managed_socket [''/run/vpp''] (Socket m)"
      using restart_masters man by simp
  qed (simp_all add: restart_Reconciler_def restart_daemon_def sample_ok_empty)
  moreover have "sp_memifs sample_empty = []" by code_simp
  then have "vpp_view sample_vpp [''/run/vpp''] (vst restart_daemon) = {}" by (auto simp: vpp_view_def restart_daemon_def)
  ultimately show ?thesis by blast
qed

end
