(* ===== verification/Masters_Spec.thy ===== *)
theory Masters_Spec
  imports Dataplane_Vpp
begin

text \<open>
  What the dataplane of the daemon promises, as an abstract machine: a table of masters, each with an
  index of its own and a socket, on which a call creates a row, deletes the row of an index or leaves
  the table alone. The VPP dataplane refines it, for every sequence of calls and every error VPP answers.
\<close>

section \<open>Calls\<close>

datatype master_call = CallCreate Memif | CallDelete Memif | CallSweep "string list"




section \<open>The abstract machine\<close>

text \<open>
  A creation takes an index that is not in use; when it fails, the row may be there nevertheless. A
  deletion takes the row of its index and, when it fails, takes it or leaves it.
\<close>

inductive masters_step ::
  "(u32 \<times> string) set \<Rightarrow> master_call \<Rightarrow> go_error option \<Rightarrow> (u32 \<times> string) set \<Rightarrow> bool" where
  created: "i \<notin> fst ` S \<Longrightarrow> masters_step S (CallCreate m) e (insert (i, Socket m) S)"
| refused: "masters_step S (CallCreate m) (Some e) S"
| deleted: "masters_step S (CallDelete m) e {x \<in> S. fst x \<noteq> SwIfIndex m}"
| kept: "masters_step S (CallDelete m) (Some e) S"
| swept: "masters_step S (CallSweep keep) e S"

inductive masters_run ::
  "(u32 \<times> string) set \<Rightarrow> master_call list \<Rightarrow> go_error option list \<Rightarrow> (u32 \<times> string) set \<Rightarrow> bool" where
  run_Nil: "masters_run S [] [] S"
| run_Cons: "masters_step S c e S1 \<Longrightarrow> masters_run S1 cs es S2 \<Longrightarrow> masters_run S (c # cs) (e # es) S2"

inductive_simps masters_step_simps [simp]:
  "masters_step S (CallCreate m) e S'"
  "masters_step S (CallDelete m) e S'"
  "masters_step S (CallSweep keep) e S'"

text \<open>In every run the table stays a table: no two rows share an index.\<close>

lemma masters_step_index: "masters_step S c e S' \<Longrightarrow> inj_on fst S \<Longrightarrow> inj_on fst S'"
  by (induction rule: masters_step.induct) (auto intro: inj_on_subset)

lemma masters_run_index: "masters_run S cs es S' \<Longrightarrow> inj_on fst S \<Longrightarrow> inj_on fst S'"
  by (induction rule: masters_run.induct) (auto dest: masters_step_index)

section \<open>The simulation\<close>



section \<open>Properties\<close>




end
