(* ===== verification/Spec2Isabelle.thy ===== *)
theory Spec2Isabelle
  imports Daemon_Main Vpp_Dump Cni_Main Restore Masters_Spec
begin

text \<open>
  A verification of the userspace CNI plugin and of its restore daemon.

  \<^bold>\<open>The program.\<close> The plugin (\<open>userspace/cni/cni.go\<close>) is run by a container runtime, once for ADD and
  once for DEL of an interface of a pod. It reads a network configuration, finds the pod and the
  directory that host and container share, and calls one of two engines: VPP (\<open>cnivpp/\<close>), which
  creates a memif or a vhost-user interface over VPP's binary API and joins it to a bridge domain, or
  OVS-DPDK (\<open>cniovs/\<close>), which creates a vhost-user port by transactions on OVSDB. The engine saves what
  its DEL will need in a file, and the container's half of the configuration goes into an annotation
  of the pod. The restore daemon (\<open>pkg/daemon/\<close>) watches VPP; when VPP has restarted it reads the pods
  of its node, their annotations and network definitions, derives the memif masters that should
  exist, and creates the missing ones; orphans are deleted only through a gate.

  \<^bold>\<open>The theories\<close>, each with the files under \<open>src/\<close> that it models.
    \<^item> \<open>Go_Prelude\<close>, \<open>Go_Path\<close>, \<open>Go_FS\<close>, \<open>Go_Json\<close>, \<open>Go_Unmarshal\<close>: what the sources use of Go's library:
      words, errors as values, \<open>strings\<close>, \<open>strconv\<close>, \<open>filepath\<close>, \<open>os\<close>, \<open>encoding/json\<close>.
    \<^item> \<open>Conf_Types\<close>, \<open>Conf_Json\<close>: the structs of \<open>pkg/types/types.go\<close> as records, and their JSON form.
    \<^item> \<open>Vpp_Channel\<close> (the binary API as a parameter and its laws, with \<open>Vpp_Sample\<close>, an executable API that
      has them), \<open>Vpp_Infra\<close>, \<open>Vpp_Memif\<close>, \<open>Vpp_Bridge\<close>, \<open>Vpp_Iface\<close>, \<open>Vpp_Frame\<close>:
      the wrappers of \<open>cnivpp/api/\<close> and what they leave alone; \<open>Vpp_Dump\<close>: what their dumps print.
    \<^item> \<open>Reconcile\<close>, \<open>Orphan_Sweep\<close>, \<open>Dataplane_Vpp\<close>, \<open>Masters_Spec\<close>, \<open>Desired\<close>, \<open>Daemon\<close>, \<open>Status\<close>, \<open>Watch\<close>,
      \<open>Daemon_Main\<close>: the daemon, \<open>pkg/daemon/reconcile.go\<close>, \<open>dataplane_vpp.go\<close>, \<open>desired.go\<close>, \<open>daemon.go\<close>,
      \<open>status.go\<close> and \<open>watch_vpp.go\<close>, and the program \<open>cmd/daemon/main.go\<close> from its flags to its exit code.
    \<^item> \<open>K8sclient\<close>, \<open>Annotations\<close>, \<open>Config_Data\<close>: \<open>pkg/k8sclient/\<close>, \<open>pkg/daemon/k8s.go\<close>, \<open>pkg/annotations/\<close> and
      \<open>pkg/configdata/\<close>.
    \<^item> \<open>Saved_Db\<close>, \<open>Cni_Vpp\<close>: the saved data of both engines (\<open>localdb.go\<close>) and the engine of \<open>cnivpp/cnivpp.go\<close>.
    \<^item> \<open>Ovs_Db\<close>, \<open>Ovn\<close>, \<open>Cni_Ovs\<close>, \<open>Ovs_Server\<close>: \<open>cniovs/ovsdb.go\<close>, \<open>ovn.go\<close> and \<open>cniovs.go\<close>, and the engine
      against a server that has the laws of OVSDB.
    \<^item> \<open>Logging\<close>, \<open>Cni_Main\<close>: \<open>logging/logging.go\<close>, and the commands of \<open>userspace/cni/cni.go\<close> over the
      interface of \<open>usrspcni/usrspcni.go\<close>, with the functions that \<open>userspace/main.go\<close> registers.
    \<^item> \<open>Restore\<close>: the plugin and the daemon together.

  \<^bold>\<open>State and operations.\<close> The state is a record that grows with the components: \<open>world\<close> holds VPP, the
  file system and the clock, \<open>node\<close> adds the API of Kubernetes, \<open>cni_node\<close> the OVSDB server, and
  \<open>cni_state\<close> namespaces, IPAM and the log. An operation is a function from a state to a result and a
  state, and it works on every extension of the record that it needs. A Go function keeps its name
  (with a prefix where both engines have it); its guards and early returns are the branches of the
  definition. Errors are values of \<^typ>\<open>go_error\<close>, a panic (a slice beyond the end of a short container
  id, a nil pointer) is the error \<open>EPanic\<close>. Functions that change a struct through a pointer return
  it. Integers of Go that can wrap are words. The watcher, whose order of events is free, is an
  inductive step relation.

  \<^bold>\<open>Parameters.\<close> What is not in the repository is a parameter, a record of functions over a state of its
  own: the binary API of VPP (\<open>vpp_api\<close>), govpp's connection (\<open>govpp\<close>), the API server (\<open>kube_api\<close>), the
  OVSDB client (\<open>ovs_api\<close>), the operating system (\<open>host_os\<close>), and the CNI library (\<open>cni_lib\<close>,
  \<open>cni_ext\<close>). Where a result depends on how they behave, the behaviour is a locale: \<open>vpp_channel\<close> and
  \<open>vpp_bridges\<close> (the tables of VPP), \<open>ovs_server\<close> (the rows of OVSDB). Each is interpreted on an
  executable instance, on which the examples run. Between the components the locales are \<open>dataplane\<close>
  (what the reconcile core relies on; VPP's dataplane is a \<open>sublocale\<close>), \<open>saved_db\<close> (interpreted for
  both engines), \<open>lookup_sim\<close> (two lookups that agree; interpreted for the cache), \<open>usrsp_cni\<close> and \<open>engines\<close>
  (what the commands rely on; interpreted for both engines). The laws of VPP and OVSDB describe a
  peer that answers: dumps and selects do not fail in the states of the invariant, and a refused
  request changes nothing. A lost connection, which some wrappers take for a missing row, is in the
  definitions but outside the theorems that use these laws.

  \<^bold>\<open>What is shown.\<close>
    \<^item> Reconciling VPP reaches exactly the desired masters, loses no desired master wherever it fails,
      leaves foreign memifs and live socket files alone, and is idempotent; the dataplane refines an
      abstract table of masters; a round of the daemon restores what the pods ask for, spares young
      orphans, and its cache is transparent; the sweep removes orphans, all of them and nothing else.
    \<^item> The watcher reconciles only while VPP is connected, and events in quick succession lead to one reconcile. The
      daemon that \<open>main\<close> starts touches no memif outside the prefixes of its flag, and its exit code is 1
      exactly when it could not start.
    \<^item> The wrappers keep VPP's tables: teardown of a memif and its socket, bridge domains, and the search for
      a socket id, which ends although its counter wraps.
    \<^item> ADD and DEL are inverse for VPP's memifs, at the engine and at the command, and for the bridges and
      ports of OVS; a DEL touches nothing but its own memif, and gives its address back only after the
      interface is gone.
    \<^item> What an ADD saves, its DEL loads; what the host writes for a container, the container reads, in order.
    \<^item> The daemon restores a master exactly as the ADD created it, under the conditions of \<open>restorable\<close>; and
      from the ADD through the annotation to a round of the daemon, a memif survives a restart of VPP.
    \<^item> Where the code does not do what it means to, a theorem says so: a lost annotation after a conflict,
      the file branch that no ADD without a pod reaches, a DEL that misses its memif, the
      wrong bridge for OVN ports, socket files of siblings that a DEL removes, readiness before the
      first reconcile, masters on a shared socket that are never collected, and desired sockets outside
      the prefixes, with which no reconcile settles.

  \<^bold>\<open>Bounds.\<close> The retry of a Kubernetes update is a recursion on the number of steps of the client library's
  back-off, which is a parameter. The search for an unused socket id is a \<open>while\<close> loop; it ends because VPP
  holds fewer than \<open>2 ^ 32 - 1\<close> sockets, which is part of the well-formedness of its tables. All other
  loops go through a list. Times are natural numbers in tenths of a second. The round counter and the
  streaks of the gate, 64-bit integers of Go that a daemon increases by one every two minutes, are
  unbounded integers.

  \<^bold>\<open>Not modelled.\<close> Log messages outside \<open>Logging\<close>, \<open>Vpp_Dump\<close> and \<open>Daemon_Main\<close>, which nothing reads; locks and
  goroutines of the status, whose operations are single steps; the parsing of flags, the delivery of
  signals and the listening of the HTTP server in \<open>cmd/daemon/main.go\<close>, which are Go's library; the
  CNI skeleton that dispatches the functions of \<open>userspace/main.go\<close>; the manual test programs under
  \<open>cnivpp/test/\<close>, which call the wrappers on a live VPP and sleep, and the test data; owner and mode of
  files; symbolic links.
\<close>

end
